theory Spec2Isabelle
  imports Main
begin

section \<open>Values on both sides of the wire\<close>

text \<open>
  Embedding of \<^verbatim>\<open>src/rpc-manager.ts\<close> (class \<^verbatim>\<open>RPCManager\<close>).

  A local object or function is known by its identity only, so it is a reference into an
  object store. \<^verbatim>\<open>SerializableValue\<close> is the union
  \<^verbatim>\<open>boolean | number | string | object | undefined | null\<close> of the source.
  Numbers are carried through the codec without being inspected; handles are whole numbers.
  The handle counter is an integer-valued double, exact below \<open>2^53\<close>: the model is of
  sessions with fewer registrations than that and uses unbounded integers.
\<close>

type_synonym ref = nat

datatype SerializableValue =
    VBool bool
  | VNum int
  | VStr string
  | VObject ref
  | VUndefined
  | VNull

text \<open>
  \<^verbatim>\<open>SerializedValue\<close>: a scalar, \<^verbatim>\<open>{type: 'empty'}\<close> or
  \<^verbatim>\<open>{type: 'scriptObject', scriptObject: n}\<close>. \<open>SMalformed\<close> stands for every JSON
  value outside that union (JSON null, an object with another \<^verbatim>\<open>type\<close>, and an array when
  it is passed to \<^verbatim>\<open>_deserialize\<close>): what reaches the final \<^verbatim>\<open>throw\<close> of
  \<^verbatim>\<open>_deserialize\<close>.
\<close>

datatype SerializedValue =
    SBool bool
  | SNum int
  | SStr string
  | SEmpty
  | SScriptObject int
  | SMalformed

text \<open>
  Modelled from the spec: \<^verbatim>\<open>src/const/rpc-values.ts\<close> is not among the sources. The spec's
  wire encoding reserves the handle value 0 as the invalid handle; the test-suite agrees
  (\<^verbatim>\<open>null\<close> is sent as \<^verbatim>\<open>{type: 'scriptObject', scriptObject: 0}\<close> and the first handle
  assigned is 1). The two type tags \<^verbatim>\<open>'empty'\<close> and \<^verbatim>\<open>'scriptObject'\<close> are the
  constructors \<open>SEmpty\<close> and \<open>SScriptObject\<close>.
\<close>

definition API_VALUE_INVALID_SCRIPT_OBJECT :: int where
  "API_VALUE_INVALID_SCRIPT_OBJECT = 0"

text \<open>\<^verbatim>\<open>src/const/rpc-server-methods.ts\<close>\<close>

definition API_SERVER_METHOD_AUTHENTICATE :: string where
  "API_SERVER_METHOD_AUTHENTICATE = ''authenticate''"

definition API_SERVER_METHOD_GET_ROOT_OBJECT :: string where
  "API_SERVER_METHOD_GET_ROOT_OBJECT = ''getRootObject''"

definition API_SERVER_METHOD_GET_VALUE :: string where
  "API_SERVER_METHOD_GET_VALUE = ''get''"

definition API_SERVER_METHOD_SET_VALUE :: string where
  "API_SERVER_METHOD_SET_VALUE = ''set''"

definition API_SERVER_METHOD_CALL_FUNCTION :: string where
  "API_SERVER_METHOD_CALL_FUNCTION = ''execute''"

definition API_SERVER_METHOD_DESCRIBE_VARIABLES :: string where
  "API_SERVER_METHOD_DESCRIBE_VARIABLES = ''listProperties''"

definition API_SERVER_METHOD_DESCRIBE_FUNCTIONS :: string where
  "API_SERVER_METHOD_DESCRIBE_FUNCTIONS = ''listMethods''"

section \<open>Errors, the object store, the RPC engine\<close>

text \<open>
  Every \<^verbatim>\<open>throw\<close> and every rejected promise is a value of \<open>Error\<close>:
  \<^item> \<open>UnexpectedValue\<close>: \<^verbatim>\<open>new Error(`Unexpected value: ...`)\<close> of \<^verbatim>\<open>_serialize\<close> and
    \<^verbatim>\<open>_deserialize\<close>;
  \<^item> \<open>FunctionNotFound id\<close>: \<^verbatim>\<open>new Error(`Function was not found - ID: ${id}`)\<close>;
  \<^item> \<open>RemoteError e\<close>: the promise of \<^verbatim>\<open>_jrpc.call\<close> rejected because the reply carried
    an \<^verbatim>\<open>error\<close> member;
  \<^item> \<open>TypeError\<close>: raised by the language itself (calling what is not a function, iterating
    what is not iterable, redefining a non-configurable property, writing to a sealed object);
  \<^item> \<open>Thrown e\<close>: whatever a local callback throws.
\<close>

datatype Error =
    UnexpectedValue
  | FunctionNotFound int
  | RemoteError string
  | TypeError
  | Thrown string

text \<open>
  A member of a proxy is a property as \<^verbatim>\<open>Object.defineProperty\<close> was given it.
  \<open>Accessor enumerable target name\<close> is the property with the descriptor
  \<^verbatim>\<open>{enumerable, get: this._createGetter(target, name), set: this._createSetter(target, name)}\<close>
  and \<open>Method enumerable target name\<close> the one with the descriptor
  \<^verbatim>\<open>{enumerable, value: this._createMethod(target, name)}\<close>: the closures close over the
  serialized target and the member's name, and the functions \<open>createGetter\<close>,
  \<open>createSetter\<close> and \<open>createMethod\<close> below are these closures applied. The attributes
  that the descriptors leave out, \<^verbatim>\<open>configurable\<close> and for a method \<^verbatim>\<open>writable\<close>, are false.
\<close>

datatype Member =
    Accessor bool int string
  | Method bool int string

fun enumerable :: "Member \<Rightarrow> bool" where
  "enumerable (Accessor e target name) = e"
| "enumerable (Method e target name) = e"

text \<open>
  An object of the store is one of four kinds:
  \<^item> a function, with its behaviour when applied (it returns a value or throws; a returned
    promise is taken at its outcome);
  \<^item> an ordinary object, one that inherits from \<^verbatim>\<open>Object.prototype\<close> (an object literal, a
    class instance, the \<^verbatim>\<open>{}\<close> of a proxy), with the members that the manager has defined on
    it, in definition order, and its sealed flag; what a caller's object holds besides is
    not in the store, and its conversion to a string is the one it inherits;
  \<^item> an object without a prototype (\<^verbatim>\<open>Object.create(null)\<close>): it is not an instance of
    \<^verbatim>\<open>Object\<close> and has no \<^verbatim>\<open>toString\<close>, so its conversion to a string throws a TypeError;
  \<^item> an object of another realm (another window, a \<^verbatim>\<open>vm\<close> context): it inherits from the
    \<^verbatim>\<open>Object.prototype\<close> of that realm, so it is not an instance of this realm's
    \<^verbatim>\<open>Object\<close>, and it is converted to a string by the \<^verbatim>\<open>toString\<close> it inherits.
\<close>

datatype Object =
    Function "SerializableValue list \<Rightarrow> Error + SerializableValue"
  | Object "(string \<times> Member) list" bool
  | NullPrototype
  | OtherRealm

datatype Request = Request string "SerializedValue list"

text \<open>
  A reply of the remote peer: a result that is a wire value, a result that is an array,
  taken to be an array of names (the describe calls), or an error.
\<close>

datatype Response =
    Result SerializedValue
  | Names "string list"
  | Failure string

text \<open>
  The manager's own fields come first, under the source's names. The rest is its
  surroundings: the object store (\<open>heap\<close>, a reference is an index into it); the engine
  \<^verbatim>\<open>_jrpc\<close> with the peer behind it, as the log \<open>sent\<close> of the requests handed to
  \<^verbatim>\<open>sendMessage\<close> and the reply \<open>remote n req\<close> that the peer gives to the \<open>n\<close>-th
  request \<open>req\<close> of the session; and the log \<open>invoked\<close> of the local functions applied, with
  their arguments.
\<close>

record RPCManager =
  lastScriptObjectId :: int
  scriptObjectIdMap :: "ref \<rightharpoonup> int"
  globalCallbacksMap :: "(string \<times> ref) list"
  scriptObjectListStack :: "ref list list"
  heap :: "Object list"
  sent :: "Request list"
  remote :: "nat \<Rightarrow> Request \<Rightarrow> Response"
  invoked :: "(ref \<times> SerializableValue list) list"

definition lookupObject :: "RPCManager \<Rightarrow> ref \<Rightarrow> Object option" where
  "lookupObject st r = (if r < length (heap st) then Some (heap st ! r) else None)"

text \<open>\<^verbatim>\<open>typeof x === 'function'\<close>\<close>

definition isFunction :: "RPCManager \<Rightarrow> ref \<Rightarrow> bool" where
  "isFunction st r = (case lookupObject st r of Some (Function f) \<Rightarrow> True | _ \<Rightarrow> False)"

text \<open>\<^verbatim>\<open>x instanceof Object\<close>: \<^verbatim>\<open>Object.prototype\<close> is on the prototype chain of \<^verbatim>\<open>x\<close>.\<close>

definition instanceOfObject :: "RPCManager \<Rightarrow> ref \<Rightarrow> bool" where
  "instanceOfObject st r =
     (case lookupObject st r of
        Some (Function f) \<Rightarrow> True
      | Some (Object members sealed) \<Rightarrow> True
      | _ \<Rightarrow> False)"

text \<open>
  \<^verbatim>\<open>new Error(`Unexpected value: ${value}`)\<close> for an object \<^verbatim>\<open>value\<close>: the template converts
  the object to a string first, and the conversion of an object without a prototype throws
  a TypeError, which is then what the \<^verbatim>\<open>throw\<close> statement ends with.
\<close>

definition unexpectedValue :: "RPCManager \<Rightarrow> ref \<Rightarrow> Error" where
  "unexpectedValue st r =
     (case lookupObject st r of
        Some NullPrototype \<Rightarrow> TypeError
      | _ \<Rightarrow> UnexpectedValue)"

text \<open>
  \<^verbatim>\<open>_jrpc.call(method, params)\<close>: the request is written to the stream at once; the promise
  returned stands for the reply that will come, and is that reply here. The caller's
  \<^verbatim>\<open>await\<close> is where the reply is looked at.
\<close>

definition jrpc_call :: "RPCManager \<Rightarrow> string \<Rightarrow> SerializedValue list \<Rightarrow> Response \<times> RPCManager" where
  "jrpc_call st method params =
     (let req = Request method params;
          st' = st\<lparr>sent := sent st @ [req]\<rparr>
      in (remote st (length (sent st')) req, st'))"

text \<open>
  Awaiting a reply that is then passed to \<^verbatim>\<open>_deserialize\<close>: an error rejects, and an array
  is a value that \<^verbatim>\<open>_deserialize\<close> does not expect.
\<close>

definition awaitValue :: "Response \<Rightarrow> Error + SerializedValue" where
  "awaitValue resp =
     (case resp of
        Result v \<Rightarrow> Inr v
      | Names ns \<Rightarrow> Inr SMalformed
      | Failure e \<Rightarrow> Inl (RemoteError e))"

text \<open>
  \<^verbatim>\<open>for (const name of reply)\<close>: an array gives its elements, a string its characters, and
  anything else is not iterable.
\<close>

definition iterate :: "Response \<Rightarrow> Error + string list" where
  "iterate reply =
     (case reply of
        Names ns \<Rightarrow> Inr ns
      | Result (SStr s) \<Rightarrow> Inr (map (\<lambda>c. [c]) s)
      | _ \<Rightarrow> Inl TypeError)"

section \<open>Identity registry\<close>

text \<open>
  \<^verbatim>\<open>
  private _assignScriptObjectId(object: SerializableObject): void {
    if (!this._scriptObjectIdMap.has(object)) {
      this._lastScriptObjectId += 1;
      this._scriptObjectIdMap.set(object, this._lastScriptObjectId);
    }
  }
  \<close>
\<close>

definition assignScriptObjectId :: "RPCManager \<Rightarrow> ref \<Rightarrow> RPCManager" where
  "assignScriptObjectId st object =
     (if scriptObjectIdMap st object = None
      then st\<lparr>lastScriptObjectId := lastScriptObjectId st + 1,
              scriptObjectIdMap := (scriptObjectIdMap st)(object \<mapsto> lastScriptObjectId st + 1)\<rparr>
      else st)"

text \<open>\<^verbatim>\<open>list.forEach((obj) => this._assignScriptObjectId(obj))\<close>\<close>

definition assignAll :: "RPCManager \<Rightarrow> ref list \<Rightarrow> RPCManager" where
  "assignAll st objects = foldl assignScriptObjectId st objects"

text \<open>
  The callbacks map is a plain object, \<^verbatim>\<open>Record<string, Function>\<close>: here the list of its
  own enumerable properties, name and value, in the order in which the caller created them
  (the order of an object literal). \<^verbatim>\<open>Object.values\<close> and \<^verbatim>\<open>Object.entries\<close> do not
  enumerate in that order: the language puts the names that are array indices first, in
  ascending numeric order, and then the other names in creation order. An array index is
  the canonical decimal form of an integer from 0 to \<open>2^32 - 2\<close>: digits only, no leading
  zero. \<open>arrayIndex\<close> gives that integer, \<open>Object_entries\<close> the entries as enumerated.
\<close>

definition isDigit :: "char \<Rightarrow> bool" where
  "isDigit c \<longleftrightarrow> c \<in> set ''0123456789''"

definition decimal :: "string \<Rightarrow> nat" where
  "decimal s = foldl (\<lambda>n c. 10 * n + (of_char c - 48)) 0 s"

definition arrayIndex :: "string \<Rightarrow> nat option" where
  "arrayIndex name =
     (if name \<noteq> [] \<and> list_all isDigit name \<and> (hd name \<noteq> CHR ''0'' \<or> length name = 1)
         \<and> decimal name < 4294967295
      then Some (decimal name) else None)"

definition indexOf :: "string \<times> 'a \<Rightarrow> nat" where
  "indexOf property = (case arrayIndex (fst property) of Some i \<Rightarrow> i | None \<Rightarrow> 0)"

definition Object_entries :: "(string \<times> 'a) list \<Rightarrow> (string \<times> 'a) list" where
  "Object_entries properties =
     sort_key indexOf (filter (\<lambda>property. arrayIndex (fst property) \<noteq> None) properties)
     @ filter (\<lambda>property. arrayIndex (fst property) = None) properties"

definition Object_values :: "(string \<times> 'a) list \<Rightarrow> 'a list" where
  "Object_values properties = map snd (Object_entries properties)"

text \<open>
  The constructor, for a callbacks map, in a store \<open>h\<close> and before a peer \<open>rem\<close>.
  \<^verbatim>\<open>
  constructor(globalCallbacksMap: Record<string, Function>) {
    this._lastScriptObjectId = API_VALUE_INVALID_SCRIPT_OBJECT;
    this._scriptObjectIdMap = new WeakMap();
    const globalCallbackFunctions = Object.values(globalCallbacksMap);
    globalCallbackFunctions.forEach((fn) => this._assignScriptObjectId(fn));
    this._globalCallbacksMap = globalCallbacksMap;
    this._scriptObjectListStack = [globalCallbackFunctions];
    ...
  }
  \<close>
\<close>

definition constructor :: "(string \<times> ref) list \<Rightarrow> Object list \<Rightarrow> (nat \<Rightarrow> Request \<Rightarrow> Response) \<Rightarrow> RPCManager" where
  "constructor globalCallbacks h rem =
     (let globalCallbackFunctions = Object_values globalCallbacks;
          st = \<lparr>lastScriptObjectId = API_VALUE_INVALID_SCRIPT_OBJECT,
                scriptObjectIdMap = Map.empty,
                globalCallbacksMap = [],
                scriptObjectListStack = [],
                heap = h, sent = [], remote = rem, invoked = []\<rparr>;
          st = assignAll st globalCallbackFunctions
      in st\<lparr>globalCallbacksMap := globalCallbacks,
            scriptObjectListStack := [globalCallbackFunctions]\<rparr>)"

text \<open>
  \<^verbatim>\<open>
  private _findScriptObject(scriptObjectId: number): SerializableObject | undefined {
    for (const scriptObjectList of this._scriptObjectListStack) {
      for (const scriptObject of scriptObjectList) {
        if (this._scriptObjectIdMap.get(scriptObject) === scriptObjectId) {
          return scriptObject;
        }
      }
    }
  }
  \<close>
\<close>

fun findInList :: "(ref \<rightharpoonup> int) \<Rightarrow> int \<Rightarrow> ref list \<Rightarrow> ref option" where
  "findInList m scriptObjectId [] = None"
| "findInList m scriptObjectId (scriptObject # rest) =
     (if m scriptObject = Some scriptObjectId then Some scriptObject
      else findInList m scriptObjectId rest)"

fun findInStack :: "(ref \<rightharpoonup> int) \<Rightarrow> int \<Rightarrow> ref list list \<Rightarrow> ref option" where
  "findInStack m scriptObjectId [] = None"
| "findInStack m scriptObjectId (scriptObjectList # rest) =
     (case findInList m scriptObjectId scriptObjectList of
        Some scriptObject \<Rightarrow> Some scriptObject
      | None \<Rightarrow> findInStack m scriptObjectId rest)"

definition findScriptObject :: "RPCManager \<Rightarrow> int \<Rightarrow> ref option" where
  "findScriptObject st scriptObjectId =
     findInStack (scriptObjectIdMap st) scriptObjectId (scriptObjectListStack st)"

section \<open>Value codec\<close>

text \<open>
  \<^verbatim>\<open>
  private _serialize(value: unknown): unknown {
    if (isPlainValueType(value)) { return value; }
    if (value === undefined) { return {type: API_VALUE_TYPE_EMPTY}; }
    let scriptObjectId;
    if (value === null) { scriptObjectId = API_VALUE_INVALID_SCRIPT_OBJECT; }
    else { scriptObjectId = this._scriptObjectIdMap.get(value); }
    if (scriptObjectId === undefined) { throw new Error(`Unexpected value: ${value}`); }
    return {type: API_VALUE_TYPE_SCRIPT_OBJECT, scriptObject: scriptObjectId};
  }
  \<close>
\<close>

fun serialize :: "RPCManager \<Rightarrow> SerializableValue \<Rightarrow> Error + SerializedValue" where
  "serialize st (VBool b) = Inr (SBool b)"
| "serialize st (VNum n) = Inr (SNum n)"
| "serialize st (VStr s) = Inr (SStr s)"
| "serialize st VUndefined = Inr SEmpty"
| "serialize st VNull = Inr (SScriptObject API_VALUE_INVALID_SCRIPT_OBJECT)"
| "serialize st (VObject r) =
     (case scriptObjectIdMap st r of
        None \<Rightarrow> Inl (unexpectedValue st r)
      | Some scriptObjectId \<Rightarrow> Inr (SScriptObject scriptObjectId))"

text \<open>\<^verbatim>\<open>args.map((arg) => this._serialize(arg))\<close>: the first throw ends the map.\<close>

fun serializeAll :: "RPCManager \<Rightarrow> SerializableValue list \<Rightarrow> Error + SerializedValue list" where
  "serializeAll st [] = Inr []"
| "serializeAll st (arg # args) =
     (case serialize st arg of
        Inl e \<Rightarrow> Inl e
      | Inr v \<Rightarrow> (case serializeAll st args of Inl e \<Rightarrow> Inl e | Inr vs \<Rightarrow> Inr (v # vs)))"


text \<open>
  \<^verbatim>\<open>_deserialize\<close> and \<^verbatim>\<open>_describeScriptObject\<close> are asynchronous: each runs up to its
  next \<^verbatim>\<open>await\<close> and goes on when the awaited reply is there. They are cut at their two
  \<^verbatim>\<open>await\<close>s into three parts, and a task records where a call stands and what it holds:
  the object under construction, the target handle, the reply with the properties, the
  awaited reply. An \<^verbatim>\<open>await\<close> throws when the reply carries an error. A reply that cannot
  be iterated over throws where its \<^verbatim>\<open>for\<close> loop begins, which is after both replies
  have come and the object has been put into the identity map. The promise of a describe
  that reaches its \<^verbatim>\<open>return\<close> is taken to be fulfilled with the sealed object; the language
  would first look for a member named \<^verbatim>\<open>then\<close> on it, and that lookup is not followed.

  \<^verbatim>\<open>
  private async _deserialize(value: SerializedValue): Promise<SerializableValue> {
    if (isPlainValueType(value)) { return value; }
    if (typeof value === 'object' && value !== null) {
      if (value.type === API_VALUE_TYPE_EMPTY) { return undefined; }
      if (value.type === API_VALUE_TYPE_SCRIPT_OBJECT) {
        return value.scriptObject === API_VALUE_INVALID_SCRIPT_OBJECT ? null : this._describeScriptObject(value);
      }
    }
    throw new Error(`Unexpected value: ${value}`);
  }

  private async _describeScriptObject(serializedTarget: SerializedScriptObject): Promise<SerializableObject> {
    const scriptObject = {};
    const properties = await this._jrpc.call(API_SERVER_METHOD_DESCRIBE_VARIABLES, [serializedTarget]);
    const methods = await this._jrpc.call(API_SERVER_METHOD_DESCRIBE_FUNCTIONS, [serializedTarget]);
    this._scriptObjectIdMap.set(scriptObject, serializedTarget.scriptObject);
    for (const property of properties) {
      Object.defineProperty(scriptObject, property, {
        enumerable: true,
        get: this._createGetter(serializedTarget, property),
        set: this._createSetter(serializedTarget, property),
      });
    }
    for (const method of methods) {
      Object.defineProperty(scriptObject, method, {
        enumerable: true,
        value: this._createMethod(serializedTarget, method),
      });
    }
    return Object.seal(scriptObject);
  }
  \<close>
\<close>

datatype DeserializeTask =
    Settled "Error + SerializableValue"
  | AwaitingVariables ref int Response

datatype DescribeTask =
    Finished "Error + SerializableValue"
  | AwaitingFunctions ref int Response Response

text \<open>
  \<^verbatim>\<open>Object.defineProperty\<close> with \<^verbatim>\<open>configurable\<close> left at its default \<^verbatim>\<open>false\<close>: a name that
  is already defined cannot be defined again with another getter or value, and the closures
  are new ones each time, so a second definition throws a TypeError.
\<close>

definition defineProperty :: "(string \<times> Member) list \<Rightarrow> string \<Rightarrow> Member \<Rightarrow> Error + (string \<times> Member) list" where
  "defineProperty members name member =
     (if name \<in> set (map fst members) then Inl TypeError
      else Inr (members @ [(name, member)]))"

text \<open>One \<^verbatim>\<open>for\<close> loop of definitions; it stops at the first throw, with what is defined so far.\<close>

fun defineProperties :: "(string \<times> Member) list \<Rightarrow> (string \<times> Member) list \<Rightarrow> Error option \<times> (string \<times> Member) list" where
  "defineProperties members [] = (None, members)"
| "defineProperties members ((name, member) # rest) =
     (case defineProperty members name member of
        Inl e \<Rightarrow> (Some e, members)
      | Inr members' \<Rightarrow> defineProperties members' rest)"

definition describeScriptObject_begin :: "RPCManager \<Rightarrow> int \<Rightarrow> DeserializeTask \<times> RPCManager" where
  "describeScriptObject_begin st target =
     (let scriptObject = length (heap st);
          st1 = st\<lparr>heap := heap st @ [Object [] False]\<rparr>;
          (reply, st2) = jrpc_call st1 API_SERVER_METHOD_DESCRIBE_VARIABLES [SScriptObject target]
      in (AwaitingVariables scriptObject target reply, st2))"

definition describeScriptObject_variables :: "RPCManager \<Rightarrow> ref \<Rightarrow> int \<Rightarrow> Response \<Rightarrow> DescribeTask \<times> RPCManager" where
  "describeScriptObject_variables st scriptObject target properties =
     (case properties of
        Failure e \<Rightarrow> (Finished (Inl (RemoteError e)), st)
      | _ \<Rightarrow>
          (let (methods, st1) = jrpc_call st API_SERVER_METHOD_DESCRIBE_FUNCTIONS [SScriptObject target]
           in (AwaitingFunctions scriptObject target properties methods, st1)))"

text \<open>The two \<^verbatim>\<open>for\<close> loops and the sealing, on the members of the new object.\<close>

definition defineMembers :: "int \<Rightarrow> Response \<Rightarrow> Response \<Rightarrow> Error option \<times> (string \<times> Member) list" where
  "defineMembers target properties methods =
     (case iterate properties of
        Inl e \<Rightarrow> (Some e, [])
      | Inr ps \<Rightarrow>
          (case defineProperties [] (map (\<lambda>property. (property, Accessor True target property)) ps) of
             (Some e, members) \<Rightarrow> (Some e, members)
           | (None, members) \<Rightarrow>
               (case iterate methods of
                  Inl e \<Rightarrow> (Some e, members)
                | Inr ms \<Rightarrow>
                    defineProperties members (map (\<lambda>method. (method, Method True target method)) ms))))"

definition describeScriptObject_functions :: "RPCManager \<Rightarrow> ref \<Rightarrow> int \<Rightarrow> Response \<Rightarrow> Response \<Rightarrow> (Error + SerializableValue) \<times> RPCManager" where
  "describeScriptObject_functions st scriptObject target properties methods =
     (case methods of
        Failure e \<Rightarrow> (Inl (RemoteError e), st)
      | _ \<Rightarrow>
          (let st1 = st\<lparr>scriptObjectIdMap := (scriptObjectIdMap st)(scriptObject \<mapsto> target)\<rparr>
           in case defineMembers target properties methods of
                (Some e, members) \<Rightarrow>
                  (Inl e, st1\<lparr>heap := (heap st1)[scriptObject := Object members False]\<rparr>)
              | (None, members) \<Rightarrow>
                  (Inr (VObject scriptObject),
                   st1\<lparr>heap := (heap st1)[scriptObject := Object members True]\<rparr>)))"

text \<open>The synchronous part of \<^verbatim>\<open>_deserialize\<close>, up to the first \<^verbatim>\<open>await\<close> of the describe.\<close>

fun deserialize_begin :: "RPCManager \<Rightarrow> SerializedValue \<Rightarrow> DeserializeTask \<times> RPCManager" where
  "deserialize_begin st (SBool b) = (Settled (Inr (VBool b)), st)"
| "deserialize_begin st (SNum n) = (Settled (Inr (VNum n)), st)"
| "deserialize_begin st (SStr s) = (Settled (Inr (VStr s)), st)"
| "deserialize_begin st SEmpty = (Settled (Inr VUndefined), st)"
| "deserialize_begin st (SScriptObject scriptObject) =
     (if scriptObject = API_VALUE_INVALID_SCRIPT_OBJECT then (Settled (Inr VNull), st)
      else describeScriptObject_begin st scriptObject)"
| "deserialize_begin st SMalformed = (Settled (Inl UnexpectedValue), st)"

text \<open>What the task does when the reply to \<^verbatim>\<open>listProperties\<close> has come.\<close>

fun deserialize_variables :: "RPCManager \<Rightarrow> DeserializeTask \<Rightarrow> DescribeTask \<times> RPCManager" where
  "deserialize_variables st (Settled r) = (Finished r, st)"
| "deserialize_variables st (AwaitingVariables scriptObject target reply) =
     describeScriptObject_variables st scriptObject target reply"

text \<open>What the task does when the reply to \<^verbatim>\<open>listMethods\<close> has come.\<close>

fun deserialize_functions :: "RPCManager \<Rightarrow> DescribeTask \<Rightarrow> (Error + SerializableValue) \<times> RPCManager" where
  "deserialize_functions st (Finished r) = (r, st)"
| "deserialize_functions st (AwaitingFunctions scriptObject target properties reply) =
     describeScriptObject_functions st scriptObject target properties reply"

text \<open>One \<^verbatim>\<open>await this._deserialize(value)\<close>: the three parts in a row.\<close>

definition deserialize :: "RPCManager \<Rightarrow> SerializedValue \<Rightarrow> (Error + SerializableValue) \<times> RPCManager" where
  "deserialize st v =
     (let (task1, st1) = deserialize_begin st v;
          (task2, st2) = deserialize_variables st1 task1
      in deserialize_functions st2 task2)"


section \<open>Accessors and methods of a proxy\<close>

text \<open>
  \<^verbatim>\<open>
  private _createGetter(serializedTarget, propertyName) {
    return async () => {
      const response = await this._jrpc.call(API_SERVER_METHOD_GET_VALUE, [serializedTarget, propertyName]);
      return this._deserialize(response);
    };
  }
  \<close>
  The functions below are the closures applied: \<open>createGetter st target name\<close> is a read of
  the property, from the request to the decoded reply.
\<close>

definition createGetter :: "RPCManager \<Rightarrow> int \<Rightarrow> string \<Rightarrow> (Error + SerializableValue) \<times> RPCManager" where
  "createGetter st target propertyName =
     (let (reply, st1) = jrpc_call st API_SERVER_METHOD_GET_VALUE [SScriptObject target, SStr propertyName]
      in case awaitValue reply of
           Inl e \<Rightarrow> (Inl e, st1)
         | Inr response \<Rightarrow> deserialize st1 response)"

text \<open>
  \<^verbatim>\<open>
  private _createSetter(serializedTarget, propertyName) {
    return async (value) => {
      await this._jrpc.call(API_SERVER_METHOD_SET_VALUE, [serializedTarget, propertyName, this._serialize(value)]);
    };
  }
  \<close>
\<close>

definition createSetter :: "RPCManager \<Rightarrow> int \<Rightarrow> string \<Rightarrow> SerializableValue \<Rightarrow> (Error + unit) \<times> RPCManager" where
  "createSetter st target propertyName v =
     (case serialize st v of
        Inl e \<Rightarrow> (Inl e, st)
      | Inr serialized \<Rightarrow>
          (let (reply, st1) = jrpc_call st API_SERVER_METHOD_SET_VALUE
                                [SScriptObject target, SStr propertyName, serialized]
           in case reply of
                Failure e \<Rightarrow> (Inl (RemoteError e), st1)
              | _ \<Rightarrow> (Inr (), st1)))"

text \<open>
  \<^verbatim>\<open>
  private async _callAPIMethod(serializedTarget, methodName, args) {
    const scriptObjectList = args.filter((arg) => arg instanceof Object) as SerializableObject[];
    scriptObjectList.forEach((obj) => this._assignScriptObjectId(obj));
    this._scriptObjectListStack.unshift(scriptObjectList);
    try {
      const response = await this._jrpc.call(API_SERVER_METHOD_CALL_FUNCTION, [
        serializedTarget, methodName, ...args.map((arg) => this._serialize(arg)),
      ]);
      return await this._deserialize(response);
    } finally {
      this._scriptObjectListStack.shift();
    }
  }
  \<close>
  \<^verbatim>\<open>args.filter((arg) => arg instanceof Object)\<close> keeps the functions and the ordinary
  objects among the arguments. A scalar, \<^verbatim>\<open>undefined\<close>, \<^verbatim>\<open>null\<close>, an object without a
  prototype and an object of another realm are left out: they get no handle here and are
  in no frame.
\<close>

fun objectArguments :: "RPCManager \<Rightarrow> SerializableValue list \<Rightarrow> ref list" where
  "objectArguments st [] = []"
| "objectArguments st (VObject r # args) =
     (if instanceOfObject st r then r # objectArguments st args else objectArguments st args)"
| "objectArguments st (arg # args) = objectArguments st args"

text \<open>
  The call is cut at its first \<^verbatim>\<open>await\<close>. \<open>callAPIMethod_send\<close> is what runs when the method
  is invoked: up to the request written to the stream, or up to the throw of a
  serialization, which the \<^verbatim>\<open>finally\<close> block follows. \<open>callAPIMethod_settle\<close> is what runs
  when the reply is there: the rejection or the decoding of the result, then the
  \<^verbatim>\<open>finally\<close> block. The second part holds nothing of the first but \<^verbatim>\<open>this\<close> and the
  awaited reply. \<^verbatim>\<open>shift()\<close> removes the first frame, and nothing when there is none.
\<close>

definition callAPIMethod_send :: "RPCManager \<Rightarrow> int \<Rightarrow> string \<Rightarrow> SerializableValue list \<Rightarrow> (Error + Response) \<times> RPCManager" where
  "callAPIMethod_send st target methodName args =
     (let scriptObjectList = objectArguments st args;
          st1 = assignAll st scriptObjectList;
          st2 = st1\<lparr>scriptObjectListStack := scriptObjectList # scriptObjectListStack st1\<rparr>
      in case serializeAll st2 args of
           Inl e \<Rightarrow> (Inl e, st2\<lparr>scriptObjectListStack := tl (scriptObjectListStack st2)\<rparr>)
         | Inr serializedArgs \<Rightarrow>
             (let (reply, st3) = jrpc_call st2 API_SERVER_METHOD_CALL_FUNCTION
                                   (SScriptObject target # SStr methodName # serializedArgs)
              in (Inr reply, st3)))"

definition callAPIMethod_settle :: "RPCManager \<Rightarrow> Response \<Rightarrow> (Error + SerializableValue) \<times> RPCManager" where
  "callAPIMethod_settle st reply =
     (let (r, st1) = (case awaitValue reply of
                        Inl e \<Rightarrow> (Inl e, st)
                      | Inr response \<Rightarrow> deserialize st response)
      in (r, st1\<lparr>scriptObjectListStack := tl (scriptObjectListStack st1)\<rparr>))"

text \<open>A call that nothing interleaves with: invoked, answered, settled.\<close>

definition callAPIMethod :: "RPCManager \<Rightarrow> int \<Rightarrow> string \<Rightarrow> SerializableValue list \<Rightarrow> (Error + SerializableValue) \<times> RPCManager" where
  "callAPIMethod st target methodName args =
     (case callAPIMethod_send st target methodName args of
        (Inl e, st1) \<Rightarrow> (Inl e, st1)
      | (Inr reply, st1) \<Rightarrow> callAPIMethod_settle st1 reply)"

text \<open>
  \<^verbatim>\<open>
  private _createMethod(serializedTarget, methodName) {
    return (...args) => {
      return this._callAPIMethod(serializedTarget, methodName, args);
    };
  }
  \<close>
\<close>

definition createMethod :: "RPCManager \<Rightarrow> int \<Rightarrow> string \<Rightarrow> SerializableValue list \<Rightarrow> (Error + SerializableValue) \<times> RPCManager" where
  "createMethod st target methodName args = callAPIMethod st target methodName args"

section \<open>Callback dispatcher\<close>

text \<open>A loop that threads the state through a list.\<close>

fun mapState :: "(RPCManager \<Rightarrow> 'a \<Rightarrow> 'b \<times> RPCManager) \<Rightarrow> RPCManager \<Rightarrow> 'a list \<Rightarrow> 'b list \<times> RPCManager" where
  "mapState f st [] = ([], st)"
| "mapState f st (x # xs) =
     (let (y, st1) = f st x;
          (ys, st2) = mapState f st1 xs
      in (y # ys, st2))"

text \<open>
  \<^verbatim>\<open>await Promise.all(args.map((arg) => this._deserialize(arg)))\<close>. The map starts every
  decoding in argument order, each up to its first \<^verbatim>\<open>await\<close>, so all the
  \<^verbatim>\<open>listProperties\<close> requests are sent first. The replies are taken in the order of the
  requests: every task sees its property names and sends \<^verbatim>\<open>listMethods\<close>, then every task
  sees its method names and builds its proxy. \<^verbatim>\<open>Promise.all\<close> rejects with the rejection
  that comes first in time, and the tasks that are still running run on.
\<close>

fun rejectedAtOnce :: "DeserializeTask list \<Rightarrow> Error option" where
  "rejectedAtOnce [] = None"
| "rejectedAtOnce (Settled (Inl e) # ts) = Some e"
| "rejectedAtOnce (t # ts) = rejectedAtOnce ts"

fun rejectedOnVariables :: "DescribeTask list \<Rightarrow> Error option" where
  "rejectedOnVariables [] = None"
| "rejectedOnVariables (Finished (Inl e) # ts) = Some e"
| "rejectedOnVariables (t # ts) = rejectedOnVariables ts"

fun fulfilled :: "(Error + 'a) list \<Rightarrow> Error + 'a list" where
  "fulfilled [] = Inr []"
| "fulfilled (Inl e # rs) = Inl e"
| "fulfilled (Inr v # rs) = (case fulfilled rs of Inl e \<Rightarrow> Inl e | Inr vs \<Rightarrow> Inr (v # vs))"

definition deserializeAll :: "RPCManager \<Rightarrow> SerializedValue list \<Rightarrow> (Error + SerializableValue list) \<times> RPCManager" where
  "deserializeAll st args =
     (let (tasks1, st1) = mapState deserialize_begin st args;
          (tasks2, st2) = mapState deserialize_variables st1 tasks1;
          (results, st3) = mapState deserialize_functions st2 tasks2
      in (case rejectedAtOnce tasks1 of
            Some e \<Rightarrow> Inl e
          | None \<Rightarrow> (case rejectedOnVariables tasks2 of
                       Some e \<Rightarrow> Inl e
                     | None \<Rightarrow> fulfilled results),
          st3))"

text \<open>
  \<^verbatim>\<open>
  private async _handleAPICallback(functionId: number, args: SerializedValue[]): Promise<void> {
    const callbackFunction = this._findScriptObject(functionId);
    if (typeof callbackFunction !== 'function') {
      throw new Error(`Function was not found - ID: ${functionId}`);
    }
    const functionArguments = await Promise.all(args.map((arg) => this._deserialize(arg)));
    await callbackFunction.apply(null, functionArguments);
  }
  \<close>
  The promise is a \<^verbatim>\<open>Promise<void>\<close>: it is fulfilled with no value, or rejected.
\<close>

definition handleAPICallback :: "RPCManager \<Rightarrow> int \<Rightarrow> SerializedValue list \<Rightarrow> (Error + unit) \<times> RPCManager" where
  "handleAPICallback st functionId args =
     (case findScriptObject st functionId of
        None \<Rightarrow> (Inl (FunctionNotFound functionId), st)
      | Some callbackFunction \<Rightarrow>
          (case lookupObject st callbackFunction of
             Some (Function f) \<Rightarrow>
               (case deserializeAll st args of
                  (Inl e, st1) \<Rightarrow> (Inl e, st1)
                | (Inr functionArguments, st1) \<Rightarrow>
                    (let st2 = st1\<lparr>invoked := invoked st1 @ [(callbackFunction, functionArguments)]\<rparr>
                     in case f functionArguments of
                          Inl e \<Rightarrow> (Inl e, st2)
                        | Inr returned \<Rightarrow> (Inr (), st2)))
           | _ \<Rightarrow> (Inl (FunctionNotFound functionId), st)))"

text \<open>
  The handler registered in the constructor under the method \<^verbatim>\<open>callback\<close>,
  \<^verbatim>\<open>(serializedTarget, ...serializedArgs) => this._handleAPICallback(serializedTarget.scriptObject, serializedArgs)\<close>,
  with what the engine makes of its promise. The engine is a dependency
  (\<^verbatim>\<open>simple-jsonrpc-js\<close>); the test-suite fixes what it does: a handler fulfilled with no
  value is answered \<^verbatim>\<open>result: true\<close> (tests \<^verbatim>\<open>executes global callbacks\<close> and
  \<^verbatim>\<open>calls non-global callbacks\<close>), a handler that rejects is answered with an error
  whose \<^verbatim>\<open>data\<close> is the message of the rejection (test \<^verbatim>\<open>forgets non-global callbacks\<close>).
\<close>

definition callbackReply :: "RPCManager \<Rightarrow> int \<Rightarrow> SerializedValue list \<Rightarrow> (Error + SerializedValue) \<times> RPCManager" where
  "callbackReply st serializedTarget serializedArgs =
     (case handleAPICallback st serializedTarget serializedArgs of
        (Inl e, st1) \<Rightarrow> (Inl e, st1)
      | (Inr u, st1) \<Rightarrow> (Inr (SBool True), st1))"

section \<open>Session\<close>

definition ownProperty :: "RPCManager \<Rightarrow> ref \<Rightarrow> string \<Rightarrow> Member option" where
  "ownProperty st r name =
     (case lookupObject st r of
        Some (Object members sealed) \<Rightarrow> map_of members name
      | _ \<Rightarrow> None)"

text \<open>
  \<^verbatim>\<open>apiRootObject.registerCallback(name, fn)\<close>, for whatever the decoded root value is: a
  scalar, \<^verbatim>\<open>undefined\<close>, \<^verbatim>\<open>null\<close> or a proxy. The property \<^verbatim>\<open>registerCallback\<close> is looked up
  and what is found is called. An own method of the proxy is called. An own accessor is
  read: its getter sends its request, and the promise it returns is not a function (what
  the getter does when its reply comes is not followed). In every other case the lookup
  throws (\<^verbatim>\<open>undefined\<close>, \<^verbatim>\<open>null\<close>) or gives \<^verbatim>\<open>undefined\<close>, since no built-in prototype has
  a property of that name, and the call throws a TypeError.
\<close>

definition registerCallback :: "RPCManager \<Rightarrow> SerializableValue \<Rightarrow> string \<Rightarrow> ref \<Rightarrow> (Error + SerializableValue) \<times> RPCManager" where
  "registerCallback st apiRootObject name fn =
     (case apiRootObject of
        VObject r \<Rightarrow>
          (case ownProperty st r ''registerCallback'' of
             Some (Method e target methodName) \<Rightarrow> createMethod st target methodName [VStr name, VObject fn]
           | Some (Accessor e target propertyName) \<Rightarrow>
               (Inl TypeError,
                snd (jrpc_call st API_SERVER_METHOD_GET_VALUE [SScriptObject target, SStr propertyName]))
           | None \<Rightarrow> (Inl TypeError, st))
      | _ \<Rightarrow> (Inl TypeError, st))"

text \<open>
  \<^verbatim>\<open>
  async initialize(token: string): Promise<T> {
    await this._jrpc.call(API_SERVER_METHOD_AUTHENTICATE, [token]);
    const response = await this._jrpc.call(API_SERVER_METHOD_GET_ROOT_OBJECT);
    const apiRootObject = await this._deserialize(response);
    for (const [name, fn] of Object.entries(this._globalCallbacksMap)) {
      await (apiRootObject as {...}).registerCallback(name, fn);
    }
    return apiRootObject as T;
  }
  \<close>
\<close>

fun registerCallbacks :: "RPCManager \<Rightarrow> SerializableValue \<Rightarrow> (string \<times> ref) list \<Rightarrow> Error option \<times> RPCManager" where
  "registerCallbacks st apiRootObject [] = (None, st)"
| "registerCallbacks st apiRootObject ((name, fn) # rest) =
     (case registerCallback st apiRootObject name fn of
        (Inl e, st1) \<Rightarrow> (Some e, st1)
      | (Inr v, st1) \<Rightarrow> registerCallbacks st1 apiRootObject rest)"

definition initialize :: "RPCManager \<Rightarrow> string \<Rightarrow> (Error + SerializableValue) \<times> RPCManager" where
  "initialize st token =
     (let (reply1, st1) = jrpc_call st API_SERVER_METHOD_AUTHENTICATE [SStr token]
      in case reply1 of
           Failure e \<Rightarrow> (Inl (RemoteError e), st1)
         | _ \<Rightarrow>
           (let (reply2, st2) = jrpc_call st1 API_SERVER_METHOD_GET_ROOT_OBJECT []
            in case awaitValue reply2 of
                 Inl e \<Rightarrow> (Inl e, st2)
               | Inr response \<Rightarrow>
                   (case deserialize st2 response of
                      (Inl e, st3) \<Rightarrow> (Inl e, st3)
                    | (Inr apiRootObject, st3) \<Rightarrow>
                        (case registerCallbacks st3 apiRootObject (Object_entries (globalCallbacksMap st3)) of
                           (Some e, st4) \<Rightarrow> (Inl e, st4)
                         | (None, st4) \<Rightarrow> (Inr apiRootObject, st4)))))"


section \<open>Sessions\<close>

text \<open>
  One step of a session: a method call is invoked with objects of the store among its
  arguments, a pending method call is settled by a reply, a property is read or written, an
  inbound callback is dispatched, the session is initialized, or the caller creates an
  object or a function. The states of a session are those reached from the constructor,
  given callbacks that are in the store.
\<close>

inductive step :: "RPCManager \<Rightarrow> RPCManager \<Rightarrow> bool" where
  invoke: "\<forall>r. VObject r \<in> set args \<longrightarrow> r < length (heap st) \<Longrightarrow>
           step st (snd (callAPIMethod_send st target methodName args))"
| settle: "step st (snd (callAPIMethod_settle st reply))"
| getter: "step st (snd (createGetter st target propertyName))"
| setter: "step st (snd (createSetter st target propertyName v))"
| callback: "step st (snd (handleAPICallback st functionId args))"
| session: "step st (snd (initialize st token))"
| create: "step st (st\<lparr>heap := heap st @ [obj]\<rparr>)"

inductive reachable :: "RPCManager \<Rightarrow> bool" where
  start: "\<forall>r \<in> set (map snd globalCallbacks). r < length h \<Longrightarrow>
          reachable (constructor globalCallbacks h rem)"
| later: "reachable st \<Longrightarrow> step st st' \<Longrightarrow> reachable st'"


section \<open>Notions used in the proofs\<close>

text \<open>
  No reference has the invalid handle, and the counter has not gone below its start.
\<close>

definition handlesValid :: "RPCManager \<Rightarrow> bool" where
  "handlesValid st \<longleftrightarrow>
     API_VALUE_INVALID_SCRIPT_OBJECT \<le> lastScriptObjectId st
     \<and> (\<forall>r h. scriptObjectIdMap st r = Some h \<longrightarrow> h \<noteq> API_VALUE_INVALID_SCRIPT_OBJECT)"

text \<open>Every reference in a frame is an object of the store.\<close>

definition framesLive :: "RPCManager \<Rightarrow> bool" where
  "framesLive st \<longleftrightarrow> (\<forall>r \<in> set (concat (scriptObjectListStack st)). r < length (heap st))"

text \<open>
  What every operation leaves as it is, for the objects below \<open>n\<close>: the store only grows
  and keeps those objects, the counter does not decrease, a handle once given stays, the
  log of requests is only appended to, the peer and the callbacks map are the same, and
  valid handles stay valid.
\<close>

definition keeps :: "nat \<Rightarrow> RPCManager \<Rightarrow> RPCManager \<Rightarrow> bool" where
  "keeps n st st' \<longleftrightarrow>
     length (heap st) \<le> length (heap st')
     \<and> lastScriptObjectId st \<le> lastScriptObjectId st'
     \<and> (\<forall>r<n. r < length (heap st) \<longrightarrow> heap st' ! r = heap st ! r)
     \<and> (\<forall>r<n. \<forall>h. scriptObjectIdMap st r = Some h \<longrightarrow> scriptObjectIdMap st' r = Some h)
     \<and> (\<exists>more. sent st' = sent st @ more)
     \<and> remote st' = remote st
     \<and> globalCallbacksMap st' = globalCallbacksMap st
     \<and> (handlesValid st \<longrightarrow> handlesValid st')"

text \<open>A pending describe builds an object that is not below \<open>n\<close>, for a valid handle.\<close>

fun task1_ok :: "nat \<Rightarrow> DeserializeTask \<Rightarrow> bool" where
  "task1_ok n (Settled r) = True"
| "task1_ok n (AwaitingVariables obj h reply) = (n \<le> obj \<and> h \<noteq> API_VALUE_INVALID_SCRIPT_OBJECT)"

fun task2_ok :: "nat \<Rightarrow> DescribeTask \<Rightarrow> bool" where
  "task2_ok n (Finished r) = True"
| "task2_ok n (AwaitingFunctions obj h ps reply) = (n \<le> obj \<and> h \<noteq> API_VALUE_INVALID_SCRIPT_OBJECT)"


section \<open>A small session to evaluate on\<close>

text \<open>
  A store with two functions, which both return 42, and a plain object; a peer that answers
  as the one of the test-suite does, with a root object 123 that has a property \<^verbatim>\<open>n\<close> and
  the methods \<^verbatim>\<open>registerCallback\<close> and \<^verbatim>\<open>foo\<close>; and a peer that refuses everything.
\<close>

definition exampleFunction :: "SerializableValue list \<Rightarrow> Error + SerializableValue" where
  "exampleFunction args = Inr (VNum 42)"

definition exampleStore :: "Object list" where
  "exampleStore = [Function exampleFunction, Function exampleFunction, Object [] False]"

fun examplePeer :: "nat \<Rightarrow> Request \<Rightarrow> Response" where
  "examplePeer n (Request method params) =
     (if method = ''getRootObject'' then Result (SScriptObject 123)
      else if method = ''listProperties'' then Names [''n'']
      else if method = ''listMethods'' then Names [''registerCallback'', ''foo'']
      else if method = ''get'' then Result (SNum 7)
      else Result (SBool True))"

definition refusingPeer :: "nat \<Rightarrow> Request \<Rightarrow> Response" where
  "refusingPeer n req = Failure ''Access denied.''"

text \<open>A manager without global callbacks, and one with the callbacks \<^verbatim>\<open>{a: f0, b: f1}\<close>.\<close>

definition plainManager :: RPCManager where
  "plainManager = constructor [] exampleStore examplePeer"

definition exampleManager :: RPCManager where
  "exampleManager = constructor [(''a'', 0), (''b'', 1)] exampleStore examplePeer"

text \<open>
  A manager whose callbacks map was written \<^verbatim>\<open>{b: f1, '1': f0}\<close>, and that manager
  initialized.
\<close>

definition indexedManager :: RPCManager where
  "indexedManager = constructor [(''b'', 1), (''1'', 0)] exampleStore examplePeer"

definition indexedInitialized :: RPCManager where
  "indexedInitialized = snd (initialize indexedManager ''token'')"

text \<open>
  A manager in a store with an object without a prototype and an object of another realm.
\<close>

definition exoticManager :: RPCManager where
  "exoticManager = constructor [] [NullPrototype, OtherRealm] examplePeer"

text \<open>\<^verbatim>\<open>foo(f0)\<close> has been invoked on the object 123 and is pending.\<close>

definition firstPending :: RPCManager where
  "firstPending = snd (callAPIMethod_send plainManager 123 ''foo'' [VObject 0])"

text \<open>\<^verbatim>\<open>foo(f0)\<close> has been invoked and has settled.\<close>

definition firstForgotten :: RPCManager where
  "firstForgotten = snd (callAPIMethod plainManager 123 ''foo'' [VObject 0])"

text \<open>\<^verbatim>\<open>foo(f1)\<close> has been invoked while \<^verbatim>\<open>foo(f0)\<close> is pending.\<close>

definition bothPending :: RPCManager where
  "bothPending = snd (callAPIMethod_send firstPending 123 ''foo'' [VObject 1])"

text \<open>Then the reply to the first call has come, and the second call is still pending.\<close>

definition firstSettled :: RPCManager where
  "firstSettled = snd (callAPIMethod_settle bothPending (Result (SBool True)))"

text \<open>\<^verbatim>\<open>foo(o)\<close> for the plain object \<open>o\<close> of the store has been invoked and is pending.\<close>

definition objectPending :: RPCManager where
  "objectPending = snd (callAPIMethod_send plainManager 123 ''foo'' [VObject 2])"


text \<open>The members of a proxy for \<open>target\<close> with the properties and methods named.\<close>

definition proxyMembers :: "int \<Rightarrow> string list \<Rightarrow> string list \<Rightarrow> (string \<times> Member) list" where
  "proxyMembers target properties methods =
     map (\<lambda>property. (property, Accessor True target property)) properties
     @ map (\<lambda>method. (method, Method True target method)) methods"

text \<open>The names of the own enumerable members of an object, in definition order.\<close>

definition enumerableNames :: "RPCManager \<Rightarrow> ref \<Rightarrow> string list" where
  "enumerableNames st r =
     (case lookupObject st r of
        Some (Object members sealed) \<Rightarrow> map fst (filter (\<lambda>(name, member). enumerable member) members)
      | _ \<Rightarrow> [])"

text \<open>
  The decoding of a wire value that needs no describe call: what \<^verbatim>\<open>_deserialize\<close> returns
  or throws at once.
\<close>

fun immediate :: "SerializedValue \<Rightarrow> Error + SerializableValue" where
  "immediate (SBool b) = Inr (VBool b)"
| "immediate (SNum n) = Inr (VNum n)"
| "immediate (SStr s) = Inr (VStr s)"
| "immediate SEmpty = Inr VUndefined"
| "immediate (SScriptObject h) = Inr VNull"
| "immediate SMalformed = Inl UnexpectedValue"

text \<open>
  \<open>decoded st a v\<close>: in the state \<open>st\<close>, the local value \<open>v\<close> is a decoding of the wire value
  \<open>a\<close>: the same scalar, the absence value for the empty marker, null for the invalid
  handle, and for another handle a sealed object of the store that the identity map holds
  under that handle.
\<close>

fun decoded :: "RPCManager \<Rightarrow> SerializedValue \<Rightarrow> SerializableValue \<Rightarrow> bool" where
  "decoded st (SScriptObject h) v =
     (if h = API_VALUE_INVALID_SCRIPT_OBJECT then v = VNull
      else (case v of
              VObject proxy \<Rightarrow>
                scriptObjectIdMap st proxy = Some h
                \<and> (case lookupObject st proxy of Some (Object members sealed) \<Rightarrow> sealed | _ \<Rightarrow> False)
            | _ \<Rightarrow> False))"
| "decoded st a v = (immediate a = Inr v)"

text \<open>The objects that pending tasks are building.\<close>

fun task1_refs :: "DeserializeTask \<Rightarrow> ref list" where
  "task1_refs (Settled r) = []"
| "task1_refs (AwaitingVariables obj h reply) = [obj]"

fun task2_refs :: "DescribeTask \<Rightarrow> ref list" where
  "task2_refs (Finished r) = []"
| "task2_refs (AwaitingFunctions obj h ps reply) = [obj]"

text \<open>How a task stands to the value it decodes, after each of the three parts.\<close>

fun begun :: "SerializedValue \<Rightarrow> DeserializeTask \<Rightarrow> bool" where
  "begun a (Settled r) = (r = immediate a \<and> (\<forall>h. a = SScriptObject h \<longrightarrow> h = API_VALUE_INVALID_SCRIPT_OBJECT))"
| "begun a (AwaitingVariables obj h reply) = (a = SScriptObject h \<and> h \<noteq> API_VALUE_INVALID_SCRIPT_OBJECT)"

fun described :: "SerializedValue \<Rightarrow> DescribeTask \<Rightarrow> bool" where
  "described a (Finished r) =
     (case r of
        Inl e \<Rightarrow> True
      | Inr v \<Rightarrow> r = immediate a \<and> (\<forall>h. a = SScriptObject h \<longrightarrow> h = API_VALUE_INVALID_SCRIPT_OBJECT))"
| "described a (AwaitingFunctions obj h ps reply) = (a = SScriptObject h \<and> h \<noteq> API_VALUE_INVALID_SCRIPT_OBJECT)"

text \<open>What the third part of a task has made of the value it decodes.\<close>

fun built :: "RPCManager \<Rightarrow> SerializedValue \<Rightarrow> Error + SerializableValue \<Rightarrow> bool" where
  "built st a (Inl e) = True"
| "built st a (Inr v) = decoded st a v"

text \<open>The root object has been decoded from its handle, as \<^verbatim>\<open>initialize\<close> does first.\<close>

definition rootDecoded :: RPCManager where
  "rootDecoded = snd (deserialize plainManager (SScriptObject 123))"

text \<open>
  The request number \<open>Suc n\<close> of the log was not answered with an error. \<open>inOrder ok st st'\<close>:
  from \<open>st\<close> to \<open>st'\<close> the log has been appended to, before the same peer, and every
  request added was not answered with an error, but for the last one when \<open>ok\<close> does not
  hold.
\<close>

definition answered :: "RPCManager \<Rightarrow> nat \<Rightarrow> bool" where
  "answered st n \<longleftrightarrow> (\<forall>e. remote st (Suc n) (sent st ! n) \<noteq> Failure e)"

definition inOrder :: "bool \<Rightarrow> RPCManager \<Rightarrow> RPCManager \<Rightarrow> bool" where
  "inOrder ok st st' \<longleftrightarrow>
     (\<exists>more. sent st' = sent st @ more)
     \<and> remote st' = remote st
     \<and> (\<forall>n. length (sent st) \<le> n \<and> n < length (sent st') \<and> (ok \<or> Suc n < length (sent st'))
            \<longrightarrow> answered st' n)"

text \<open>The \<^verbatim>\<open>execute\<close> requests that have been added to the log from \<open>st\<close> to \<open>st'\<close>.\<close>

fun isExecute :: "Request \<Rightarrow> bool" where
  "isExecute (Request method params) = (method = API_SERVER_METHOD_CALL_FUNCTION)"

definition executes :: "RPCManager \<Rightarrow> RPCManager \<Rightarrow> Request list" where
  "executes st st' = filter isExecute (drop (length (sent st)) (sent st'))"

text \<open>
  The request that registers the callback \<open>fn\<close> under \<open>name\<close> at the object with the handle
  \<open>root\<close>, for the handle that \<open>fn\<close> has in the state \<open>st\<close>.
\<close>

fun registers :: "int \<Rightarrow> RPCManager \<Rightarrow> string \<times> ref \<Rightarrow> Request \<Rightarrow> bool" where
  "registers root st (name, fn) req =
     (case scriptObjectIdMap st fn of
        None \<Rightarrow> False
      | Some h \<Rightarrow> req = Request ''execute''
                        [SScriptObject root, SStr ''registerCallback'', SStr name, SScriptObject h])"

section \<open>Properties\<close>

lemmas example_defs =
  plainManager_def exampleManager_def firstPending_def firstForgotten_def bothPending_def
  firstSettled_def objectPending_def exampleStore_def constructor_def assignAll_def
  assignScriptObjectId_def callAPIMethod_def callAPIMethod_send_def callAPIMethod_settle_def
  jrpc_call_def awaitValue_def deserialize_def API_VALUE_INVALID_SCRIPT_OBJECT_def
  API_SERVER_METHOD_CALL_FUNCTION_def Let_def
  Object_values_def Object_entries_def arrayIndex_def indexOf_def isDigit_def decimal_def
  instanceOfObject_def lookupObject_def

subsection \<open>Resolving a handle\<close>

lemma findInList_None: "findInList m h rs = None \<longleftrightarrow> (\<forall>r \<in> set rs. m r \<noteq> Some h)"
  by (induction rs) auto

lemma findInList_Some: "findInList m h rs = Some r \<Longrightarrow> r \<in> set rs \<and> m r = Some h"
  by (induction rs) (auto split: if_splits)

lemma findInStack_None:
  "findInStack m h stack = None \<longleftrightarrow> (\<forall>r \<in> set (concat stack). m r \<noteq> Some h)"
  by (induction stack) (auto simp: findInList_None split: option.splits dest: findInList_Some)

lemma findInStack_Some:
  "findInStack m h stack = Some r \<Longrightarrow> r \<in> set (concat stack) \<and> m r = Some h"
  by (induction stack) (auto split: option.splits dest: findInList_Some)

text \<open>
  C2. An inbound callback whose handle is the handle of no reference in the pushed frames,
  or is resolved to a reference that is not a function, is answered with the error that
  names the handle, and nothing else happens: the state is the one before, so no function
  was applied and nothing was sent.
\<close>

theorem callback_unresolved_replies_error:
  assumes "(\<forall>r \<in> set (concat (scriptObjectListStack st)). scriptObjectIdMap st r \<noteq> Some functionId)
           \<or> (\<exists>r. findScriptObject st functionId = Some r \<and> \<not> isFunction st r)"
  shows "callbackReply st functionId args = (Inl (FunctionNotFound functionId), st)
         \<and> invoked (snd (callbackReply st functionId args)) = invoked st"
proof -
  from assms consider (none) "findScriptObject st functionId = None"
    | (some) r where "findScriptObject st functionId = Some r" "\<not> isFunction st r"
    by (auto simp: findScriptObject_def findInStack_None)
  then have "handleAPICallback st functionId args = (Inl (FunctionNotFound functionId), st)"
  proof cases
    case none
    then show ?thesis by (simp add: handleAPICallback_def)
  next
    case some
    then show ?thesis
      by (auto simp: handleAPICallback_def isFunction_def split: option.splits Object.splits)
  qed
  then show ?thesis by (simp add: callbackReply_def)
qed

theorem callback_unresolved_replies_error_witness:
  "callbackReply firstForgotten 1 [SNum 5] = (Inl (FunctionNotFound 1), firstForgotten)
   \<and> callbackReply objectPending 1 [] = (Inl (FunctionNotFound 1), objectPending)"
proof -
  have a: "\<forall>r \<in> set (concat (scriptObjectListStack firstForgotten)).
             scriptObjectIdMap firstForgotten r \<noteq> Some 1"
    by (simp add: example_defs)
  have b: "\<exists>r. findScriptObject objectPending 1 = Some r \<and> \<not> isFunction objectPending r"
    by (simp add: example_defs findScriptObject_def isFunction_def lookupObject_def)
  show ?thesis
    using callback_unresolved_replies_error [of firstForgotten 1 "[SNum 5]"] a
      callback_unresolved_replies_error [of objectPending 1 "[]"] b
    by blast
qed

subsection \<open>The codec\<close>

text \<open>
  C5. The absence value is serialized to the empty marker and the empty marker is
  deserialized to the absence value; null is serialized to the invalid handle, which is 0,
  and the invalid handle is deserialized to null; booleans, numbers and strings are the
  same on both sides, in both directions. Deserializing any of these leaves the state as
  it is.
\<close>

theorem codec_round_trip:
  "serialize st VUndefined = Inr SEmpty
   \<and> deserialize st SEmpty = (Inr VUndefined, st)
   \<and> serialize st VNull = Inr (SScriptObject API_VALUE_INVALID_SCRIPT_OBJECT)
   \<and> API_VALUE_INVALID_SCRIPT_OBJECT = 0
   \<and> deserialize st (SScriptObject API_VALUE_INVALID_SCRIPT_OBJECT) = (Inr VNull, st)
   \<and> serialize st (VBool b) = Inr (SBool b) \<and> deserialize st (SBool b) = (Inr (VBool b), st)
   \<and> serialize st (VNum n) = Inr (SNum n) \<and> deserialize st (SNum n) = (Inr (VNum n), st)
   \<and> serialize st (VStr s) = Inr (SStr s) \<and> deserialize st (SStr s) = (Inr (VStr s), st)"
  by (simp add: deserialize_def API_VALUE_INVALID_SCRIPT_OBJECT_def)

text \<open>
  C4, as the claim states it, fails: the function \<open>f0\<close> was an argument of a call that has
  settled, so it has the handle 1 and no frame holds it, and it is serialized all the
  same and the write that carries it is sent.
\<close>

theorem serialize_unreachable_counterexample:
  "0 \<notin> set (concat (scriptObjectListStack firstForgotten))
   \<and> serialize firstForgotten (VObject 0) = Inr (SScriptObject 1)
   \<and> createSetter firstForgotten 123 ''n'' (VObject 0)
       = (Inr (), firstForgotten\<lparr>sent := sent firstForgotten
                                    @ [Request ''set'' [SScriptObject 123, SStr ''n'', SScriptObject 1]]\<rparr>)"
  by (simp add: example_defs createSetter_def API_SERVER_METHOD_SET_VALUE_def)

subsection \<open>Initialization\<close>

text \<open>
  C8. When the reply to \<^verbatim>\<open>authenticate\<close> carries an error, \<^verbatim>\<open>initialize\<close> fails with
  that error and the only request it has sent is \<^verbatim>\<open>authenticate\<close>: no
  \<^verbatim>\<open>getRootObject\<close> and nothing else follows.
\<close>

theorem initialize_stops_at_refused_authenticate:
  assumes "remote st (Suc (length (sent st))) (Request ''authenticate'' [SStr token]) = Failure e"
  shows "initialize st token
         = (Inl (RemoteError e), st\<lparr>sent := sent st @ [Request ''authenticate'' [SStr token]]\<rparr>)"
  using assms
  by (simp add: initialize_def jrpc_call_def API_SERVER_METHOD_AUTHENTICATE_def Let_def)

theorem initialize_stops_at_refused_authenticate_witness:
  "initialize (constructor [(''a'', 0)] exampleStore refusingPeer) ''invalid token''
   = (Inl (RemoteError ''Access denied.''),
      (constructor [(''a'', 0)] exampleStore refusingPeer)
        \<lparr>sent := [Request ''authenticate'' [SStr ''invalid token'']]\<rparr>)"
proof -
  have a: "remote (constructor [(''a'', 0)] exampleStore refusingPeer)
             (Suc (length (sent (constructor [(''a'', 0)] exampleStore refusingPeer))))
             (Request ''authenticate'' [SStr ''invalid token'']) = Failure ''Access denied.''"
    by (simp add: constructor_def assignAll_def assignScriptObjectId_def refusingPeer_def Let_def
        Object_values_def Object_entries_def arrayIndex_def isDigit_def)
  have b: "sent (constructor [(''a'', 0)] exampleStore refusingPeer) = []"
    by (simp add: constructor_def assignAll_def assignScriptObjectId_def Let_def
        Object_values_def Object_entries_def arrayIndex_def isDigit_def)
  show ?thesis
    using initialize_stops_at_refused_authenticate [OF a] b by simp
qed


subsection \<open>What the operations keep\<close>

lemma keeps_refl: "keeps n st st"
  by (simp add: keeps_def)

lemma keeps_trans: "keeps n st st1 \<Longrightarrow> keeps n st1 st2 \<Longrightarrow> keeps n st st2"
  unfolding keeps_def by (intro conjI allI impI; force)

lemma keeps_mono: "keeps n st st' \<Longrightarrow> m \<le> n \<Longrightarrow> keeps m st st'"
  unfolding keeps_def by auto

lemma keeps_length: "keeps n st st' \<Longrightarrow> length (heap st) \<le> length (heap st')"
  by (simp add: keeps_def)

lemma keeps_assign: "keeps n st (assignScriptObjectId st r)"
  by (auto simp: keeps_def assignScriptObjectId_def handlesValid_def API_VALUE_INVALID_SCRIPT_OBJECT_def)

lemma keeps_assignAll: "keeps n st (assignAll st rs)"
  unfolding assignAll_def
proof (induction rs arbitrary: st)
  case Nil
  show ?case by (simp add: keeps_refl)
next
  case (Cons r rs)
  show ?case using keeps_trans[OF keeps_assign Cons] by simp
qed

lemma keeps_jrpc_call: "keeps n st (snd (jrpc_call st m ps))"
  by (simp add: keeps_def jrpc_call_def Let_def handlesValid_def)

lemma keeps_stack: "keeps n st (st\<lparr>scriptObjectListStack := s\<rparr>)"
  by (simp add: keeps_def handlesValid_def)

lemma keeps_invoked: "keeps n st (st\<lparr>invoked := s\<rparr>)"
  by (simp add: keeps_def handlesValid_def)

lemma keeps_create: "keeps n st (st\<lparr>heap := heap st @ [obj]\<rparr>)"
  by (simp add: keeps_def nth_append handlesValid_def)

lemma variables_cases:
  assumes "describeScriptObject_variables st obj target properties = (t, st1)"
  obtains (failed) e where "properties = Failure e" "t = Finished (Inl (RemoteError e))" "st1 = st"
  | (sent) "\<forall>e. properties \<noteq> Failure e"
      "t = AwaitingFunctions obj target properties
             (remote st (Suc (length (sent st))) (Request ''listMethods'' [SScriptObject target]))"
      "st1 = st\<lparr>sent := sent st @ [Request ''listMethods'' [SScriptObject target]]\<rparr>"
  using assms
  by (cases properties)
    (auto simp: describeScriptObject_variables_def jrpc_call_def Let_def
      API_SERVER_METHOD_DESCRIBE_FUNCTIONS_def)

lemma functions_cases:
  assumes "describeScriptObject_functions st obj target properties methods = (r, st1)"
  obtains (failed) e where "methods = Failure e" "r = Inl (RemoteError e)" "st1 = st"
  | (thrown) e members where "\<forall>e. methods \<noteq> Failure e"
      "defineMembers target properties methods = (Some e, members)" "r = Inl e"
      "st1 = st\<lparr>scriptObjectIdMap := (scriptObjectIdMap st)(obj \<mapsto> target),
                 heap := (heap st)[obj := Object members False]\<rparr>"
  | (sealed) members where "\<forall>e. methods \<noteq> Failure e"
      "defineMembers target properties methods = (None, members)" "r = Inr (VObject obj)"
      "st1 = st\<lparr>scriptObjectIdMap := (scriptObjectIdMap st)(obj \<mapsto> target),
                 heap := (heap st)[obj := Object members True]\<rparr>"
proof -
  obtain err members where d: "defineMembers target properties methods = (err, members)" by force
  show thesis
  proof (cases "\<exists>e. methods = Failure e")
    case True
    then obtain e where "methods = Failure e" by blast
    with assms show thesis by (intro failed[of e]) (simp_all add: describeScriptObject_functions_def)
  next
    case False
    then have u: "describeScriptObject_functions st obj target properties methods =
        (case defineMembers target properties methods of
           (Some e, members) \<Rightarrow>
             (Inl e, st\<lparr>scriptObjectIdMap := (scriptObjectIdMap st)(obj \<mapsto> target),
                       heap := (heap st)[obj := Object members False]\<rparr>)
         | (None, members) \<Rightarrow>
             (Inr (VObject obj), st\<lparr>scriptObjectIdMap := (scriptObjectIdMap st)(obj \<mapsto> target),
                       heap := (heap st)[obj := Object members True]\<rparr>))"
      by (cases methods)
        (simp_all add: describeScriptObject_functions_def Let_def split: prod.splits option.splits)
    show thesis
    proof (cases err)
      case None
      with u d assms False show thesis by (intro sealed[of members]) auto
    next
      case (Some e)
      with u d assms False show thesis by (intro thrown[of e members]) auto
    qed
  qed
qed

lemma begin_keeps:
  "n \<le> length (heap st) \<Longrightarrow> keeps n st (snd (deserialize_begin st v)) \<and> task1_ok n (fst (deserialize_begin st v))"
  by (cases v) (auto simp: describeScriptObject_begin_def jrpc_call_def Let_def keeps_def nth_append handlesValid_def)

lemma variables_keeps:
  assumes "task1_ok n t"
  shows "keeps n st (snd (deserialize_variables st t)) \<and> task2_ok n (fst (deserialize_variables st t))"
proof (cases t)
  case (Settled r)
  then show ?thesis by (simp add: keeps_refl)
next
  case (AwaitingVariables obj h reply)
  obtain t' st1 where d: "describeScriptObject_variables st obj h reply = (t', st1)" by force
  from d have "keeps n st st1 \<and> task2_ok n t'"
    using AwaitingVariables assms
    by (cases rule: variables_cases) (auto simp: keeps_def handlesValid_def)
  then show ?thesis by (simp add: AwaitingVariables d)
qed

lemma functions_keeps:
  assumes "task2_ok n t"
  shows "keeps n st (snd (deserialize_functions st t))"
proof (cases t)
  case (Finished r)
  then show ?thesis by (simp add: keeps_refl)
next
  case (AwaitingFunctions obj h ps reply)
  obtain r st1 where d: "describeScriptObject_functions st obj h ps reply = (r, st1)" by force
  from d have "keeps n st st1"
    using AwaitingFunctions assms
    by (cases rule: functions_cases) (auto simp: keeps_def handlesValid_def)
  then show ?thesis by (simp add: AwaitingFunctions d)
qed


lemma mapState_keeps:
  assumes "\<And>st x. P st \<Longrightarrow> Q x \<Longrightarrow> keeps n st (snd (f st x)) \<and> P (snd (f st x)) \<and> Q' (fst (f st x))"
  shows "P st \<Longrightarrow> \<forall>x \<in> set xs. Q x \<Longrightarrow>
         keeps n st (snd (mapState f st xs)) \<and> P (snd (mapState f st xs)) \<and> (\<forall>y \<in> set (fst (mapState f st xs)). Q' y)"
proof (induction xs arbitrary: st)
  case Nil
  then show ?case by (simp add: keeps_refl)
next
  case (Cons x xs)
  obtain y st1 where f: "f st x = (y, st1)" by force
  from assms[of st x] Cons.prems f have 1: "keeps n st st1" "P st1" "Q' y" by auto
  from Cons.IH[OF 1(2)] Cons.prems
  have 2: "keeps n st1 (snd (mapState f st1 xs))" "P (snd (mapState f st1 xs))" "\<forall>y \<in> set (fst (mapState f st1 xs)). Q' y"
    by auto
  show ?case using keeps_trans[OF 1(1) 2(1)] 2 1 f
    by (auto simp: split_def Let_def)
qed

lemma deserialize_keeps: "keeps (length (heap st)) st (snd (deserialize st v))"
proof -
  obtain t1 st1 where b: "deserialize_begin st v = (t1, st1)" by force
  obtain t2 st2 where c: "deserialize_variables st1 t1 = (t2, st2)" by force
  from begin_keeps[of "length (heap st)" st v] b
  have 1: "keeps (length (heap st)) st st1" "task1_ok (length (heap st)) t1" by auto
  from variables_keeps[OF 1(2), of st1] c
  have 2: "keeps (length (heap st)) st1 st2" "task2_ok (length (heap st)) t2" by auto
  from functions_keeps[OF 2(2), of st2]
  have 3: "keeps (length (heap st)) st2 (snd (deserialize_functions st2 t2))" .
  show ?thesis using keeps_trans[OF keeps_trans[OF 1(1) 2(1)] 3] by (simp add: deserialize_def b c)
qed

lemma deserializeAll_keeps: "keeps (length (heap st)) st (snd (deserializeAll st args))"
proof -
  let ?n = "length (heap st)"
  obtain ts1 st1 where a: "mapState deserialize_begin st args = (ts1, st1)" by force
  obtain ts2 st2 where b: "mapState deserialize_variables st1 ts1 = (ts2, st2)" by force
  obtain rs st3 where c: "mapState deserialize_functions st2 ts2 = (rs, st3)" by force
  have "keeps ?n st (snd (mapState deserialize_begin st args))
        \<and> ?n \<le> length (heap (snd (mapState deserialize_begin st args)))
        \<and> (\<forall>t \<in> set (fst (mapState deserialize_begin st args)). task1_ok ?n t)"
  proof (rule mapState_keeps[where P="\<lambda>s::RPCManager. ?n \<le> length (heap s)" and Q="\<lambda>x. True"])
    fix s :: RPCManager and x assume "?n \<le> length (heap s)"
    with begin_keeps[of ?n s x] keeps_length[of ?n s "snd (deserialize_begin s x)"]
    show "keeps ?n s (snd (deserialize_begin s x)) \<and> ?n \<le> length (heap (snd (deserialize_begin s x)))
          \<and> task1_ok ?n (fst (deserialize_begin s x))" by simp
  qed simp_all
  with a have 1: "keeps ?n st st1" "\<forall>t \<in> set ts1. task1_ok ?n t" by simp_all
  have "keeps ?n st1 (snd (mapState deserialize_variables st1 ts1))
        \<and> True
        \<and> (\<forall>t \<in> set (fst (mapState deserialize_variables st1 ts1)). task2_ok ?n t)"
    by (rule mapState_keeps[where P="\<lambda>s. True" and Q="task1_ok ?n"]) (use variables_keeps 1 in auto)
  with b have 2: "keeps ?n st1 st2" "\<forall>t \<in> set ts2. task2_ok ?n t" by simp_all
  have "keeps ?n st2 (snd (mapState deserialize_functions st2 ts2))
        \<and> True
        \<and> (\<forall>t \<in> set (fst (mapState deserialize_functions st2 ts2)). True)"
    by (rule mapState_keeps[where P="\<lambda>s. True" and Q="task2_ok ?n"]) (use functions_keeps 2 in auto)
  with c have 3: "keeps ?n st2 st3" by simp
  show ?thesis using keeps_trans[OF keeps_trans[OF 1(1) 2(1)] 3]
    by (simp add: deserializeAll_def a b c)
qed

lemma keeps_step2:
  "keeps (length (heap st)) st st1 \<Longrightarrow> keeps (length (heap st1)) st1 st2 \<Longrightarrow> keeps (length (heap st)) st st2"
  using keeps_trans keeps_mono keeps_length by blast

lemma createGetter_keeps: "keeps (length (heap st)) st (snd (createGetter st target name))"
proof -
  obtain reply st1 where a: "jrpc_call st API_SERVER_METHOD_GET_VALUE [SScriptObject target, SStr name] = (reply, st1)"
    by force
  have 1: "keeps (length (heap st)) st st1" using keeps_jrpc_call[of "length (heap st)" st] a by (metis snd_conv)
  show ?thesis
    using 1 keeps_step2[OF 1 deserialize_keeps]
    by (auto simp: createGetter_def a split: sum.splits)
qed

lemma createSetter_keeps: "keeps (length (heap st)) st (snd (createSetter st target name v))"
proof (cases "serialize st v")
  case (Inl e)
  then show ?thesis by (simp add: createSetter_def keeps_refl)
next
  case (Inr w)
  obtain reply st1 where a: "jrpc_call st API_SERVER_METHOD_SET_VALUE [SScriptObject target, SStr name, w] = (reply, st1)"
    by force
  have 1: "keeps (length (heap st)) st st1" using keeps_jrpc_call[of "length (heap st)" st] a by (metis snd_conv)
  show ?thesis using 1 by (auto simp: createSetter_def Inr a split: Response.splits)
qed

lemma send_keeps: "keeps (length (heap st)) st (snd (callAPIMethod_send st target name args))"
proof -
  let ?n = "length (heap st)"
  let ?st1 = "assignAll st (objectArguments st args)"
  let ?st2 = "?st1\<lparr>scriptObjectListStack := objectArguments st args # scriptObjectListStack ?st1\<rparr>"
  have 2: "keeps ?n st ?st2" using keeps_trans[OF keeps_assignAll keeps_stack] .
  show ?thesis
  proof (cases "serializeAll ?st2 args")
    case (Inl e)
    then show ?thesis using keeps_assignAll[of ?n st]
      by (simp add: callAPIMethod_send_def Let_def)
  next
    case (Inr vs)
    then show ?thesis using keeps_trans[OF 2 keeps_jrpc_call]
      by (simp add: callAPIMethod_send_def Let_def split_def)
  qed
qed

lemma settle_keeps: "keeps (length (heap st)) st (snd (callAPIMethod_settle st reply))"
proof (cases "awaitValue reply")
  case (Inl e)
  then show ?thesis using keeps_stack by (simp add: callAPIMethod_settle_def)
next
  case (Inr v)
  obtain r st1 where d: "deserialize st v = (r, st1)" by force
  have "keeps (length (heap st)) st st1" using deserialize_keeps[of st v] d by simp
  from keeps_trans[OF this keeps_stack]
  show ?thesis by (simp add: callAPIMethod_settle_def Inr d)
qed

lemma callAPIMethod_keeps: "keeps (length (heap st)) st (snd (callAPIMethod st target name args))"
proof -
  obtain r st1 where a: "callAPIMethod_send st target name args = (r, st1)" by force
  have 1: "keeps (length (heap st)) st st1" using send_keeps[of st target name args] a by simp
  show ?thesis using 1 keeps_step2[OF 1 settle_keeps]
    by (auto simp: callAPIMethod_def a split: sum.splits)
qed

lemma handleAPICallback_keeps: "keeps (length (heap st)) st (snd (handleAPICallback st functionId args))"
proof -
  obtain r st1 where a: "deserializeAll st args = (r, st1)" by force
  have 1: "keeps (length (heap st)) st st1" using deserializeAll_keeps[of st args] a by simp
  show ?thesis using 1 keeps_trans[OF 1 keeps_invoked]
    by (auto simp: handleAPICallback_def a keeps_refl Let_def split: option.splits Object.splits sum.splits)
qed

lemma registerCallback_keeps: "keeps (length (heap st)) st (snd (registerCallback st v name fn))"
  by (auto simp: registerCallback_def createMethod_def keeps_refl callAPIMethod_keeps keeps_jrpc_call
      split: SerializableValue.splits option.splits Member.splits)

lemma registerCallbacks_keeps: "keeps (length (heap st)) st (snd (registerCallbacks st root cbs))"
proof (induction cbs arbitrary: st)
  case Nil
  then show ?case by (simp add: keeps_refl)
next
  case (Cons cb cbs)
  obtain name fn where cb: "cb = (name, fn)" by force
  obtain r st1 where a: "registerCallback st root name fn = (r, st1)" by force
  have 1: "keeps (length (heap st)) st st1" using registerCallback_keeps[of st root] a by (metis snd_conv)
  show ?case using 1 keeps_step2[OF 1 Cons.IH]
    by (auto simp: cb a split: sum.splits)
qed

lemma initialize_keeps: "keeps (length (heap st)) st (snd (initialize st token))"
proof -
  let ?n = "length (heap st)"
  obtain reply1 st1 where a: "jrpc_call st API_SERVER_METHOD_AUTHENTICATE [SStr token] = (reply1, st1)" by force
  obtain reply2 st2 where b: "jrpc_call st1 API_SERVER_METHOD_GET_ROOT_OBJECT [] = (reply2, st2)" by force
  have 1: "keeps ?n st st1" using keeps_jrpc_call[of ?n st] a by (metis snd_conv)
  have 2: "keeps ?n st st2" using keeps_trans[OF 1 keeps_jrpc_call[of ?n st1]] b by (metis snd_conv)
  have rest: "keeps ?n st (snd (case awaitValue reply2 of
                 Inl e \<Rightarrow> (Inl e, st2)
               | Inr response \<Rightarrow>
                   (case deserialize st2 response of
                      (Inl e, st3) \<Rightarrow> (Inl e, st3)
                    | (Inr apiRootObject, st3) \<Rightarrow>
                        (case registerCallbacks st3 apiRootObject (Object_entries (globalCallbacksMap st3)) of
                           (Some e, st4) \<Rightarrow> (Inl e, st4)
                         | (None, st4) \<Rightarrow> (Inr apiRootObject, st4)))))"
  proof (cases "awaitValue reply2")
    case (Inl e)
    then show ?thesis using 2 by simp
  next
    case (Inr response)
    obtain r st3 where d: "deserialize st2 response = (r, st3)" by force
    have 3: "keeps ?n st st3" using keeps_step2[OF 2 deserialize_keeps[of st2 response]] d by simp
    show ?thesis
    proof (cases r)
      case (Inl e)
      then show ?thesis using 3 by (simp add: Inr d)
    next
      case root: (Inr apiRootObject)
      obtain r4 st4 where e: "registerCallbacks st3 apiRootObject (Object_entries (globalCallbacksMap st3)) = (r4, st4)" by force
      have 4: "keeps ?n st st4" using keeps_step2[OF 3 registerCallbacks_keeps[of st3 apiRootObject]] e
        by (metis snd_conv)
      show ?thesis using 4 by (simp add: Inr d root e split: option.splits)
    qed
  qed
  show ?thesis
    using 1 rest by (cases reply1) (simp_all add: initialize_def a b)
qed

lemma step_keeps: "step st st' \<Longrightarrow> keeps (length (heap st)) st st'"
  by (induction rule: step.induct)
    (simp_all add: send_keeps settle_keeps createGetter_keeps createSetter_keeps
      handleAPICallback_keeps initialize_keeps keeps_create)

lemma steps_keeps: "step\<^sup>*\<^sup>* st st' \<Longrightarrow> keeps (length (heap st)) st st'"
proof (induction rule: rtranclp_induct)
  case base
  show ?case by (simp add: keeps_refl)
next
  case (step y z)
  show ?case using keeps_step2[OF step.IH step_keeps[OF step.hyps(2)]] .
qed


subsection \<open>Frames\<close>

lemma mapState_field:
  assumes "\<And>s x. g (snd (f s x)) = g s"
  shows "g (snd (mapState f st xs)) = g st"
proof (induction xs arbitrary: st)
  case Nil
  show ?case by simp
next
  case (Cons x xs)
  show ?case using Cons[of "snd (f st x)"] assms[of st x] by (simp add: split_def Let_def)
qed

lemma assignAll_stack: "scriptObjectListStack (assignAll st rs) = scriptObjectListStack st"
  unfolding assignAll_def
  by (induction rs arbitrary: st) (simp_all add: assignScriptObjectId_def)

lemma begin_stack: "scriptObjectListStack (snd (deserialize_begin st v)) = scriptObjectListStack st"
  by (cases v) (simp_all add: describeScriptObject_begin_def jrpc_call_def Let_def)

lemma variables_stack: "scriptObjectListStack (snd (deserialize_variables st t)) = scriptObjectListStack st"
  by (cases t)
    (simp_all add: describeScriptObject_variables_def jrpc_call_def Let_def split: Response.splits)

lemma functions_stack: "scriptObjectListStack (snd (deserialize_functions st t)) = scriptObjectListStack st"
  by (cases t)
    (simp_all add: describeScriptObject_functions_def Let_def
      split: Response.splits prod.splits option.splits)

lemma deserialize_stack: "scriptObjectListStack (snd (deserialize st v)) = scriptObjectListStack st"
  by (simp add: deserialize_def split_def Let_def begin_stack variables_stack functions_stack)

lemma deserializeAll_stack: "scriptObjectListStack (snd (deserializeAll st args)) = scriptObjectListStack st"
  by (simp add: deserializeAll_def split_def Let_def
      mapState_field[where g=scriptObjectListStack, OF begin_stack]
      mapState_field[where g=scriptObjectListStack, OF variables_stack]
      mapState_field[where g=scriptObjectListStack, OF functions_stack])

lemma createGetter_stack: "scriptObjectListStack (snd (createGetter st target name)) = scriptObjectListStack st"
  by (simp add: createGetter_def jrpc_call_def Let_def deserialize_stack split: sum.splits)

lemma createSetter_stack: "scriptObjectListStack (snd (createSetter st target name v)) = scriptObjectListStack st"
  by (simp add: createSetter_def jrpc_call_def Let_def split: sum.splits Response.splits)

lemma handleAPICallback_stack:
  "scriptObjectListStack (snd (handleAPICallback st functionId args)) = scriptObjectListStack st"
proof -
  obtain r st1 where a: "deserializeAll st args = (r, st1)" by force
  have "scriptObjectListStack st1 = scriptObjectListStack st"
    using deserializeAll_stack[of st args] a by simp
  then show ?thesis
    by (auto simp: handleAPICallback_def a Let_def split: option.splits Object.splits sum.splits)
qed

text \<open>The frame of a call that is invoked, and what the settling removes.\<close>

lemma send_stack:
  "scriptObjectListStack (snd (callAPIMethod_send st target name args)) =
     (case fst (callAPIMethod_send st target name args) of
        Inl e \<Rightarrow> scriptObjectListStack st
      | Inr reply \<Rightarrow> objectArguments st args # scriptObjectListStack st)"
  by (simp add: callAPIMethod_send_def Let_def jrpc_call_def assignAll_stack split: sum.splits)

lemma settle_stack:
  "scriptObjectListStack (snd (callAPIMethod_settle st reply)) = tl (scriptObjectListStack st)"
  by (simp add: callAPIMethod_settle_def split_def Let_def deserialize_stack split: sum.splits)

lemma callAPIMethod_stack:
  "scriptObjectListStack (snd (callAPIMethod st target name args)) = scriptObjectListStack st"
proof (cases "callAPIMethod_send st target name args")
  case (Pair r st1)
  show ?thesis
  proof (cases r)
    case (Inl e)
    with Pair send_stack[of st target name args] show ?thesis by (simp add: callAPIMethod_def)
  next
    case (Inr reply)
    with Pair send_stack[of st target name args] settle_stack[of st1 reply]
    show ?thesis by (simp add: callAPIMethod_def)
  qed
qed

lemma registerCallback_stack:
  "scriptObjectListStack (snd (registerCallback st v name fn)) = scriptObjectListStack st"
  by (simp add: registerCallback_def createMethod_def callAPIMethod_stack jrpc_call_def Let_def
      split: SerializableValue.splits option.splits Member.splits)

lemma registerCallbacks_stack:
  "scriptObjectListStack (snd (registerCallbacks st root cbs)) = scriptObjectListStack st"
proof (induction cbs arbitrary: st)
  case Nil
  show ?case by simp
next
  case (Cons cb cbs)
  obtain name fn where cb: "cb = (name, fn)" by force
  obtain r st1 where a: "registerCallback st root name fn = (r, st1)" by force
  have "scriptObjectListStack st1 = scriptObjectListStack st"
    using registerCallback_stack[of st root name fn] a by simp
  then show ?case using Cons[of st1] by (simp add: cb a split: sum.splits)
qed

lemma initialize_cases:
  fixes st :: RPCManager and token :: string
  defines "st1 \<equiv> st\<lparr>sent := sent st @ [Request ''authenticate'' [SStr token]]\<rparr>"
  defines "st2 \<equiv> st\<lparr>sent := sent st @ [Request ''authenticate'' [SStr token], Request ''getRootObject'' []]\<rparr>"
  obtains
    (refused) e where
      "remote st (Suc (length (sent st))) (Request ''authenticate'' [SStr token]) = Failure e"
      "initialize st token = (Inl (RemoteError e), st1)"
  | (rootless) e where
      "\<forall>e. remote st (Suc (length (sent st))) (Request ''authenticate'' [SStr token]) \<noteq> Failure e"
      "awaitValue (remote st (Suc (Suc (length (sent st)))) (Request ''getRootObject'' [])) = Inl e"
      "initialize st token = (Inl e, st2)"
  | (undecoded) response e st3 where
      "\<forall>e. remote st (Suc (length (sent st))) (Request ''authenticate'' [SStr token]) \<noteq> Failure e"
      "awaitValue (remote st (Suc (Suc (length (sent st)))) (Request ''getRootObject'' [])) = Inr response"
      "deserialize st2 response = (Inl e, st3)"
      "initialize st token = (Inl e, st3)"
  | (unregistered) response apiRootObject st3 e st4 where
      "\<forall>e. remote st (Suc (length (sent st))) (Request ''authenticate'' [SStr token]) \<noteq> Failure e"
      "awaitValue (remote st (Suc (Suc (length (sent st)))) (Request ''getRootObject'' [])) = Inr response"
      "deserialize st2 response = (Inr apiRootObject, st3)"
      "registerCallbacks st3 apiRootObject (Object_entries (globalCallbacksMap st3)) = (Some e, st4)"
      "initialize st token = (Inl e, st4)"
  | (initialized) response apiRootObject st3 st4 where
      "\<forall>e. remote st (Suc (length (sent st))) (Request ''authenticate'' [SStr token]) \<noteq> Failure e"
      "awaitValue (remote st (Suc (Suc (length (sent st)))) (Request ''getRootObject'' [])) = Inr response"
      "deserialize st2 response = (Inr apiRootObject, st3)"
      "registerCallbacks st3 apiRootObject (Object_entries (globalCallbacksMap st3)) = (None, st4)"
      "initialize st token = (Inr apiRootObject, st4)"
proof -
  let ?reply1 = "remote st (Suc (length (sent st))) (Request ''authenticate'' [SStr token])"
  let ?reply2 = "remote st (Suc (Suc (length (sent st)))) (Request ''getRootObject'' [])"
  have a: "jrpc_call st API_SERVER_METHOD_AUTHENTICATE [SStr token] = (?reply1, st1)"
    by (simp add: jrpc_call_def Let_def st1_def API_SERVER_METHOD_AUTHENTICATE_def)
  have b: "jrpc_call st1 API_SERVER_METHOD_GET_ROOT_OBJECT [] = (?reply2, st2)"
    by (simp add: jrpc_call_def Let_def st1_def st2_def API_SERVER_METHOD_GET_ROOT_OBJECT_def)
  show thesis
  proof (cases "\<exists>e. ?reply1 = Failure e")
    case True
    then obtain e where e: "?reply1 = Failure e" by blast
    then have "initialize st token = (Inl (RemoteError e), st1)"
      by (simp add: initialize_def a)
    with e show thesis by (rule refused)
  next
    case False
    then have ini: "initialize st token =
        (case awaitValue ?reply2 of
           Inl e \<Rightarrow> (Inl e, st2)
         | Inr response \<Rightarrow>
             (case deserialize st2 response of
                (Inl e, st3) \<Rightarrow> (Inl e, st3)
              | (Inr apiRootObject, st3) \<Rightarrow>
                  (case registerCallbacks st3 apiRootObject (Object_entries (globalCallbacksMap st3)) of
                     (Some e, st4) \<Rightarrow> (Inl e, st4)
                   | (None, st4) \<Rightarrow> (Inr apiRootObject, st4))))"
      by (cases ?reply1) (simp_all add: initialize_def a b)
    show thesis
    proof (cases "awaitValue ?reply2")
      case (Inl e)
      with ini False show thesis by (intro rootless[of e]) simp_all
    next
      case (Inr response)
      obtain r st3 where d: "deserialize st2 response = (r, st3)" by force
      show thesis
      proof (cases r)
        case (Inl e)
        with ini Inr d False show thesis by (intro undecoded[of response e st3]) simp_all
      next
        case root: (Inr apiRootObject)
        obtain r4 st4 where e: "registerCallbacks st3 apiRootObject (Object_entries (globalCallbacksMap st3)) = (r4, st4)"
          by force
        show thesis
        proof (cases r4)
          case None
          with ini Inr d root e False show thesis
            by (intro initialized[of response apiRootObject st3 st4]) simp_all
        next
          case (Some err)
          with ini Inr d root e False show thesis
            by (intro unregistered[of response apiRootObject st3 err st4]) simp_all
        qed
      qed
    qed
  qed
qed

lemma initialize_stack:
  "scriptObjectListStack (snd (initialize st token)) = scriptObjectListStack st"
proof (cases rule: initialize_cases[of st token])
  case (refused e)
  then show ?thesis by simp
next
  case (rootless e)
  then show ?thesis by simp
next
  case (undecoded response e st3)
  with deserialize_stack[of "st\<lparr>sent := sent st @ [Request ''authenticate'' [SStr token], Request ''getRootObject'' []]\<rparr>" response]
  show ?thesis by simp
next
  case (unregistered response apiRootObject st3 e st4)
  with deserialize_stack[of "st\<lparr>sent := sent st @ [Request ''authenticate'' [SStr token], Request ''getRootObject'' []]\<rparr>" response]
    registerCallbacks_stack[of st3 apiRootObject "Object_entries (globalCallbacksMap st3)"]
  show ?thesis by simp
next
  case (initialized response apiRootObject st3 st4)
  with deserialize_stack[of "st\<lparr>sent := sent st @ [Request ''authenticate'' [SStr token], Request ''getRootObject'' []]\<rparr>" response]
    registerCallbacks_stack[of st3 apiRootObject "Object_entries (globalCallbacksMap st3)"]
  show ?thesis by simp
qed

lemma objectArguments_set:
  "r \<in> set (objectArguments st args) \<longleftrightarrow> VObject r \<in> set args \<and> instanceOfObject st r"
  by (induction st args rule: objectArguments.induct) auto

lemma framesLive_mono:
  assumes "framesLive st" "length (heap st) \<le> length (heap st')"
    and "set (concat (scriptObjectListStack st')) \<subseteq> set (concat (scriptObjectListStack st)) \<union> A"
    and "\<forall>r \<in> A. r < length (heap st)"
  shows "framesLive st'"
  unfolding framesLive_def
proof
  fix r assume "r \<in> set (concat (scriptObjectListStack st'))"
  with assms(3) have "r \<in> set (concat (scriptObjectListStack st)) \<or> r \<in> A" by blast
  with assms(1,4) have "r < length (heap st)" unfolding framesLive_def by blast
  with assms(2) show "r < length (heap st')" by simp
qed

lemma step_framesLive: "step st st' \<Longrightarrow> framesLive st \<Longrightarrow> framesLive st'"
proof (induction rule: step.induct)
  case (invoke args st target methodName)
  show ?case
  proof (rule framesLive_mono[OF invoke(2) keeps_length[OF send_keeps], where A="set (objectArguments st args)"])
    show "set (concat (scriptObjectListStack (snd (callAPIMethod_send st target methodName args))))
          \<subseteq> set (concat (scriptObjectListStack st)) \<union> set (objectArguments st args)"
      by (cases "fst (callAPIMethod_send st target methodName args)")
        (auto simp: send_stack[of st target methodName args])
    show "\<forall>r \<in> set (objectArguments st args). r < length (heap st)"
      using invoke(1) by (simp add: objectArguments_set)
  qed
next
  case (settle st reply)
  show ?case
  proof (rule framesLive_mono[OF settle keeps_length[OF settle_keeps], where A="{}"])
    show "set (concat (scriptObjectListStack (snd (callAPIMethod_settle st reply))))
          \<subseteq> set (concat (scriptObjectListStack st)) \<union> {}"
      by (cases "scriptObjectListStack st") (auto simp: settle_stack)
  qed simp
next
  case (getter st target propertyName)
  show ?case
    by (rule framesLive_mono[OF getter keeps_length[OF createGetter_keeps], where A="{}"])
      (simp_all add: createGetter_stack)
next
  case (setter st target propertyName v)
  show ?case
    by (rule framesLive_mono[OF setter keeps_length[OF createSetter_keeps], where A="{}"])
      (simp_all add: createSetter_stack)
next
  case (callback st functionId args)
  show ?case
    by (rule framesLive_mono[OF callback keeps_length[OF handleAPICallback_keeps], where A="{}"])
      (simp_all add: handleAPICallback_stack)
next
  case (session st token)
  show ?case
    by (rule framesLive_mono[OF session keeps_length[OF initialize_keeps], where A="{}"])
      (simp_all add: initialize_stack)
next
  case (create st obj)
  show ?case
    by (rule framesLive_mono[OF create, where A="{}"]) simp_all
qed

lemma assignAll_fields:
  "heap (assignAll st rs) = heap st"
  "invoked (assignAll st rs) = invoked st"
  "sent (assignAll st rs) = sent st"
  "remote (assignAll st rs) = remote st"
  "globalCallbacksMap (assignAll st rs) = globalCallbacksMap st"
  unfolding assignAll_def by (induction rs arbitrary: st) (simp_all add: assignScriptObjectId_def)

lemma Object_entries_set: "set (Object_entries properties) = set properties"
  by (auto simp: Object_entries_def)

lemma Object_values_set: "set (Object_values properties) = set (map snd properties)"
  by (simp add: Object_values_def Object_entries_set)

lemma Object_entries_names:
  "\<forall>name \<in> set (map fst properties). arrayIndex name = None \<Longrightarrow> Object_entries properties = properties"
proof -
  assume a: "\<forall>name \<in> set (map fst properties). arrayIndex name = None"
  then have "filter (\<lambda>property. arrayIndex (fst property) \<noteq> None) properties = []"
    by (auto simp: filter_empty_conv)
  moreover from a have "filter (\<lambda>property. arrayIndex (fst property) = None) properties = properties"
    by (auto simp: filter_id_conv)
  ultimately show ?thesis by (simp add: Object_entries_def)
qed

lemma constructor_fields:
  "scriptObjectListStack (constructor cbs h rem) = [Object_values cbs]"
  "heap (constructor cbs h rem) = h"
  "globalCallbacksMap (constructor cbs h rem) = cbs"
  "sent (constructor cbs h rem) = []"
  "remote (constructor cbs h rem) = rem"
  "invoked (constructor cbs h rem) = []"
  by (simp_all add: constructor_def Let_def assignAll_fields)

lemma constructor_handlesValid: "handlesValid (constructor cbs h rem)"
proof -
  let ?st0 = "\<lparr>lastScriptObjectId = API_VALUE_INVALID_SCRIPT_OBJECT, scriptObjectIdMap = Map.empty,
               globalCallbacksMap = [], scriptObjectListStack = [], heap = h, sent = [], remote = rem, invoked = []\<rparr>"
  have "keeps 0 ?st0 (assignAll ?st0 (Object_values cbs))" by (rule keeps_assignAll)
  moreover have "handlesValid ?st0" by (simp add: handlesValid_def)
  ultimately have "handlesValid (assignAll ?st0 (Object_values cbs))" by (simp add: keeps_def)
  then show ?thesis by (simp add: constructor_def Let_def handlesValid_def)
qed

lemma reachable_invariant: "reachable st \<Longrightarrow> handlesValid st \<and> framesLive st"
proof (induction rule: reachable.induct)
  case (start globalCallbacks h rem)
  then show ?case
    by (auto simp: constructor_handlesValid framesLive_def constructor_fields Object_values_set)
next
  case (later st st')
  from step_keeps[OF later.hyps(2)] later.IH step_framesLive[OF later.hyps(2)]
  show ?case by (simp add: keeps_def)
qed

subsection \<open>Building a proxy\<close>

lemma defineProperties_None:
  "defineProperties ms new = (None, ms') \<longleftrightarrow>
     distinct (map fst new) \<and> set (map fst new) \<inter> set (map fst ms) = {} \<and> ms' = ms @ new"
proof (induction new arbitrary: ms)
  case Nil
  show ?case by auto
next
  case (Cons x new)
  obtain name member where x: "x = (name, member)" by force
  show ?case
  proof (cases "name \<in> set (map fst ms)")
    case True
    then show ?thesis by (auto simp: x defineProperty_def)
  next
    case False
    then show ?thesis using Cons[of "ms @ [(name, member)]"]
      by (auto simp: x defineProperty_def)
  qed
qed

lemma defineMembers_None:
  "defineMembers target properties methods = (None, members) \<longleftrightarrow>
     (\<exists>P M. iterate properties = Inr P \<and> iterate methods = Inr M
            \<and> distinct (P @ M) \<and> members = proxyMembers target P M)"
proof (cases "iterate properties")
  case (Inl e)
  then show ?thesis by (simp add: defineMembers_def)
next
  case P: (Inr P)
  obtain e1 ms1 where d1: "defineProperties [] (map (\<lambda>property. (property, Accessor True target property)) P) = (e1, ms1)"
    by force
  show ?thesis
  proof (cases e1)
    case (Some e)
    with d1 have "\<not> distinct P"
      using defineProperties_None[of "[]" "map (\<lambda>property. (property, Accessor True target property)) P"
          "map (\<lambda>property. (property, Accessor True target property)) P"]
      by (simp add: comp_def)
    with P d1 Some show ?thesis by (simp add: defineMembers_def)
  next
    case None
    with d1 have ms1: "distinct P" "ms1 = map (\<lambda>property. (property, Accessor True target property)) P"
      by (simp_all add: defineProperties_None comp_def)
    show ?thesis
    proof (cases "iterate methods")
      case (Inl e)
      with P d1 None show ?thesis by (simp add: defineMembers_def)
    next
      case M: (Inr M)
      have "defineMembers target properties methods
            = defineProperties ms1 (map (\<lambda>method. (method, Method True target method)) M)"
        by (simp add: defineMembers_def P d1 None M)
      then show ?thesis
        using ms1 P M
        by (auto simp: defineProperties_None comp_def proxyMembers_def)
    qed
  qed
qed

lemma deserialize_scriptObject:
  assumes "target \<noteq> API_VALUE_INVALID_SCRIPT_OBJECT"
    and "deserialize st (SScriptObject target) = (Inr v, st')"
  shows "\<exists>properties methods.
           iterate (remote st (Suc (length (sent st))) (Request ''listProperties'' [SScriptObject target]))
             = Inr properties
         \<and> iterate (remote st (Suc (Suc (length (sent st)))) (Request ''listMethods'' [SScriptObject target]))
             = Inr methods
         \<and> distinct (properties @ methods)
         \<and> v = VObject (length (heap st))
         \<and> st' = st\<lparr>scriptObjectIdMap := (scriptObjectIdMap st)(length (heap st) \<mapsto> target),
                     heap := heap st @ [Object (proxyMembers target properties methods) True],
                     sent := sent st @ [Request ''listProperties'' [SScriptObject target],
                                        Request ''listMethods'' [SScriptObject target]]\<rparr>"
proof -
  let ?r1 = "remote st (Suc (length (sent st))) (Request ''listProperties'' [SScriptObject target])"
  let ?r2 = "remote st (Suc (Suc (length (sent st)))) (Request ''listMethods'' [SScriptObject target])"
  let ?st1 = "st\<lparr>heap := heap st @ [Object [] False],
                  sent := sent st @ [Request ''listProperties'' [SScriptObject target]]\<rparr>"
  have b: "deserialize_begin st (SScriptObject target) = (AwaitingVariables (length (heap st)) target ?r1, ?st1)"
    using assms(1)
    by (simp add: describeScriptObject_begin_def jrpc_call_def Let_def API_SERVER_METHOD_DESCRIBE_VARIABLES_def)
  obtain t2 st2 where c: "describeScriptObject_variables ?st1 (length (heap st)) target ?r1 = (t2, st2)"
    by force
  have full: "deserialize_functions st2 t2 = (Inr v, st')"
    using assms(2) by (simp add: deserialize_def b c del: deserialize_begin.simps)
  from c show ?thesis
  proof (cases rule: variables_cases)
    case (failed e)
    with full show ?thesis by simp
  next
    case sent
    with full have d: "describeScriptObject_functions st2 (length (heap st)) target ?r1 ?r2 = (Inr v, st')"
      by simp
    from d show ?thesis
    proof (cases rule: functions_cases)
      case (failed e)
      then show ?thesis by simp
    next
      case (thrown e members)
      then show ?thesis by simp
    next
      case (sealed members)
      from sealed(2) obtain P M where "iterate ?r1 = Inr P" "iterate ?r2 = Inr M" "distinct (P @ M)"
        "members = proxyMembers target P M"
        unfolding defineMembers_None by blast
      with sealed(3,4) sent(3) show ?thesis by simp
    qed
  qed
qed

subsection \<open>Handles\<close>

lemma steps_handle:
  assumes "step\<^sup>*\<^sup>* st st'" "r < length (heap st)" "scriptObjectIdMap st r = Some h"
  shows "scriptObjectIdMap st' r = Some h"
  using steps_keeps[OF assms(1)] assms(2,3) by (simp add: keeps_def)

text \<open>
  C6. Assigning a handle to a reference that has none gives it the counter plus one and
  moves the counter there; assigning to a reference that has one changes nothing. In the
  course of a session the counter never decreases, so the handles given are strictly
  increasing, and an object of the store keeps the handle it has. In a session no
  reference has the invalid handle 0, and the counter is not negative.
\<close>

theorem handle_assignment:
  "(scriptObjectIdMap st r = None \<longrightarrow>
      scriptObjectIdMap (assignScriptObjectId st r) r = Some (lastScriptObjectId st + 1)
      \<and> lastScriptObjectId (assignScriptObjectId st r) = lastScriptObjectId st + 1)
   \<and> (scriptObjectIdMap st r \<noteq> None \<longrightarrow> assignScriptObjectId st r = st)
   \<and> (\<forall>st'. step\<^sup>*\<^sup>* st st' \<longrightarrow>
         lastScriptObjectId st \<le> lastScriptObjectId st'
         \<and> (\<forall>h. r < length (heap st) \<and> scriptObjectIdMap st r = Some h \<longrightarrow> scriptObjectIdMap st' r = Some h))
   \<and> (reachable st \<longrightarrow>
         0 \<le> lastScriptObjectId st \<and> scriptObjectIdMap st r \<noteq> Some API_VALUE_INVALID_SCRIPT_OBJECT)"
proof (intro conjI impI allI)
  fix st' assume "step\<^sup>*\<^sup>* st st'"
  from steps_keeps[OF this]
  show "lastScriptObjectId st \<le> lastScriptObjectId st'" by (simp add: keeps_def)
next
  fix st' h assume "step\<^sup>*\<^sup>* st st'" "r < length (heap st) \<and> scriptObjectIdMap st r = Some h"
  then show "scriptObjectIdMap st' r = Some h" using steps_handle by blast
next
  assume "reachable st"
  from reachable_invariant[OF this]
  show "0 \<le> lastScriptObjectId st" "scriptObjectIdMap st r \<noteq> Some API_VALUE_INVALID_SCRIPT_OBJECT"
    by (auto simp: handlesValid_def API_VALUE_INVALID_SCRIPT_OBJECT_def)
qed (auto simp: assignScriptObjectId_def)

lemma reachable_exampleManager: "reachable exampleManager"
  unfolding exampleManager_def by (rule reachable.start) (simp add: exampleStore_def)

lemma reachable_plainManager: "reachable plainManager"
  unfolding plainManager_def by (rule reachable.start) simp

theorem handle_assignment_witness:
  "scriptObjectIdMap (assignScriptObjectId exampleManager 2) 2 = Some 3
   \<and> lastScriptObjectId (assignScriptObjectId exampleManager 2) = 3
   \<and> assignScriptObjectId exampleManager 1 = exampleManager
   \<and> lastScriptObjectId exampleManager \<le> lastScriptObjectId (snd (initialize exampleManager ''token''))
   \<and> scriptObjectIdMap (snd (initialize exampleManager ''token'')) 1 = Some 2
   \<and> scriptObjectIdMap exampleManager 1 \<noteq> Some API_VALUE_INVALID_SCRIPT_OBJECT"
proof -
  have a: "scriptObjectIdMap exampleManager 2 = None" "scriptObjectIdMap exampleManager 1 = Some 2"
    "lastScriptObjectId exampleManager = 2" "length (heap exampleManager) = 3"
    by (simp_all add: example_defs)
  have b: "step\<^sup>*\<^sup>* exampleManager (snd (initialize exampleManager ''token''))"
    by (rule r_into_rtranclp) (rule step.session)
  show ?thesis
    using handle_assignment [of exampleManager 2] handle_assignment [of exampleManager 1] a b
      reachable_exampleManager
    by (auto simp del: One_nat_def)
qed

subsection \<open>Proxies and the identity map\<close>

text \<open>
  C10. In a session, the value decoded from a script object with a valid handle \<open>h\<close> is a
  proxy that the identity map holds under \<open>h\<close> from its construction on. No frame holds
  it then, and it is serialized to the script object with the handle \<open>h\<close>, at once and
  after any further steps of the session.
\<close>

theorem proxy_serializes_to_its_handle:
  assumes "h \<noteq> API_VALUE_INVALID_SCRIPT_OBJECT"
    and "deserialize st (SScriptObject h) = (Inr v, st')"
    and "reachable st"
  shows "\<exists>proxy. v = VObject proxy
           \<and> scriptObjectIdMap st' proxy = Some h
           \<and> serialize st' v = Inr (SScriptObject h)
           \<and> proxy \<notin> set (concat (scriptObjectListStack st'))
           \<and> (\<forall>st''. step\<^sup>*\<^sup>* st' st'' \<longrightarrow> serialize st'' v = Inr (SScriptObject h))"
proof -
  from deserialize_scriptObject[OF assms(1,2)]
  have v: "v = VObject (length (heap st))"
    and m: "scriptObjectIdMap st' (length (heap st)) = Some h"
    and l: "length (heap st) < length (heap st')"
    and s: "scriptObjectListStack st' = scriptObjectListStack st"
    by auto
  from reachable_invariant[OF assms(3)]
  have fresh: "length (heap st) \<notin> set (concat (scriptObjectListStack st))"
    by (auto simp: framesLive_def)
  have later: "serialize st'' v = Inr (SScriptObject h)" if "step\<^sup>*\<^sup>* st' st''" for st''
    using steps_handle[OF that l m] by (simp add: v)
  show ?thesis using v m s fresh later by simp
qed

theorem proxy_serializes_to_its_handle_witness:
  "\<exists>proxy. fst (deserialize plainManager (SScriptObject 123)) = Inr (VObject proxy)
     \<and> scriptObjectIdMap (snd (deserialize plainManager (SScriptObject 123))) proxy = Some 123
     \<and> serialize (snd (deserialize plainManager (SScriptObject 123))) (VObject proxy) = Inr (SScriptObject 123)
     \<and> proxy \<notin> set (concat (scriptObjectListStack (snd (deserialize plainManager (SScriptObject 123)))))"
proof -
  have a: "(123::int) \<noteq> API_VALUE_INVALID_SCRIPT_OBJECT"
    by (simp add: API_VALUE_INVALID_SCRIPT_OBJECT_def)
  have b: "fst (deserialize plainManager (SScriptObject 123)) = Inr (VObject 3)"
    by (simp add: example_defs describeScriptObject_begin_def describeScriptObject_variables_def
        describeScriptObject_functions_def iterate_def defineMembers_def defineProperty_def
        API_SERVER_METHOD_DESCRIBE_VARIABLES_def API_SERVER_METHOD_DESCRIBE_FUNCTIONS_def)
  then have c: "deserialize plainManager (SScriptObject 123)
                = (Inr (VObject 3), snd (deserialize plainManager (SScriptObject 123)))"
    by (metis prod.collapse)
  show ?thesis
    using proxy_serializes_to_its_handle [OF a c reachable_plainManager] b by auto
qed

subsection \<open>Overlapping calls\<close>

text \<open>
  C1 fails on two calls that overlap. \<^verbatim>\<open>foo(f0)\<close> is invoked, then \<^verbatim>\<open>foo(f1)\<close> while the
  first is pending: the frames are those of the second call, of the first call and of the
  global callbacks, and the handle 2 of \<open>f1\<close> is resolved. The reply to the first call
  comes first. Its \<^verbatim>\<open>finally\<close> block removes the first frame of the stack, which is the
  frame of the second call: the frame of the settled call stays, and a callback to \<open>f1\<close>
  is answered with an error while the call that passed \<open>f1\<close> is pending.
\<close>

theorem overlapping_calls_lose_the_pending_frame:
  "fst (callAPIMethod_send plainManager 123 ''foo'' [VObject 0]) = Inr (Result (SBool True))
   \<and> scriptObjectListStack firstPending = [[0], []]
   \<and> scriptObjectListStack bothPending = [[1], [0], []]
   \<and> scriptObjectIdMap bothPending 1 = Some 2
   \<and> findScriptObject bothPending 2 = Some 1
   \<and> scriptObjectListStack firstSettled = [[0], []]
   \<and> findScriptObject firstSettled 2 = None
   \<and> callbackReply firstSettled 2 [] = (Inl (FunctionNotFound 2), firstSettled)"
  by (simp add: example_defs findScriptObject_def callbackReply_def handleAPICallback_def)

text \<open>
  A call that nothing overlaps with keeps the discipline of the frames: the frame pushed
  holds the objects among the arguments when the request, an \<^verbatim>\<open>execute\<close>, is sent, and
  when the call has settled, either way, the frames are those from before the call.
\<close>

lemma callAPIMethod_alone:
  "(\<forall>reply st1. callAPIMethod_send st target methodName args = (Inr reply, st1) \<longrightarrow>
      scriptObjectListStack st1 = objectArguments st args # scriptObjectListStack st
      \<and> (\<exists>serializedArgs. sent st1 = sent st @ [Request ''execute''
             (SScriptObject target # SStr methodName # serializedArgs)]))
   \<and> scriptObjectListStack (snd (callAPIMethod st target methodName args)) = scriptObjectListStack st"
proof -
  have "scriptObjectListStack st1 = objectArguments st args # scriptObjectListStack st"
    if "callAPIMethod_send st target methodName args = (Inr reply, st1)" for reply st1
    using send_stack[of st target methodName args] that by simp
  moreover have "\<exists>serializedArgs. sent st1 = sent st @ [Request ''execute''
             (SScriptObject target # SStr methodName # serializedArgs)]"
    if "callAPIMethod_send st target methodName args = (Inr reply, st1)" for reply st1
    using that
    by (auto simp: callAPIMethod_send_def Let_def jrpc_call_def assignAll_fields
        API_SERVER_METHOD_CALL_FUNCTION_def split: sum.splits)
  ultimately show ?thesis using callAPIMethod_stack by blast
qed

subsection \<open>Decoding the arguments of a callback\<close>

lemma begin_begun:
  "deserialize_begin st a = (t, st1) \<Longrightarrow>
     begun a t \<and> task1_refs t = (if length (heap st1) = length (heap st) then [] else [length (heap st)])
     \<and> (length (heap st1) = length (heap st) \<or> length (heap st1) = Suc (length (heap st)))"
  by (cases a) (auto simp: describeScriptObject_begin_def jrpc_call_def Let_def split: if_splits)

lemma mapState_begin:
  "mapState deserialize_begin st args = (ts, st1) \<Longrightarrow>
     list_all2 begun args ts
     \<and> distinct (concat (map task1_refs ts))
     \<and> (\<forall>r \<in> set (concat (map task1_refs ts)). length (heap st) \<le> r \<and> r < length (heap st1))
     \<and> length (heap st) \<le> length (heap st1)"
proof (induction args arbitrary: st ts st1)
  case Nil
  then show ?case by simp
next
  case (Cons a args)
  obtain t s1 where h: "deserialize_begin st a = (t, s1)" by force
  obtain ts' s2 where r: "mapState deserialize_begin s1 args = (ts', s2)" by force
  from Cons.prems h r have ts: "ts = t # ts'" "st1 = s2" by simp_all
  from begin_begun[OF h] Cons.IH[OF r] show ?case
    unfolding ts by (auto split: if_splits; fastforce)
qed

lemma variables_described:
  "deserialize_variables st t = (t', st1) \<Longrightarrow> begun a t \<Longrightarrow>
     described a t' \<and> set (task2_refs t') \<subseteq> set (task1_refs t) \<and> length (task2_refs t') \<le> 1
     \<and> heap st1 = heap st \<and> scriptObjectIdMap st1 = scriptObjectIdMap st"
  by (cases t)
    (auto simp: describeScriptObject_variables_def jrpc_call_def Let_def
      split: Response.splits sum.splits)

lemma mapState_variables:
  "mapState deserialize_variables st ts = (ts', st1) \<Longrightarrow> list_all2 begun args ts \<Longrightarrow>
     distinct (concat (map task1_refs ts)) \<Longrightarrow>
     list_all2 described args ts'
     \<and> distinct (concat (map task2_refs ts'))
     \<and> set (concat (map task2_refs ts')) \<subseteq> set (concat (map task1_refs ts))
     \<and> heap st1 = heap st \<and> scriptObjectIdMap st1 = scriptObjectIdMap st"
proof (induction ts arbitrary: st ts' args st1)
  case Nil
  then show ?case by simp
next
  case (Cons t ts)
  obtain a args' where args: "args = a # args'" "begun a t" "list_all2 begun args' ts"
    using Cons.prems(2) by (cases args) auto
  obtain t' s1 where h: "deserialize_variables st t = (t', s1)" by force
  obtain ts'' s2 where r: "mapState deserialize_variables s1 ts = (ts'', s2)" by force
  from Cons.prems h r have ts: "ts' = t' # ts''" "st1 = s2" by simp_all
  from Cons.prems(3) have d: "distinct (concat (map task1_refs ts))"
    "set (task1_refs t) \<inter> set (concat (map task1_refs ts)) = {}" "distinct (task1_refs t)"
    by auto
  have dt: "distinct (task2_refs t')" by (cases t') simp_all
  from variables_described[OF h args(2)] Cons.IH[OF r args(3) d(1)] d dt
  show ?case unfolding ts args by (simp; blast)
qed

lemma functions_built:
  assumes "deserialize_functions st t = (r, st1)" "described a t"
    and "\<forall>obj \<in> set (task2_refs t). obj < length (heap st)"
  shows "built st1 a r \<and> length (heap st1) = length (heap st)
         \<and> (\<forall>x. x \<notin> set (task2_refs t) \<longrightarrow>
               scriptObjectIdMap st1 x = scriptObjectIdMap st x \<and> heap st1 ! x = heap st ! x)"
proof (cases t)
  case (Finished r0)
  with assms show ?thesis
    by (cases r0; cases a) (auto split: if_splits)
next
  case (AwaitingFunctions obj h ps reply)
  with assms have d: "describeScriptObject_functions st obj h ps reply = (r, st1)"
    and a: "a = SScriptObject h" "h \<noteq> API_VALUE_INVALID_SCRIPT_OBJECT" and l: "obj < length (heap st)"
    by simp_all
  from d have "built st1 a r \<and> length (heap st1) = length (heap st)
         \<and> (\<forall>x. x \<noteq> obj \<longrightarrow>
               scriptObjectIdMap st1 x = scriptObjectIdMap st x \<and> heap st1 ! x = heap st ! x)"
    using a l by (cases rule: functions_cases) (auto simp: lookupObject_def)
  then show ?thesis by (simp add: AwaitingFunctions)
qed

lemma built_stable:
  assumes "built st a r" "length (heap st') = length (heap st)"
    and "\<forall>x. x \<notin> A \<longrightarrow> scriptObjectIdMap st' x = scriptObjectIdMap st x \<and> heap st' ! x = heap st ! x"
    and "\<forall>v. r = Inr (VObject v) \<longrightarrow> v \<notin> A"
  shows "built st' a r"
proof (cases r)
  case (Inl e)
  then show ?thesis by simp
next
  case (Inr v)
  with assms show ?thesis
    by (cases a; cases v) (auto simp: lookupObject_def split: if_splits)
qed


lemma mapState_functions:
  "mapState deserialize_functions st ts = (rs, st1) \<Longrightarrow> list_all2 described args ts \<Longrightarrow>
     distinct (concat (map task2_refs ts)) \<Longrightarrow>
     \<forall>obj \<in> set (concat (map task2_refs ts)). obj < length (heap st) \<Longrightarrow>
     list_all2 (built st1) args rs
     \<and> length (heap st1) = length (heap st)
     \<and> (\<forall>x. x \<notin> set (concat (map task2_refs ts)) \<longrightarrow>
           scriptObjectIdMap st1 x = scriptObjectIdMap st x \<and> heap st1 ! x = heap st ! x)
     \<and> (\<forall>v. Inr (VObject v) \<in> set rs \<longrightarrow> v \<in> set (concat (map task2_refs ts)))"
proof (induction ts arbitrary: st rs args st1)
  case Nil
  then show ?case by simp
next
  case (Cons t ts)
  obtain a args' where args: "args = a # args'" "described a t" "list_all2 described args' ts"
    using Cons.prems(2) by (cases args) auto
  obtain r s1 where h: "deserialize_functions st t = (r, s1)" by force
  obtain rs' s2 where rest: "mapState deserialize_functions s1 ts = (rs', s2)" by force
  from Cons.prems h rest have rs: "rs = r # rs'" "st1 = s2" by simp_all
  from Cons.prems(3) have d: "distinct (concat (map task2_refs ts))"
    "set (task2_refs t) \<inter> set (concat (map task2_refs ts)) = {}"
    by auto
  from Cons.prems(4) have l: "\<forall>obj \<in> set (task2_refs t). obj < length (heap st)"
    "\<forall>obj \<in> set (concat (map task2_refs ts)). obj < length (heap st)"
    by auto
  from functions_built[OF h args(2) l(1)]
  have 1: "built s1 a r" "length (heap s1) = length (heap st)"
    "\<forall>x. x \<notin> set (task2_refs t) \<longrightarrow>
               scriptObjectIdMap s1 x = scriptObjectIdMap st x \<and> heap s1 ! x = heap st ! x"
    by auto
  have own: "\<forall>v. r = Inr (VObject v) \<longrightarrow> v \<in> set (task2_refs t)"
  proof (cases t)
    case (Finished r0)
    with h args(2) show ?thesis by (cases a) (auto split: if_splits)
  next
    case (AwaitingFunctions obj h' ps reply)
    with h have "describeScriptObject_functions st obj h' ps reply = (r, s1)" by simp
    then show ?thesis
      by (cases rule: functions_cases) (simp_all add: AwaitingFunctions)
  qed
  from l(2) 1(2) have l2: "\<forall>obj \<in> set (concat (map task2_refs ts)). obj < length (heap s1)" by simp
  from Cons.IH[OF rest args(3) d(1) l2]
  have 2: "list_all2 (built s2) args' rs'" "length (heap s2) = length (heap s1)"
    "\<forall>x. x \<notin> set (concat (map task2_refs ts)) \<longrightarrow>
           scriptObjectIdMap s2 x = scriptObjectIdMap s1 x \<and> heap s2 ! x = heap s1 ! x"
    "\<forall>v. Inr (VObject v) \<in> set rs' \<longrightarrow> v \<in> set (concat (map task2_refs ts))"
    by auto
  have 3: "built s2 a r"
  proof (rule built_stable[OF 1(1) 2(2) 2(3)])
    show "\<forall>v. r = Inr (VObject v) \<longrightarrow> v \<notin> set (concat (map task2_refs ts))"
      using own d(2) by blast
  qed
  show ?case unfolding rs args using 1 2 3 own by auto
qed

lemma fulfilled_map_Inr: "fulfilled (map Inr vs) = Inr vs"
  by (induction vs) simp_all

lemma fulfilled_Inr: "fulfilled rs = Inr vs \<Longrightarrow> rs = map Inr vs"
proof (induction rs arbitrary: vs rule: fulfilled.induct)
  case 1
  then show ?case by simp
next
  case (2 e rs)
  then show ?case by simp
next
  case (3 v rs)
  then show ?case by (cases "fulfilled rs") auto
qed

lemma deserializeAll_decoded:
  assumes "deserializeAll st args = (Inr vs, st')"
  shows "list_all2 (decoded st') args vs"
proof -
  obtain ts1 st1 where a: "mapState deserialize_begin st args = (ts1, st1)" by force
  obtain ts2 st2 where b: "mapState deserialize_variables st1 ts1 = (ts2, st2)" by force
  obtain rs st3 where c: "mapState deserialize_functions st2 ts2 = (rs, st3)" by force
  from assms have st': "st' = st3" and f: "fulfilled rs = Inr vs"
    by (auto simp: deserializeAll_def a b c split: option.splits)
  from mapState_begin[OF a]
  have 1: "list_all2 begun args ts1" "distinct (concat (map task1_refs ts1))"
    "\<forall>r \<in> set (concat (map task1_refs ts1)). r < length (heap st1)"
    by auto
  from mapState_variables[OF b 1(1,2)]
  have 2: "list_all2 described args ts2" "distinct (concat (map task2_refs ts2))"
    "set (concat (map task2_refs ts2)) \<subseteq> set (concat (map task1_refs ts1))"
    "heap st2 = heap st1"
    by auto
  from 1(3) 2(3,4) have l: "\<forall>obj \<in> set (concat (map task2_refs ts2)). obj < length (heap st2)"
    by auto
  from mapState_functions[OF c 2(1,2) l]
  have 3: "list_all2 (built st3) args rs" by simp
  from f have "rs = map Inr vs" by (rule fulfilled_Inr)
  with 3 have "list_all2 (\<lambda>a v. built st3 a (Inr v)) args vs"
    by (simp add: list_all2_map2)
  then show ?thesis by (simp add: st')
qed

subsection \<open>Dispatching a callback\<close>

lemma begin_invoked: "invoked (snd (deserialize_begin st v)) = invoked st"
  by (cases v) (simp_all add: describeScriptObject_begin_def jrpc_call_def Let_def)

lemma variables_invoked: "invoked (snd (deserialize_variables st t)) = invoked st"
  by (cases t)
    (simp_all add: describeScriptObject_variables_def jrpc_call_def Let_def split: Response.splits)

lemma functions_invoked: "invoked (snd (deserialize_functions st t)) = invoked st"
  by (cases t)
    (simp_all add: describeScriptObject_functions_def Let_def
      split: Response.splits prod.splits option.splits)

lemma deserializeAll_invoked: "invoked (snd (deserializeAll st args)) = invoked st"
  by (simp add: deserializeAll_def split_def Let_def
      mapState_field[where g=invoked, OF begin_invoked]
      mapState_field[where g=invoked, OF variables_invoked]
      mapState_field[where g=invoked, OF functions_invoked])

text \<open>
  C3, as the claim states it, fails: the function \<open>f0\<close> of the handle 1 returns 42, whose
  encoding is the number 42, and the reply to the callback is \<^verbatim>\<open>true\<close>.
\<close>

theorem callback_reply_counterexample:
  "findScriptObject exampleManager 1 = Some 0
   \<and> lookupObject exampleManager 0 = Some (Function exampleFunction)
   \<and> exampleFunction [] = Inr (VNum 42)
   \<and> serialize exampleManager (VNum 42) = Inr (SNum 42)
   \<and> fst (callbackReply exampleManager 1 []) = Inr (SBool True)
   \<and> invoked (snd (callbackReply exampleManager 1 [])) = [(0, [])]"
  by (simp add: example_defs findScriptObject_def lookupObject_def exampleFunction_def
      callbackReply_def handleAPICallback_def deserializeAll_def)

text \<open>
  C3, amended. When the handle of an inbound callback is resolved to a local function, all
  the arguments are decoded. If a decoding fails, the reply is that failure and the
  function is not applied. Otherwise each argument is decoded as the codec says, the
  function is applied once, to the decoded arguments, and the reply is \<^verbatim>\<open>true\<close> when it
  returns, whatever it returns, and its failure when it throws: the promise of the handler
  is a \<^verbatim>\<open>Promise<void>\<close>, and the value returned is dropped.
\<close>

theorem callback_dispatch:
  assumes "findScriptObject st functionId = Some fn"
    and "lookupObject st fn = Some (Function f)"
  shows "\<exists>decoding st1.
           deserializeAll st args = (decoding, st1)
           \<and> (case decoding of
                Inl e \<Rightarrow> callbackReply st functionId args = (Inl e, st1) \<and> invoked st1 = invoked st
              | Inr functionArguments \<Rightarrow>
                  list_all2 (decoded st1) args functionArguments
                  \<and> callbackReply st functionId args =
                      (case f functionArguments of Inl e \<Rightarrow> Inl e | Inr returned \<Rightarrow> Inr (SBool True),
                       st1\<lparr>invoked := invoked st @ [(fn, functionArguments)]\<rparr>))"
proof -
  obtain decoding st1 where d: "deserializeAll st args = (decoding, st1)" by force
  have i: "invoked st1 = invoked st" using deserializeAll_invoked[of st args] d by simp
  show ?thesis
  proof (cases decoding)
    case (Inl e)
    with assms d i show ?thesis
      by (simp add: callbackReply_def handleAPICallback_def)
  next
    case (Inr functionArguments)
    with d have "list_all2 (decoded st1) args functionArguments"
      using deserializeAll_decoded by blast
    with assms d i Inr show ?thesis
      by (cases "f functionArguments") (simp_all add: callbackReply_def handleAPICallback_def)
  qed
qed

theorem callback_dispatch_witness:
  "fst (callbackReply exampleManager 1 [SNum 5, SScriptObject 123]) = Inr (SBool True)
   \<and> invoked (snd (callbackReply exampleManager 1 [SNum 5, SScriptObject 123])) = [(0, [VNum 5, VObject 3])]
   \<and> decoded (snd (deserializeAll exampleManager [SNum 5, SScriptObject 123])) (SScriptObject 123) (VObject 3)"
proof -
  have a: "findScriptObject exampleManager 1 = Some 0"
    by (simp add: example_defs findScriptObject_def)
  have b: "lookupObject exampleManager 0 = Some (Function exampleFunction)"
    by (simp add: example_defs lookupObject_def)
  have c: "fst (deserializeAll exampleManager [SNum 5, SScriptObject 123]) = Inr [VNum 5, VObject 3]"
    "invoked exampleManager = []"
    by (simp_all add: example_defs deserializeAll_def describeScriptObject_begin_def
        describeScriptObject_variables_def describeScriptObject_functions_def iterate_def defineMembers_def
        defineProperty_def API_SERVER_METHOD_DESCRIBE_VARIABLES_def
        API_SERVER_METHOD_DESCRIBE_FUNCTIONS_def)
  from callback_dispatch [OF a b, of "[SNum 5, SScriptObject 123]"]
  obtain decoding st1 where d: "deserializeAll exampleManager [SNum 5, SScriptObject 123] = (decoding, st1)"
    and e: "case decoding of
                Inl e \<Rightarrow> callbackReply exampleManager 1 [SNum 5, SScriptObject 123] = (Inl e, st1) \<and> invoked st1 = invoked exampleManager
              | Inr functionArguments \<Rightarrow>
                  list_all2 (decoded st1) [SNum 5, SScriptObject 123] functionArguments
                  \<and> callbackReply exampleManager 1 [SNum 5, SScriptObject 123] =
                      (case exampleFunction functionArguments of Inl e \<Rightarrow> Inl e | Inr returned \<Rightarrow> Inr (SBool True),
                       st1\<lparr>invoked := invoked exampleManager @ [(0, functionArguments)]\<rparr>)"
    by blast
  from c d have "decoding = Inr [VNum 5, VObject 3]" by simp
  with e d c show ?thesis
    by (simp add: exampleFunction_def API_VALUE_INVALID_SCRIPT_OBJECT_def)
qed

subsection \<open>The members of a proxy\<close>

lemma map_of_proxyMembers:
  "distinct (P @ M) \<Longrightarrow>
   map_of (proxyMembers target P M) name =
     (if name \<in> set P then Some (Accessor True target name)
      else if name \<in> set M then Some (Method True target name)
      else None)"
proof -
  have a: "map_of (map (\<lambda>p. (p, Accessor True target p)) P) name
           = (if name \<in> set P then Some (Accessor True target name) else None)"
    by (induction P) auto
  have b: "map_of (map (\<lambda>m. (m, Method True target m)) M) name
           = (if name \<in> set M then Some (Method True target name) else None)"
    by (induction M) auto
  show ?thesis
    by (simp add: proxyMembers_def map_of_append a b map_add_def)
qed

lemma assign_registered:
  "scriptObjectIdMap st r \<noteq> None \<Longrightarrow> scriptObjectIdMap (assignScriptObjectId st r') r \<noteq> None"
  by (simp add: assignScriptObjectId_def)

lemma assignAll_registered:
  "scriptObjectIdMap st r \<noteq> None \<Longrightarrow> scriptObjectIdMap (assignAll st rs) r \<noteq> None"
  unfolding assignAll_def
proof (induction rs arbitrary: st)
  case Nil
  then show ?case by simp
next
  case (Cons x rs)
  from Cons.IH[OF assign_registered[OF Cons.prems, of x]] show ?case by simp
qed

lemma serialize_idMap:
  "scriptObjectIdMap st = scriptObjectIdMap st' \<Longrightarrow> heap st = heap st' \<Longrightarrow>
   serialize st v = serialize st' v"
  by (cases v) (auto simp: unexpectedValue_def lookupObject_def split: option.splits)

lemma serializeAll_idMap:
  "scriptObjectIdMap st = scriptObjectIdMap st' \<Longrightarrow> heap st = heap st' \<Longrightarrow>
   serializeAll st args = serializeAll st' args"
  by (induction args) (simp_all add: serialize_idMap[of st st'] cong: sum.case_cong)

lemma assignAll_registers:
  "r \<in> set rs \<Longrightarrow> scriptObjectIdMap (assignAll st rs) r \<noteq> None"
  unfolding assignAll_def
proof (induction rs arbitrary: st)
  case Nil
  then show ?case by simp
next
  case (Cons x rs)
  show ?case
  proof (cases "r = x")
    case True
    have "scriptObjectIdMap (assignScriptObjectId st x) x \<noteq> None"
      by (simp add: assignScriptObjectId_def)
    from assignAll_registered[OF this, of rs] True show ?thesis
      by (simp add: assignAll_def)
  next
    case False
    with Cons show ?thesis by simp
  qed
qed

lemma assignAll_kept:
  "scriptObjectIdMap st r = Some h \<Longrightarrow> scriptObjectIdMap (assignAll st rs) r = Some h"
  using keeps_assignAll[of "Suc r" st rs] by (simp add: keeps_def)

lemma assign_unregistered:
  "scriptObjectIdMap (assignScriptObjectId st x) r = None \<Longrightarrow> scriptObjectIdMap st r = None \<and> r \<noteq> x"
  by (auto simp: assignScriptObjectId_def split: if_splits)

lemma assignAll_unregistered:
  "scriptObjectIdMap (assignAll st rs) r = None \<Longrightarrow> scriptObjectIdMap st r = None \<and> r \<notin> set rs"
  using assignAll_registered[of st r rs] assignAll_registers[of r rs st] by blast

lemma assignAll_new:
  "scriptObjectIdMap st r = None \<Longrightarrow> r \<notin> set rs \<Longrightarrow> scriptObjectIdMap (assignAll st rs) r = None"
  unfolding assignAll_def
  by (induction rs arbitrary: st) (auto simp: assignScriptObjectId_def)

lemma serializeAll_registered:
  "\<forall>r. VObject r \<in> set args \<longrightarrow> scriptObjectIdMap st r \<noteq> None \<Longrightarrow>
   \<exists>xs. serializeAll st args = Inr xs"
proof (induction args)
  case Nil
  show ?case by simp
next
  case (Cons a args)
  then obtain xs where xs: "serializeAll st args = Inr xs" by auto
  from Cons.prems obtain x where "serialize st a = Inr x"
    by (cases a) auto
  with xs show ?case by simp
qed

text \<open>A serialization of arguments that fails, fails at an object that has no handle.\<close>

lemma serializeAll_unregistered:
  "VObject r \<in> set args \<Longrightarrow> scriptObjectIdMap st r = None \<Longrightarrow>
   \<exists>r'. VObject r' \<in> set args \<and> scriptObjectIdMap st r' = None
        \<and> serializeAll st args = Inl (unexpectedValue st r')"
proof (induction args)
  case Nil
  then show ?case by simp
next
  case (Cons a args)
  show ?case
  proof (cases "serialize st a")
    case (Inl e)
    then obtain r' where "a = VObject r'" "scriptObjectIdMap st r' = None" "e = unexpectedValue st r'"
      by (cases a) (auto split: option.splits)
    with Inl show ?thesis by (intro exI[of _ r']) simp
  next
    case (Inr x)
    with Cons.prems have "VObject r \<in> set args" by (cases a) auto
    from Cons.IH[OF this Cons.prems(2)] obtain r' where
      "VObject r' \<in> set args" "scriptObjectIdMap st r' = None"
      "serializeAll st args = Inl (unexpectedValue st r')" by blast
    with Inr show ?thesis by (intro exI[of _ r']) simp
  qed
qed

text \<open>
  What the invocation of a method call comes to: the instances of \<^verbatim>\<open>Object\<close> among the
  arguments are given handles, and either the serialization of an argument throws, the
  frame is removed again and nothing has been sent, or the request is sent under the frame.
\<close>

lemma send_cases:
  "callAPIMethod_send st target methodName args =
     (case serializeAll (assignAll st (objectArguments st args)) args of
        Inl e \<Rightarrow> (Inl e, assignAll st (objectArguments st args))
      | Inr xs \<Rightarrow>
          (Inr (remote st (Suc (length (sent st)))
                  (Request ''execute'' (SScriptObject target # SStr methodName # xs))),
           (assignAll st (objectArguments st args))
             \<lparr>scriptObjectListStack := objectArguments st args # scriptObjectListStack st,
               sent := sent st @ [Request ''execute'' (SScriptObject target # SStr methodName # xs)]\<rparr>))"
proof -
  let ?st1 = "assignAll st (objectArguments st args)"
  let ?st2 = "?st1\<lparr>scriptObjectListStack := objectArguments st args # scriptObjectListStack ?st1\<rparr>"
  have same: "serializeAll ?st2 args = serializeAll ?st1 args"
    by (rule serializeAll_idMap) simp_all
  show ?thesis
  proof (cases "serializeAll ?st1 args")
    case (Inl e)
    with same have "callAPIMethod_send st target methodName args
                    = (Inl e, ?st2\<lparr>scriptObjectListStack := tl (scriptObjectListStack ?st2)\<rparr>)"
      by (simp add: callAPIMethod_send_def Let_def)
    with Inl show ?thesis by simp
  next
    case (Inr xs)
    with same have "callAPIMethod_send st target methodName args =
          (let (reply, st3) = jrpc_call ?st2 API_SERVER_METHOD_CALL_FUNCTION
                                (SScriptObject target # SStr methodName # xs)
           in (Inr reply, st3))"
      by (simp add: callAPIMethod_send_def Let_def)
    with Inr show ?thesis
      by (simp add: jrpc_call_def Let_def assignAll_fields assignAll_stack API_SERVER_METHOD_CALL_FUNCTION_def)
  qed
qed

text \<open>
  The serialization in a method call does not fail when every object among the arguments
  is an instance of \<^verbatim>\<open>Object\<close>, which is given a handle just before, or has a handle
  already. The request is sent.
\<close>

lemma send_succeeds:
  assumes "\<forall>r. VObject r \<in> set args \<longrightarrow> instanceOfObject st r \<or> scriptObjectIdMap st r \<noteq> None"
  shows "\<exists>xs. serializeAll (assignAll st (objectArguments st args)) args = Inr xs
        \<and> callAPIMethod_send st target methodName args =
            (Inr (remote st (Suc (length (sent st)))
                    (Request ''execute'' (SScriptObject target # SStr methodName # xs))),
             (assignAll st (objectArguments st args))
               \<lparr>scriptObjectListStack := objectArguments st args # scriptObjectListStack st,
                 sent := sent st @ [Request ''execute'' (SScriptObject target # SStr methodName # xs)]\<rparr>)"
proof -
  let ?st1 = "assignAll st (objectArguments st args)"
  have "\<forall>r. VObject r \<in> set args \<longrightarrow> scriptObjectIdMap ?st1 r \<noteq> None"
    using assms assignAll_registers[of _ "objectArguments st args" st]
      assignAll_registered[of st _ "objectArguments st args"]
    by (auto simp: objectArguments_set)
  from serializeAll_registered[OF this] obtain xs where xs: "serializeAll ?st1 args = Inr xs" by blast
  then show ?thesis using send_cases[of st target methodName args] by simp
qed

lemma send_fails:
  assumes "VObject r \<in> set args" "scriptObjectIdMap st r = None" "\<not> instanceOfObject st r"
  shows "\<exists>r'. VObject r' \<in> set args \<and> scriptObjectIdMap st r' = None \<and> \<not> instanceOfObject st r'
          \<and> callAPIMethod_send st target methodName args
              = (Inl (unexpectedValue st r'), assignAll st (objectArguments st args))"
proof -
  let ?st1 = "assignAll st (objectArguments st args)"
  from assms have "scriptObjectIdMap ?st1 r = None"
    by (intro assignAll_new) (simp_all add: objectArguments_set)
  from serializeAll_unregistered[OF assms(1) this] obtain r' where
    r': "VObject r' \<in> set args" "scriptObjectIdMap ?st1 r' = None"
      "serializeAll ?st1 args = Inl (unexpectedValue ?st1 r')" by blast
  from assignAll_unregistered[OF r'(2)] r'(1)
  have "scriptObjectIdMap st r' = None" "\<not> instanceOfObject st r'"
    by (simp_all add: objectArguments_set)
  moreover have "unexpectedValue ?st1 r' = unexpectedValue st r'"
    by (simp add: unexpectedValue_def lookupObject_def assignAll_fields)
  ultimately show ?thesis
    using r' send_cases[of st target methodName args] by (intro exI[of _ r']) simp
qed

text \<open>
  C4, amended. An object or function that has no handle in the identity map when it is
  serialized is not serialized: the serialization fails, with the error of an unexpected
  value, or with the TypeError of building that error's message when the value is an
  object without a prototype, which has no conversion to a string. The call in progress
  fails with that error before anything is sent: the write of a property to such a value
  leaves the state as it is, and a method call carrying such a value among its arguments,
  which is one that is not an instance of \<^verbatim>\<open>Object\<close> and so is given no handle by the call
  either, ends with nothing sent and the frames as before. The frames play no part: a
  reference that has a handle is serialized to that handle, whether a frame holds it or
  not.
\<close>

theorem serialize_without_handle_fails:
  "(scriptObjectIdMap st r = None \<longrightarrow>
      serialize st (VObject r) = Inl (unexpectedValue st r)
      \<and> unexpectedValue st r = (if lookupObject st r = Some NullPrototype then TypeError else UnexpectedValue)
      \<and> createSetter st target propertyName (VObject r) = (Inl (unexpectedValue st r), st))
   \<and> (VObject r \<in> set args \<and> scriptObjectIdMap st r = None \<and> \<not> instanceOfObject st r \<longrightarrow>
        (\<exists>r'. VObject r' \<in> set args \<and> scriptObjectIdMap st r' = None \<and> \<not> instanceOfObject st r'
              \<and> createMethod st target methodName args
                  = (Inl (unexpectedValue st r'), assignAll st (objectArguments st args)))
        \<and> sent (assignAll st (objectArguments st args)) = sent st
        \<and> scriptObjectListStack (assignAll st (objectArguments st args)) = scriptObjectListStack st)
   \<and> (\<forall>h. scriptObjectIdMap st r = Some h \<longrightarrow> serialize st (VObject r) = Inr (SScriptObject h))"
proof (intro conjI impI allI)
  assume "scriptObjectIdMap st r = None"
  then show "serialize st (VObject r) = Inl (unexpectedValue st r)" by simp
  show "unexpectedValue st r = (if lookupObject st r = Some NullPrototype then TypeError else UnexpectedValue)"
    by (simp add: unexpectedValue_def split: option.splits Object.splits)
  show "createSetter st target propertyName (VObject r) = (Inl (unexpectedValue st r), st)"
    using \<open>scriptObjectIdMap st r = None\<close> by (simp add: createSetter_def)
next
  assume a: "VObject r \<in> set args \<and> scriptObjectIdMap st r = None \<and> \<not> instanceOfObject st r"
  then obtain r' where "VObject r' \<in> set args" "scriptObjectIdMap st r' = None" "\<not> instanceOfObject st r'"
    "callAPIMethod_send st target methodName args
       = (Inl (unexpectedValue st r'), assignAll st (objectArguments st args))"
    using send_fails[of r args st target methodName] by blast
  then show "\<exists>r'. VObject r' \<in> set args \<and> scriptObjectIdMap st r' = None \<and> \<not> instanceOfObject st r'
              \<and> createMethod st target methodName args
                  = (Inl (unexpectedValue st r'), assignAll st (objectArguments st args))"
    by (intro exI[of _ r']) (simp add: createMethod_def callAPIMethod_def)
  show "sent (assignAll st (objectArguments st args)) = sent st"
    by (simp add: assignAll_fields)
  show "scriptObjectListStack (assignAll st (objectArguments st args)) = scriptObjectListStack st"
    by (simp add: assignAll_stack)
next
  fix h assume "scriptObjectIdMap st r = Some h"
  then show "serialize st (VObject r) = Inr (SScriptObject h)" by simp
qed

theorem serialize_without_handle_fails_witness:
  "serialize exoticManager (VObject 0) = Inl TypeError
   \<and> createSetter exoticManager 123 ''n'' (VObject 0) = (Inl TypeError, exoticManager)
   \<and> serialize exoticManager (VObject 1) = Inl UnexpectedValue
   \<and> createMethod exoticManager 123 ''foo'' [VNum 5, VObject 1] = (Inl UnexpectedValue, exoticManager)
   \<and> serialize plainManager (VObject 0) = Inl UnexpectedValue
   \<and> serialize firstForgotten (VObject 0) = Inr (SScriptObject 1)"
proof -
  have a: "scriptObjectIdMap exoticManager 0 = None" "scriptObjectIdMap exoticManager 1 = None"
    "lookupObject exoticManager 0 = Some NullPrototype" "lookupObject exoticManager 1 = Some OtherRealm"
    "\<not> instanceOfObject exoticManager 1"
    "assignAll exoticManager (objectArguments exoticManager [VNum 5, VObject 1]) = exoticManager"
    by (simp_all add: exoticManager_def example_defs)
  have b: "scriptObjectIdMap plainManager 0 = None" "lookupObject plainManager 0 = Some (Function exampleFunction)"
    by (simp_all add: example_defs)
  have c: "scriptObjectIdMap firstForgotten 0 = Some 1"
    by (simp add: example_defs)
  have d: "VObject r' \<in> set [VNum 5, VObject (Suc 0)] \<Longrightarrow> r' = Suc 0" for r'
    by simp
  show ?thesis
    using serialize_without_handle_fails [of exoticManager 0 123 "''n''"]
      serialize_without_handle_fails [of exoticManager 1 123 "''n''" "[VNum 5, VObject 1]" "''foo''"]
      serialize_without_handle_fails [of plainManager 0]
      serialize_without_handle_fails [of firstForgotten 0] a b c d
    by (auto simp del: serialize.simps)
qed

lemma keeps_sent: "keeps n st st' \<Longrightarrow> \<exists>more. sent st' = sent st @ more"
  by (simp add: keeps_def)

lemma deserialize_decoded:
  assumes "deserialize st a = (Inr v, st')"
  shows "decoded st' a v"
proof (cases "\<exists>h. a = SScriptObject h \<and> h \<noteq> API_VALUE_INVALID_SCRIPT_OBJECT")
  case True
  then obtain h where h: "a = SScriptObject h" "h \<noteq> API_VALUE_INVALID_SCRIPT_OBJECT" by blast
  from deserialize_scriptObject[OF h(2) assms[unfolded h(1)]] h
  show ?thesis by (auto simp: lookupObject_def)
next
  case False
  with assms show ?thesis by (cases a) (auto simp: deserialize_def)
qed

text \<open>The three closures of a proxy, from the request to the outcome.\<close>

lemma createGetter_round_trip:
  "createGetter st target name =
     (case remote st (Suc (length (sent st))) (Request ''get'' [SScriptObject target, SStr name]) of
        Failure e \<Rightarrow>
          (Inl (RemoteError e), st\<lparr>sent := sent st @ [Request ''get'' [SScriptObject target, SStr name]]\<rparr>)
      | Names ns \<Rightarrow>
          (Inl UnexpectedValue, st\<lparr>sent := sent st @ [Request ''get'' [SScriptObject target, SStr name]]\<rparr>)
      | Result x \<Rightarrow>
          deserialize (st\<lparr>sent := sent st @ [Request ''get'' [SScriptObject target, SStr name]]\<rparr>) x)"
  by (simp add: createGetter_def jrpc_call_def Let_def awaitValue_def deserialize_def
      API_SERVER_METHOD_GET_VALUE_def split: Response.splits)

lemma createSetter_round_trip:
  "createSetter st target name w =
     (case serialize st w of
        Inl e \<Rightarrow> (Inl e, st)
      | Inr x \<Rightarrow>
          (case remote st (Suc (length (sent st))) (Request ''set'' [SScriptObject target, SStr name, x]) of
             Failure e \<Rightarrow>
               (Inl (RemoteError e),
                st\<lparr>sent := sent st @ [Request ''set'' [SScriptObject target, SStr name, x]]\<rparr>)
           | _ \<Rightarrow>
               (Inr (), st\<lparr>sent := sent st @ [Request ''set'' [SScriptObject target, SStr name, x]]\<rparr>)))"
  by (simp add: createSetter_def jrpc_call_def Let_def API_SERVER_METHOD_SET_VALUE_def
      split: sum.splits Response.splits)

lemma createMethod_round_trip:
  "createMethod st target name args =
     (case serializeAll (assignAll st (objectArguments st args)) args of
        Inl e \<Rightarrow> (Inl e, assignAll st (objectArguments st args))
      | Inr xs \<Rightarrow>
          (case remote st (Suc (length (sent st))) (Request ''execute'' (SScriptObject target # SStr name # xs)) of
             Failure e \<Rightarrow>
               (Inl (RemoteError e),
                (assignAll st (objectArguments st args))
                  \<lparr>sent := sent st @ [Request ''execute'' (SScriptObject target # SStr name # xs)]\<rparr>)
           | Names ns \<Rightarrow>
               (Inl UnexpectedValue,
                (assignAll st (objectArguments st args))
                  \<lparr>sent := sent st @ [Request ''execute'' (SScriptObject target # SStr name # xs)]\<rparr>)
           | Result x \<Rightarrow>
               (fst (deserialize
                       ((assignAll st (objectArguments st args))
                          \<lparr>scriptObjectListStack := objectArguments st args # scriptObjectListStack st,
                            sent := sent st @ [Request ''execute'' (SScriptObject target # SStr name # xs)]\<rparr>) x),
                (snd (deserialize
                       ((assignAll st (objectArguments st args))
                          \<lparr>scriptObjectListStack := objectArguments st args # scriptObjectListStack st,
                            sent := sent st @ [Request ''execute'' (SScriptObject target # SStr name # xs)]\<rparr>) x))
                  \<lparr>scriptObjectListStack := scriptObjectListStack st\<rparr>)))"
proof (cases "serializeAll (assignAll st (objectArguments st args)) args")
  case (Inl e)
  then show ?thesis
    using send_cases[of st target name args] by (simp add: createMethod_def callAPIMethod_def)
next
  case (Inr xs)
  let ?request = "Request ''execute'' (SScriptObject target # SStr name # xs)"
  let ?reply = "remote st (Suc (length (sent st))) ?request"
  let ?st1 = "assignAll st (objectArguments st args)"
  let ?st2 = "?st1\<lparr>scriptObjectListStack := objectArguments st args # scriptObjectListStack st,
                   sent := sent st @ [?request]\<rparr>"
  have c: "createMethod st target name args = callAPIMethod_settle ?st2 ?reply"
    using Inr send_cases[of st target name args] by (simp add: createMethod_def callAPIMethod_def)
  have s1: "?st1\<lparr>sent := sent st @ [?request], scriptObjectListStack := scriptObjectListStack st\<rparr>
            = ?st1\<lparr>sent := sent st @ [?request]\<rparr>"
    using assignAll_stack[of st "objectArguments st args"] by (cases ?st1) simp
  show ?thesis
  proof (cases ?reply)
    case (Failure e)
    with c Inr s1 show ?thesis by (simp add: callAPIMethod_settle_def awaitValue_def)
  next
    case (Names ns)
    with c Inr s1 show ?thesis by (simp add: callAPIMethod_settle_def awaitValue_def deserialize_def)
  next
    case (Result x)
    have "scriptObjectListStack (snd (deserialize ?st2 x)) = objectArguments st args # scriptObjectListStack st"
      using deserialize_stack[of ?st2 x] by simp
    with c Inr Result show ?thesis
      by (simp add: callAPIMethod_settle_def awaitValue_def split_def Let_def)
  qed
qed

text \<open>
  C7. The object decoded from a handle, when the peer has answered the two describe calls
  with the property names \<open>P\<close> and the method names \<open>M\<close>, is a sealed object whose own
  members are those named in \<open>P\<close> and \<open>M\<close>, all enumerable, and no other, and it is that
  same object after any further steps of the session.
  \<^item> A name of \<open>P\<close> is an accessor whose getter and setter are the closures for the handle and
  the name. The getter sends \<^verbatim>\<open>get\<close> for the handle and the name and ends with what the
  reply makes of it: the error of the reply, or the reply decoded, which when it succeeds is
  a decoding of the value replied. The setter serializes the value; when that fails
  nothing is sent; otherwise it sends \<^verbatim>\<open>set\<close> for the handle, the name and the serialized
  value, and ends with the error of the reply or with nothing.
  \<^item> A name of \<open>M\<close> is a method whose value is the closure for the handle and the name. It
  gives handles to the instances of \<^verbatim>\<open>Object\<close> among its arguments and serializes the
  arguments; when that fails nothing is sent; otherwise it sends \<^verbatim>\<open>execute\<close> for the
  handle, the name and the serialized arguments, under a frame of those instances, and ends
  with the error of the reply or with the reply decoded, the frames being as before.
  \<^item> No other name is an own member.
\<close>

theorem proxy_members:
  assumes "target \<noteq> API_VALUE_INVALID_SCRIPT_OBJECT"
    and "deserialize st (SScriptObject target) = (Inr v, st')"
    and "remote st (Suc (length (sent st))) (Request ''listProperties'' [SScriptObject target]) = Names P"
    and "remote st (Suc (Suc (length (sent st)))) (Request ''listMethods'' [SScriptObject target]) = Names M"
    and "step\<^sup>*\<^sup>* st' s"
  shows "\<exists>proxy. v = VObject proxy
           \<and> lookupObject s proxy = Some (Object (proxyMembers target P M) True)
           \<and> enumerableNames s proxy = P @ M
           \<and> distinct (P @ M)
           \<and> (\<forall>name \<in> set P.
                 ownProperty s proxy name = Some (Accessor True target name)
                 \<and> createGetter s target name =
                     (case remote s (Suc (length (sent s))) (Request ''get'' [SScriptObject target, SStr name]) of
                        Failure e \<Rightarrow>
                          (Inl (RemoteError e),
                           s\<lparr>sent := sent s @ [Request ''get'' [SScriptObject target, SStr name]]\<rparr>)
                      | Names ns \<Rightarrow>
                          (Inl UnexpectedValue,
                           s\<lparr>sent := sent s @ [Request ''get'' [SScriptObject target, SStr name]]\<rparr>)
                      | Result x \<Rightarrow>
                          deserialize (s\<lparr>sent := sent s @ [Request ''get'' [SScriptObject target, SStr name]]\<rparr>) x)
                 \<and> (\<forall>x w s'. remote s (Suc (length (sent s))) (Request ''get'' [SScriptObject target, SStr name])
                                = Result x
                              \<and> createGetter s target name = (Inr w, s') \<longrightarrow> decoded s' x w)
                 \<and> (\<forall>w. createSetter s target name w =
                       (case serialize s w of
                          Inl e \<Rightarrow> (Inl e, s)
                        | Inr x \<Rightarrow>
                            (case remote s (Suc (length (sent s)))
                                    (Request ''set'' [SScriptObject target, SStr name, x]) of
                               Failure e \<Rightarrow>
                                 (Inl (RemoteError e),
                                  s\<lparr>sent := sent s @ [Request ''set'' [SScriptObject target, SStr name, x]]\<rparr>)
                             | _ \<Rightarrow>
                                 (Inr (),
                                  s\<lparr>sent := sent s @ [Request ''set'' [SScriptObject target, SStr name, x]]\<rparr>)))))
           \<and> (\<forall>name \<in> set M.
                 ownProperty s proxy name = Some (Method True target name)
                 \<and> (\<forall>args. createMethod s target name args =
                       (case serializeAll (assignAll s (objectArguments s args)) args of
                          Inl e \<Rightarrow> (Inl e, assignAll s (objectArguments s args))
                        | Inr xs \<Rightarrow>
                            (case remote s (Suc (length (sent s)))
                                    (Request ''execute'' (SScriptObject target # SStr name # xs)) of
                               Failure e \<Rightarrow>
                                 (Inl (RemoteError e),
                                  (assignAll s (objectArguments s args))
                                    \<lparr>sent := sent s @ [Request ''execute'' (SScriptObject target # SStr name # xs)]\<rparr>)
                             | Names ns \<Rightarrow>
                                 (Inl UnexpectedValue,
                                  (assignAll s (objectArguments s args))
                                    \<lparr>sent := sent s @ [Request ''execute'' (SScriptObject target # SStr name # xs)]\<rparr>)
                             | Result x \<Rightarrow>
                                 (fst (deserialize
                                         ((assignAll s (objectArguments s args))
                                            \<lparr>scriptObjectListStack := objectArguments s args # scriptObjectListStack s,
                                              sent := sent s @ [Request ''execute'' (SScriptObject target # SStr name # xs)]\<rparr>) x),
                                  (snd (deserialize
                                         ((assignAll s (objectArguments s args))
                                            \<lparr>scriptObjectListStack := objectArguments s args # scriptObjectListStack s,
                                              sent := sent s @ [Request ''execute'' (SScriptObject target # SStr name # xs)]\<rparr>) x))
                                    \<lparr>scriptObjectListStack := scriptObjectListStack s\<rparr>)))))
           \<and> (\<forall>name. name \<notin> set P \<union> set M \<longrightarrow> ownProperty s proxy name = None)"
proof -
  let ?proxy = "length (heap st)"
  from deserialize_scriptObject[OF assms(1,2)] assms(3,4)
  have v: "v = VObject ?proxy" and d: "distinct (P @ M)"
    and h: "heap st' = heap st @ [Object (proxyMembers target P M) True]"
    by (auto simp: iterate_def)
  from steps_keeps[OF assms(5)] h
  have "length (heap st') \<le> length (heap s)" "heap s ! ?proxy = heap st' ! ?proxy"
    by (simp_all add: keeps_def)
  with h have obj: "lookupObject s ?proxy = Some (Object (proxyMembers target P M) True)"
    by (simp add: lookupObject_def)
  have own: "ownProperty s ?proxy name =
               (if name \<in> set P then Some (Accessor True target name)
                else if name \<in> set M then Some (Method True target name) else None)" for name
    by (simp add: ownProperty_def obj map_of_proxyMembers[OF d])
  have names: "enumerableNames s ?proxy = P @ M"
    by (simp add: enumerableNames_def obj proxyMembers_def comp_def split_def)
  have dec: "decoded s' x w"
    if a: "remote s (Suc (length (sent s))) (Request ''get'' [SScriptObject target, SStr name]) = Result x"
      and b: "createGetter s target name = (Inr w, s')" for name x w s'
  proof -
    from b have "deserialize (s\<lparr>sent := sent s @ [Request ''get'' [SScriptObject target, SStr name]]\<rparr>) x
                 = (Inr w, s')"
      unfolding createGetter_round_trip a by simp
    then show ?thesis by (rule deserialize_decoded)
  qed
  have P: "ownProperty s ?proxy name = Some (Accessor True target name)" if "name \<in> set P" for name
    using that by (simp add: own)
  have M: "ownProperty s ?proxy name = Some (Method True target name)" if "name \<in> set M" for name
    using that d by (auto simp: own)
  have N: "ownProperty s ?proxy name = None" if "name \<notin> set P \<union> set M" for name
    using that by (simp add: own)
  show ?thesis
    apply (intro exI[of _ ?proxy] conjI ballI allI)
    subgoal by (rule v)
    subgoal by (rule obj)
    subgoal by (rule names)
    subgoal by (rule d)
    subgoal for name by (rule P)
    subgoal for name by (rule createGetter_round_trip)
    subgoal for name x w s' using dec[of name x w s'] by blast
    subgoal for name w by (rule createSetter_round_trip)
    subgoal for name by (rule M)
    subgoal for name args by (rule createMethod_round_trip)
    subgoal for name using N[of name] by blast
    done
qed

theorem proxy_members_witness:
  "fst (deserialize plainManager (SScriptObject 123)) = Inr (VObject 3)
   \<and> lookupObject rootDecoded 3 = Some (Object (proxyMembers 123 [''n''] [''registerCallback'', ''foo'']) True)
   \<and> enumerableNames rootDecoded 3 = [''n'', ''registerCallback'', ''foo'']
   \<and> ownProperty rootDecoded 3 ''n'' = Some (Accessor True 123 ''n'')
   \<and> fst (createGetter rootDecoded 123 ''n'') = Inr (VNum 7)
   \<and> sent (snd (createGetter rootDecoded 123 ''n''))
       = sent rootDecoded @ [Request ''get'' [SScriptObject 123, SStr ''n'']]
   \<and> ownProperty rootDecoded 3 ''foo'' = Some (Method True 123 ''foo'')
   \<and> ownProperty rootDecoded 3 ''toString'' = None"
proof -
  have a: "(123::int) \<noteq> API_VALUE_INVALID_SCRIPT_OBJECT"
    by (simp add: API_VALUE_INVALID_SCRIPT_OBJECT_def)
  have b: "fst (deserialize plainManager (SScriptObject 123)) = Inr (VObject 3)"
    by (simp add: example_defs describeScriptObject_begin_def describeScriptObject_variables_def
        describeScriptObject_functions_def iterate_def defineMembers_def defineProperty_def
        API_SERVER_METHOD_DESCRIBE_VARIABLES_def API_SERVER_METHOD_DESCRIBE_FUNCTIONS_def)
  then have c: "deserialize plainManager (SScriptObject 123) = (Inr (VObject 3), rootDecoded)"
    unfolding rootDecoded_def by (metis prod.collapse)
  have d: "remote plainManager (Suc (length (sent plainManager))) (Request ''listProperties'' [SScriptObject 123])
           = Names [''n'']"
    "remote plainManager (Suc (Suc (length (sent plainManager)))) (Request ''listMethods'' [SScriptObject 123])
           = Names [''registerCallback'', ''foo'']"
    by (simp_all add: plainManager_def constructor_fields)
  have e: "step\<^sup>*\<^sup>* rootDecoded rootDecoded" by simp
  have r: "remote rootDecoded = examplePeer"
    using keeps_def deserialize_keeps[of plainManager "SScriptObject 123"]
    by (simp add: rootDecoded_def keeps_def plainManager_def constructor_fields)
  from proxy_members [OF a c d e] b r show ?thesis
    by (auto simp: deserialize_def)
qed

subsection \<open>Requests in order\<close>

lemma inOrder_refl: "inOrder ok st st"
  by (auto simp: inOrder_def)

lemma inOrder_weaken: "inOrder True st st' \<Longrightarrow> inOrder ok st st'"
  by (auto simp: inOrder_def)

lemma inOrder_same: "sent st' = sent st \<Longrightarrow> remote st' = remote st \<Longrightarrow> inOrder ok st st'"
  by (auto simp: inOrder_def)

lemma inOrder_trans:
  assumes "inOrder True st st1" "inOrder ok st1 st2"
  shows "inOrder ok st st2"
proof -
  from assms obtain m1 m2 where s: "sent st1 = sent st @ m1" "sent st2 = sent st1 @ m2"
    and r: "remote st1 = remote st" "remote st2 = remote st1"
    by (auto simp: inOrder_def)
  have "answered st2 n"
    if n: "length (sent st) \<le> n" "n < length (sent st2)" "ok \<or> Suc n < length (sent st2)" for n
  proof (cases "n < length (sent st1)")
    case True
    with assms(1) n(1) have "answered st1 n" by (simp add: inOrder_def)
    moreover from True have "sent st2 ! n = sent st1 ! n" unfolding s(2) by (simp add: nth_append)
    ultimately show ?thesis using r by (simp add: answered_def)
  next
    case False
    with assms(2) n show ?thesis by (simp add: inOrder_def)
  qed
  with s r show ?thesis by (simp add: inOrder_def)
qed

lemma inOrder_then_same:
  "inOrder ok st st1 \<Longrightarrow> sent st2 = sent st1 \<Longrightarrow> remote st2 = remote st1 \<Longrightarrow> inOrder ok st st2"
  by (auto simp: inOrder_def answered_def)

lemma inOrder_from_same:
  "inOrder ok s0 st1 \<Longrightarrow> sent s0 = sent st \<Longrightarrow> remote s0 = remote st \<Longrightarrow> inOrder ok st st1"
  by (simp add: inOrder_def)

lemma jrpc_call_inOrder:
  assumes "jrpc_call st m ps = (reply, st1)"
  shows "inOrder (\<forall>e. reply \<noteq> Failure e) st st1"
proof -
  from assms have r: "reply = remote st (Suc (length (sent st))) (Request m ps)"
    and s: "sent st1 = sent st @ [Request m ps]" "remote st1 = remote st"
    by (auto simp: jrpc_call_def Let_def)
  show ?thesis
    unfolding inOrder_def
  proof (intro conjI allI impI)
    show "\<exists>more. sent st1 = sent st @ more" using s by simp
    show "remote st1 = remote st" using s by simp
  next
    fix n
    assume n: "length (sent st) \<le> n \<and> n < length (sent st1)
               \<and> ((\<forall>e. reply \<noteq> Failure e) \<or> Suc n < length (sent st1))"
    with s have "n = length (sent st)" by simp
    with n s r show "answered st1 n" by (simp add: answered_def)
  qed
qed

lemma awaitValue_Failure: "awaitValue reply = Inr v \<Longrightarrow> \<forall>e. reply \<noteq> Failure e"
  by (cases reply) (simp_all add: awaitValue_def)

lemma functions_same:
  "sent (snd (deserialize_functions st t)) = sent st" "remote (snd (deserialize_functions st t)) = remote st"
  by (cases t; simp add: describeScriptObject_functions_def Let_def split: Response.splits prod.splits option.splits)+

lemma deserialize_inOrder:
  assumes "deserialize st v = (r, st')"
  shows "inOrder (\<exists>x. r = Inr x) st st'"
proof -
  obtain t1 st1 where b: "deserialize_begin st v = (t1, st1)" by force
  obtain t2 st2 where c: "deserialize_variables st1 t1 = (t2, st2)" by force
  from assms have d: "deserialize_functions st2 t2 = (r, st')" by (simp add: deserialize_def b c)
  show ?thesis
  proof (cases t1)
    case (Settled r1)
    with b have "st1 = st" by (cases v) (auto simp: describeScriptObject_begin_def split_def Let_def split: if_splits)
    with Settled c d have "st' = st" by auto
    then show ?thesis by (simp add: inOrder_refl)
  next
    case (AwaitingVariables obj h reply)
    with b obtain s0 where j1: "jrpc_call s0 API_SERVER_METHOD_DESCRIBE_VARIABLES [SScriptObject h] = (reply, st1)"
      and s0: "sent s0 = sent st" "remote s0 = remote st"
      by (cases v) (auto simp: describeScriptObject_begin_def split_def Let_def split: if_splits)
    from inOrder_from_same[OF jrpc_call_inOrder[OF j1] s0]
    have 1: "inOrder (\<forall>e. reply \<noteq> Failure e) st st1" .
    show ?thesis
    proof (cases "\<exists>e. reply = Failure e")
      case True
      with AwaitingVariables c d have "st' = st1" "\<exists>e. r = Inl e"
        by (auto simp: describeScriptObject_variables_def)
      with 1 show ?thesis by (auto simp: inOrder_def)
    next
      case False
      with 1 have 1: "inOrder True st st1" by simp
      obtain reply2 s2 where j2': "jrpc_call st1 API_SERVER_METHOD_DESCRIBE_FUNCTIONS [SScriptObject h] = (reply2, s2)"
        by force
      with c AwaitingVariables False have t2: "t2 = AwaitingFunctions obj h reply reply2" and "s2 = st2"
        by (cases reply; simp add: describeScriptObject_variables_def)+
      with j2' have j2: "jrpc_call st1 API_SERVER_METHOD_DESCRIBE_FUNCTIONS [SScriptObject h] = (reply2, st2)"
        by simp
      from jrpc_call_inOrder[OF j2] have 2: "inOrder (\<forall>e. reply2 \<noteq> Failure e) st1 st2" .
      have same: "sent st' = sent st2" "remote st' = remote st2"
        using functions_same[of st2 t2] d by simp_all
      show ?thesis
      proof (cases "\<exists>e. reply2 = Failure e")
        case True
        with d t2 have "\<exists>e. r = Inl e" by (auto simp: describeScriptObject_functions_def)
        moreover from 2 have "inOrder False st1 st2" by (auto simp: inOrder_def)
        ultimately show ?thesis using inOrder_then_same[OF inOrder_trans[OF 1] same] by auto
      next
        case False
        with 2 have "inOrder True st1 st2" by simp
        from inOrder_weaken[OF inOrder_then_same[OF inOrder_trans[OF 1 this] same]]
        show ?thesis .
      qed
    qed
  qed
qed

lemma inOrder_False: "inOrder ok st st' \<Longrightarrow> inOrder False st st'"
  by (auto simp: inOrder_def)

lemma send_inOrder:
  assumes "callAPIMethod_send st target methodName args = (Inr reply, st1)"
  shows "inOrder (\<forall>e. reply \<noteq> Failure e) st st1"
proof -
  from send_cases[of st target methodName args] assms
  obtain xs where r: "reply = remote st (Suc (length (sent st)))
                          (Request ''execute'' (SScriptObject target # SStr methodName # xs))"
    and s: "sent st1 = sent st @ [Request ''execute'' (SScriptObject target # SStr methodName # xs)]"
      "remote st1 = remote st"
    by (auto simp: assignAll_fields split: sum.splits)
  have "jrpc_call st ''execute'' (SScriptObject target # SStr methodName # xs)
        = (reply, st\<lparr>sent := sent st1\<rparr>)"
    by (simp add: jrpc_call_def Let_def r s)
  from jrpc_call_inOrder[OF this] s show ?thesis
    by (simp add: inOrder_def answered_def)
qed

lemma settle_inOrder:
  assumes "callAPIMethod_settle st reply = (r, st')"
  shows "inOrder (\<exists>x. r = Inr x) st st' \<and> ((\<exists>x. r = Inr x) \<longrightarrow> (\<forall>e. reply \<noteq> Failure e))"
proof (cases "awaitValue reply")
  case (Inl e)
  with assms have "r = Inl e" "sent st' = sent st" "remote st' = remote st"
    by (auto simp: callAPIMethod_settle_def)
  then show ?thesis by (simp add: inOrder_same)
next
  case (Inr v)
  obtain r1 st1 where d: "deserialize st v = (r1, st1)" by force
  with assms Inr have "r = r1" "sent st' = sent st1" "remote st' = remote st1"
    by (auto simp: callAPIMethod_settle_def)
  with inOrder_then_same[OF deserialize_inOrder[OF d]] awaitValue_Failure[OF Inr]
  show ?thesis by simp
qed

lemma callAPIMethod_inOrder:
  assumes "callAPIMethod st target methodName args = (r, st')"
  shows "inOrder (\<exists>x. r = Inr x) st st'"
proof (cases "fst (callAPIMethod_send st target methodName args)")
  case (Inl e)
  with assms send_cases[of st target methodName args]
  have "sent st' = sent st" "remote st' = remote st"
    by (auto simp: callAPIMethod_def assignAll_fields split: sum.splits)
  then show ?thesis by (rule inOrder_same)
next
  case (Inr reply)
  then obtain st1 where s: "callAPIMethod_send st target methodName args = (Inr reply, st1)"
    by (metis prod.collapse)
  with assms have t: "callAPIMethod_settle st1 reply = (r, st')" by (simp add: callAPIMethod_def)
  note 1 = send_inOrder[OF s]
  note 2 = settle_inOrder[OF t]
  show ?thesis
  proof (cases "\<forall>e. reply \<noteq> Failure e")
    case True
    with 1 have "inOrder True st st1" by simp
    from inOrder_trans[OF this] 2 show ?thesis by blast
  next
    case False
    then obtain e where e: "reply = Failure e" by blast
    with t have "r = Inl (RemoteError e)" "sent st' = sent st1" "remote st' = remote st1"
      by (auto simp: callAPIMethod_settle_def awaitValue_def)
    with inOrder_then_same[OF 1] False show ?thesis by simp
  qed
qed

lemma registerCallback_inOrder:
  assumes "registerCallback st v name fn = (r, st')"
  shows "inOrder (\<exists>x. r = Inr x) st st'"
proof (cases "\<exists>p e target methodName. v = VObject p
                \<and> ownProperty st p ''registerCallback'' = Some (Method e target methodName)")
  case True
  with assms callAPIMethod_inOrder show ?thesis by (auto simp: registerCallback_def createMethod_def)
next
  case False
  have "inOrder False st (snd (jrpc_call st m ps))" for m ps
  proof -
    obtain reply st1 where j: "jrpc_call st m ps = (reply, st1)" by force
    from inOrder_False[OF jrpc_call_inOrder[OF j]] show ?thesis by (simp add: j)
  qed
  with False assms show ?thesis
    by (auto simp: registerCallback_def inOrder_refl split: SerializableValue.splits option.splits Member.splits)
qed

lemma registerCallbacks_inOrder:
  "registerCallbacks st root cbs = (res, st') \<Longrightarrow> inOrder (res = None) st st'"
proof (induction cbs arbitrary: st)
  case Nil
  then show ?case by (simp add: inOrder_refl)
next
  case (Cons cb cbs)
  obtain name fn where cb: "cb = (name, fn)" by force
  obtain r st1 where a: "registerCallback st root name fn = (r, st1)" by force
  note 1 = registerCallback_inOrder[OF a]
  show ?case
  proof (cases r)
    case (Inl e)
    with Cons.prems cb a have "res = Some e" "st' = st1" by auto
    with 1 Inl show ?thesis by simp
  next
    case (Inr x)
    with Cons.prems cb a have "registerCallbacks st1 root cbs = (res, st')" by simp
    from inOrder_trans[OF _ Cons.IH[OF this]] 1 Inr show ?thesis by simp
  qed
qed

lemma initialize_inOrder:
  assumes "initialize st token = (r, st')"
  shows "inOrder (\<exists>x. r = Inr x) st st'"
proof -
  let ?st1 = "st\<lparr>sent := sent st @ [Request ''authenticate'' [SStr token]]\<rparr>"
  let ?st2 = "st\<lparr>sent := sent st @ [Request ''authenticate'' [SStr token], Request ''getRootObject'' []]\<rparr>"
  let ?reply1 = "remote st (Suc (length (sent st))) (Request ''authenticate'' [SStr token])"
  let ?reply2 = "remote st (Suc (Suc (length (sent st)))) (Request ''getRootObject'' [])"
  have a: "jrpc_call st ''authenticate'' [SStr token] = (?reply1, ?st1)"
    by (simp add: jrpc_call_def Let_def)
  have b: "jrpc_call ?st1 ''getRootObject'' [] = (?reply2, ?st2)"
    by (simp add: jrpc_call_def Let_def)
  note 1 = jrpc_call_inOrder[OF a]
  note 2 = jrpc_call_inOrder[OF b]
  show ?thesis
  proof (cases rule: initialize_cases[of st token])
    case (refused e)
    with assms inOrder_False[OF 1] show ?thesis by auto
  next
    case (rootless e)
    with 1 have "inOrder True st ?st1" by simp
    from inOrder_trans[OF this inOrder_False[OF 2]] rootless assms show ?thesis by auto
  next
    case (undecoded response e st3)
    with 1 have 1: "inOrder True st ?st1" by simp
    from undecoded awaitValue_Failure have "inOrder True ?st1 ?st2" using 2 by simp
    from inOrder_trans[OF inOrder_trans[OF 1 this] deserialize_inOrder[OF undecoded(3)]]
      undecoded assms
    show ?thesis by auto
  next
    case (unregistered response apiRootObject st3 e st4)
    with 1 have 1: "inOrder True st ?st1" by simp
    from unregistered awaitValue_Failure have "inOrder True ?st1 ?st2" using 2 by simp
    from inOrder_trans[OF inOrder_trans[OF 1 this] deserialize_inOrder[OF unregistered(3)]]
    have "inOrder True st st3" by simp
    from inOrder_trans[OF this registerCallbacks_inOrder[OF unregistered(4)]] unregistered assms
    show ?thesis by auto
  next
    case (initialized response apiRootObject st3 st4)
    with 1 have 1: "inOrder True st ?st1" by simp
    from initialized awaitValue_Failure have "inOrder True ?st1 ?st2" using 2 by simp
    from inOrder_trans[OF inOrder_trans[OF 1 this] deserialize_inOrder[OF initialized(3)]]
    have "inOrder True st st3" by simp
    from inOrder_trans[OF this registerCallbacks_inOrder[OF initialized(4)]] initialized assms
    show ?thesis by auto
  qed
qed

subsection \<open>The registrations\<close>

lemma executes_append:
  "sent st1 = sent st @ m1 \<Longrightarrow> sent st2 = sent st1 @ m2 \<Longrightarrow>
   executes st st2 = executes st st1 @ executes st1 st2"
  by (simp add: executes_def)

lemma executes_same: "sent st' = sent st \<Longrightarrow> executes st st' = []"
  by (simp add: executes_def)

lemma executes_keeps:
  assumes "keeps n st st1" "keeps m st1 st2"
  shows "executes st st2 = executes st st1 @ executes st1 st2"
proof -
  from keeps_sent[OF assms(1)] obtain m1 where 1: "sent st1 = sent st @ m1" by blast
  from keeps_sent[OF assms(2)] obtain m2 where 2: "sent st2 = sent st1 @ m2" by blast
  show ?thesis by (rule executes_append[OF 1 2])
qed

lemma deserialize_executes: "executes st (snd (deserialize st v)) = []"
proof -
  obtain t1 st1 where b: "deserialize_begin st v = (t1, st1)" by force
  obtain t2 st2 where c: "deserialize_variables st1 t1 = (t2, st2)" by force
  have 1: "\<exists>m. sent st1 = sent st @ m \<and> filter isExecute m = []"
    using b by (cases v)
      (auto simp: describeScriptObject_begin_def jrpc_call_def Let_def
        API_SERVER_METHOD_DESCRIBE_VARIABLES_def API_SERVER_METHOD_CALL_FUNCTION_def split: if_splits)
  have 2: "\<exists>m. sent st2 = sent st1 @ m \<and> filter isExecute m = []"
    using c by (cases t1)
      (auto simp: describeScriptObject_variables_def jrpc_call_def Let_def
        API_SERVER_METHOD_DESCRIBE_FUNCTIONS_def API_SERVER_METHOD_CALL_FUNCTION_def
        split: Response.splits)
  have 3: "sent (snd (deserialize_functions st2 t2)) = sent st2"
    by (rule functions_same)
  from 1 obtain m1 where m1: "sent st1 = sent st @ m1" "filter isExecute m1 = []" by blast
  from 2 obtain m2 where m2: "sent st2 = sent st1 @ m2" "filter isExecute m2 = []" by blast
  have "sent (snd (deserialize st v)) = sent st @ m1 @ m2"
    using 3 m1(1) m2(1) by (simp add: deserialize_def b c)
  then show ?thesis using m1(2) m2(2) by (simp add: executes_def)
qed

lemma callAPIMethod_executes:
  assumes "callAPIMethod st target methodName args = (r, st')"
  shows "case serializeAll (assignAll st (objectArguments st args)) args of
           Inl e \<Rightarrow> executes st st' = []
         | Inr xs \<Rightarrow> executes st st' = [Request ''execute'' (SScriptObject target # SStr methodName # xs)]"
proof (cases "serializeAll (assignAll st (objectArguments st args)) args")
  case (Inl e)
  with assms send_cases[of st target methodName args]
  have "sent st' = sent st" by (auto simp: callAPIMethod_def assignAll_fields)
  with Inl show ?thesis by (simp add: executes_same)
next
  case (Inr xs)
  with send_cases[of st target methodName args]
  obtain reply st1 where s: "callAPIMethod_send st target methodName args = (Inr reply, st1)"
    and l: "sent st1 = sent st @ [Request ''execute'' (SScriptObject target # SStr methodName # xs)]"
    by (auto simp: assignAll_fields)
  from assms s have t: "callAPIMethod_settle st1 reply = (r, st')" by (simp add: callAPIMethod_def)
  have e: "executes st1 st' = []" and m: "\<exists>m. sent st' = sent st1 @ m"
  proof -
    show "\<exists>m. sent st' = sent st1 @ m"
      using keeps_sent[OF settle_keeps[of st1 reply]] t by simp
    show "executes st1 st' = []"
    proof (cases "awaitValue reply")
      case (Inl e)
      with t show ?thesis by (auto simp: callAPIMethod_settle_def executes_def)
    next
      case (Inr v)
      with t have "sent st' = sent (snd (deserialize st1 v))"
        by (auto simp: callAPIMethod_settle_def split_def Let_def)
      with deserialize_executes[of st1 v] show ?thesis by (simp add: executes_def)
    qed
  qed
  from m obtain m' where "sent st' = sent st1 @ m'" by blast
  from executes_append[OF l this] e l Inr show ?thesis
    by (simp add: executes_def API_SERVER_METHOD_CALL_FUNCTION_def)
qed

text \<open>
  The registrations that the loop of \<^verbatim>\<open>initialize\<close> sends, on a proxy: one for each entry
  in turn, up to the first that fails, and all of them when none fails. When the proxy has
  no method \<^verbatim>\<open>registerCallback\<close> the first call throws and none is sent.
\<close>

lemma registerCallbacks_executes:
  assumes "lookupObject st p = Some (Object (proxyMembers root P M) True)"
    and "distinct (P @ M)"
    and "\<forall>fn \<in> set (map snd cbs). fn < length (heap st) \<and> scriptObjectIdMap st fn \<noteq> None"
    and "registerCallbacks st (VObject p) cbs = (res, st')"
  shows "\<exists>k \<le> length cbs. list_all2 (registers root st') (take k cbs) (executes st st')
           \<and> (res = None \<longrightarrow> k = length cbs)
           \<and> (''registerCallback'' \<in> set M \<and> cbs \<noteq> [] \<longrightarrow> 0 < k)"
  using assms
proof (induction cbs arbitrary: st)
  case Nil
  then show ?case by (simp add: executes_def)
next
  case (Cons cb cbs)
  obtain name fn where cb: "cb = (name, fn)" by force
  obtain r st1 where a: "registerCallback st (VObject p) name fn = (r, st1)"
    by force
  have own: "ownProperty st p ''registerCallback'' =
            (if ''registerCallback'' \<in> set P then Some (Accessor True root ''registerCallback'')
             else if ''registerCallback'' \<in> set M then Some (Method True root ''registerCallback'') else None)"
    by (simp add: ownProperty_def Cons.prems(1) map_of_proxyMembers[OF Cons.prems(2)])
  show ?case
  proof (cases "''registerCallback'' \<in> set M")
    case False
    with a own have r: "r = Inl TypeError"
      and st1: "st1 = st \<or> st1 = st\<lparr>sent := sent st @ [Request ''get'' [SScriptObject root, SStr ''registerCallback'']]\<rparr>"
      by (auto simp: registerCallback_def jrpc_call_def Let_def API_SERVER_METHOD_GET_VALUE_def
          split: if_splits)
    from Cons.prems(4) cb a r have "st' = st1" "res = Some TypeError" by simp_all
    with st1 have "executes st st' = []"
      by (auto simp: executes_def API_SERVER_METHOD_CALL_FUNCTION_def)
    with False \<open>res = Some TypeError\<close> show ?thesis by (intro exI[of _ 0]) simp
  next
    case True
    with Cons.prems(2) have "''registerCallback'' \<notin> set P" by auto
    with True own a have call: "callAPIMethod st root ''registerCallback'' [VStr name, VObject fn] = (r, st1)"
      by (simp add: registerCallback_def createMethod_def)
    have k1: "keeps (length (heap st)) st st1"
      using callAPIMethod_keeps[of st root "''registerCallback''" "[VStr name, VObject fn]"] call by simp
    from Cons.prems(3) cb obtain h where live: "fn < length (heap st)" and h: "scriptObjectIdMap st fn = Some h"
      and rest_live: "\<forall>fn \<in> set (map snd cbs). fn < length (heap st) \<and> scriptObjectIdMap st fn \<noteq> None"
      by auto
    have plive: "p < length (heap st)"
      using Cons.prems(1) by (simp add: lookupObject_def split: if_splits)
    \<comment> \<open>the request of this registration\<close>
    let ?frame = "objectArguments st [VStr name, VObject fn]"
    have xs: "serializeAll (assignAll st ?frame) [VStr name, VObject fn] = Inr [SStr name, SScriptObject h]"
      using assignAll_kept[OF h, of ?frame] by simp
    from callAPIMethod_executes[OF call] xs
    have e1: "executes st st1
              = [Request ''execute'' [SScriptObject root, SStr ''registerCallback'', SStr name, SScriptObject h]]"
      by simp
    from k1 live h have h1: "scriptObjectIdMap st1 fn = Some h" by (simp add: keeps_def)
    from k1 Cons.prems(1) plive have obj: "lookupObject st1 p = Some (Object (proxyMembers root P M) True)"
      by (simp add: keeps_def lookupObject_def)
    from rest_live k1 have live1: "\<forall>fn \<in> set (map snd cbs). fn < length (heap st1) \<and> scriptObjectIdMap st1 fn \<noteq> None"
      unfolding keeps_def by fastforce
    show ?thesis
    proof (cases r)
      case (Inl e)
      with Cons.prems(4) cb a have "res = Some e" "st' = st1" by auto
      with e1 h1 show ?thesis by (intro exI[of _ 1]) (simp add: cb)
    next
      case (Inr x)
      with Cons.prems(4) cb a have rest: "registerCallbacks st1 (VObject p) cbs = (res, st')" by simp
      have k2: "keeps (length (heap st1)) st1 st'"
        using registerCallbacks_keeps[of st1 "VObject p" cbs] rest by simp
      from k2 h1 live keeps_length[OF k1] have h': "scriptObjectIdMap st' fn = Some h"
        by (simp add: keeps_def)
      from Cons.IH[OF obj Cons.prems(2) live1 rest] obtain k where
        k: "k \<le> length cbs" "list_all2 (registers root st') (take k cbs) (executes st1 st')"
          "res = None \<longrightarrow> k = length cbs" by blast
      from executes_keeps[OF k1 k2] e1 h' k show ?thesis
        by (intro exI[of _ "Suc k"]) (simp add: cb)
    qed
  qed
qed

lemma registerCallbacks_scalar:
  assumes "\<forall>p. root \<noteq> VObject p"
    and "registerCallbacks st root cbs = (res, st')"
  shows "executes st st' = [] \<and> (res = None \<longrightarrow> cbs = [])"
proof (cases cbs)
  case Nil
  with assms show ?thesis by (simp add: executes_def)
next
  case (Cons cb cbs')
  obtain name fn where cb: "cb = (name, fn)" by force
  from assms(1) have "registerCallback st root name fn = (Inl TypeError, st)"
    by (cases root) (simp_all add: registerCallback_def)
  with assms(2) Cons cb show ?thesis by (auto simp: executes_def)
qed

lemma constructor_idMap:
  "fn \<in> set (map snd cbs) \<Longrightarrow> scriptObjectIdMap (constructor cbs h rem) fn \<noteq> None"
  using assignAll_registers[of fn "Object_values cbs"]
  by (simp add: constructor_def Let_def Object_values_set)

text \<open>In a session the global callbacks are objects of the store and have handles.\<close>

lemma reachable_callbacks:
  "reachable st \<Longrightarrow>
   \<forall>fn \<in> set (map snd (globalCallbacksMap st)). fn < length (heap st) \<and> scriptObjectIdMap st fn \<noteq> None"
proof (induction rule: reachable.induct)
  case (start globalCallbacks h rem)
  then show ?case using constructor_idMap[of _ globalCallbacks h rem]
    by (auto simp: constructor_fields)
next
  case (later st st')
  from step_keeps[OF later.hyps(2)] later.IH show ?case
    unfolding keeps_def by fastforce
qed

lemma deserialize_object:
  "deserialize st v = (Inr (VObject p), st') \<Longrightarrow>
   \<exists>h. v = SScriptObject h \<and> h \<noteq> API_VALUE_INVALID_SCRIPT_OBJECT"
  by (cases v) (auto simp: deserialize_def split: if_splits)

lemma deserialize_proxy:
  assumes "target \<noteq> API_VALUE_INVALID_SCRIPT_OBJECT"
    and "remote st (Suc (length (sent st))) (Request ''listProperties'' [SScriptObject target]) = Names P"
    and "remote st (Suc (Suc (length (sent st)))) (Request ''listMethods'' [SScriptObject target]) = Names M"
    and "distinct (P @ M)"
  shows "fst (deserialize st (SScriptObject target)) = Inr (VObject (length (heap st)))"
proof -
  have "defineMembers target (Names P) (Names M) = (None, proxyMembers target P M)"
    using assms(4) defineMembers_None[of target "Names P" "Names M" "proxyMembers target P M"]
    by (simp add: iterate_def)
  with assms(1,2,3) show ?thesis
    by (simp add: deserialize_def describeScriptObject_begin_def describeScriptObject_variables_def
        describeScriptObject_functions_def jrpc_call_def Let_def
        API_SERVER_METHOD_DESCRIBE_VARIABLES_def API_SERVER_METHOD_DESCRIBE_FUNCTIONS_def)
qed

lemma Object_entries_order:
  "\<exists>indexed. Object_entries properties = indexed @ filter (\<lambda>property. arrayIndex (fst property) = None) properties
     \<and> sorted (map indexOf indexed)
     \<and> set indexed = set (filter (\<lambda>property. arrayIndex (fst property) \<noteq> None) properties)
     \<and> length indexed = length (filter (\<lambda>property. arrayIndex (fst property) \<noteq> None) properties)"
  by (intro exI[of _ "sort_key indexOf (filter (\<lambda>property. arrayIndex (fst property) \<noteq> None) properties)"])
    (simp add: Object_entries_def)

text \<open>
  C9, as the claim states it, fails: the callbacks map was written \<^verbatim>\<open>{b: f1, '1': f0}\<close>, so
  the caller declared \<^verbatim>\<open>b\<close> first, and the registration of \<^verbatim>\<open>1\<close> is sent first, that of
  \<^verbatim>\<open>b\<close> after it.
\<close>

theorem declared_order_counterexample:
  "globalCallbacksMap indexedManager = [(''b'', 1), (''1'', 0)]
   \<and> fst (initialize indexedManager ''token'') = Inr (VObject 3)
   \<and> executes indexedManager indexedInitialized
       = [Request ''execute'' [SScriptObject 123, SStr ''registerCallback'', SStr ''1'', SScriptObject 1],
          Request ''execute'' [SScriptObject 123, SStr ''registerCallback'', SStr ''b'', SScriptObject 2]]"
  by (simp add: indexedInitialized_def indexedManager_def example_defs initialize_def
      API_SERVER_METHOD_AUTHENTICATE_def
      API_SERVER_METHOD_GET_ROOT_OBJECT_def describeScriptObject_begin_def
      describeScriptObject_variables_def describeScriptObject_functions_def iterate_def defineMembers_def
      defineProperty_def API_SERVER_METHOD_DESCRIBE_VARIABLES_def
      API_SERVER_METHOD_DESCRIBE_FUNCTIONS_def registerCallback_def createMethod_def ownProperty_def
      executes_def)

text \<open>
  C9, amended. In a session, \<^verbatim>\<open>initialize\<close> registers the global callbacks in the order
  in which \<^verbatim>\<open>Object.entries\<close> enumerates the callbacks map: the names that are array
  indices first, in ascending numeric order, then the other names in the order in which the
  caller declared them, which is the caller's order throughout when no name is an array
  index. When the reply to \<^verbatim>\<open>getRootObject\<close> is the handle \<open>root\<close>, the \<^verbatim>\<open>execute\<close>
  requests sent are the registrations of the first \<open>k\<close> entries in that order, each calling
  \<^verbatim>\<open>registerCallback\<close> on \<open>root\<close> with the name and the handle of the function: of all the
  entries when \<^verbatim>\<open>initialize\<close> succeeds, and of at least the first one once authentication
  and the retrieval of a root object that has the method have succeeded. Otherwise no
  \<^verbatim>\<open>execute\<close> is sent, and \<^verbatim>\<open>initialize\<close> succeeds only if there is nothing to register.
  Every request sent but the last one was answered, and not with an error, and the last one
  too when \<^verbatim>\<open>initialize\<close> succeeds: a request is sent only when the replies to those
  before it have come, since an error among them would have ended the initialization there.
\<close>

theorem initialize_registers_in_order:
  assumes "reachable st"
    and "initialize st token = (r, st')"
  shows "(\<forall>root. remote st (Suc (Suc (length (sent st)))) (Request ''getRootObject'' []) = Result (SScriptObject root) \<longrightarrow>
            (\<exists>k \<le> length (Object_entries (globalCallbacksMap st)).
                list_all2 (registers root st') (take k (Object_entries (globalCallbacksMap st))) (executes st st')
                \<and> ((\<exists>x. r = Inr x) \<longrightarrow> k = length (Object_entries (globalCallbacksMap st)))
                \<and> (\<forall>P M. (\<forall>e. remote st (Suc (length (sent st))) (Request ''authenticate'' [SStr token]) \<noteq> Failure e)
                          \<and> root \<noteq> API_VALUE_INVALID_SCRIPT_OBJECT
                          \<and> remote st (Suc (Suc (Suc (length (sent st))))) (Request ''listProperties'' [SScriptObject root]) = Names P
                          \<and> remote st (Suc (Suc (Suc (Suc (length (sent st)))))) (Request ''listMethods'' [SScriptObject root]) = Names M
                          \<and> distinct (P @ M) \<and> ''registerCallback'' \<in> set M
                          \<and> globalCallbacksMap st \<noteq> [] \<longrightarrow> 0 < k)))
         \<and> ((\<forall>root. remote st (Suc (Suc (length (sent st)))) (Request ''getRootObject'' []) \<noteq> Result (SScriptObject root)) \<longrightarrow>
               executes st st' = [] \<and> ((\<exists>x. r = Inr x) \<longrightarrow> globalCallbacksMap st = []))
         \<and> (\<forall>n. length (sent st) \<le> n \<and> Suc n < length (sent st') \<longrightarrow> answered st' n)
         \<and> (\<forall>n. (\<exists>x. r = Inr x) \<and> length (sent st) \<le> n \<and> n < length (sent st') \<longrightarrow> answered st' n)
         \<and> ((\<forall>name \<in> set (map fst (globalCallbacksMap st)). arrayIndex name = None) \<longrightarrow>
               Object_entries (globalCallbacksMap st) = globalCallbacksMap st)
         \<and> (\<exists>indexed. Object_entries (globalCallbacksMap st)
                         = indexed @ filter (\<lambda>property. arrayIndex (fst property) = None) (globalCallbacksMap st)
               \<and> sorted (map indexOf indexed)
               \<and> set indexed = set (filter (\<lambda>property. arrayIndex (fst property) \<noteq> None) (globalCallbacksMap st)))"
proof -
  let ?st2 = "st\<lparr>sent := sent st @ [Request ''authenticate'' [SStr token], Request ''getRootObject'' []]\<rparr>"
  let ?cbs = "Object_entries (globalCallbacksMap st)"
  let ?reply1 = "remote st (Suc (length (sent st))) (Request ''authenticate'' [SStr token])"
  let ?reply2 = "remote st (Suc (Suc (length (sent st)))) (Request ''getRootObject'' [])"
  note registered = reachable_callbacks[OF assms(1)]
  have empty: "?cbs = [] \<longleftrightarrow> globalCallbacksMap st = []"
    using Object_entries_set[of "globalCallbacksMap st"] by (metis set_empty)
  \<comment> \<open>before the registrations\<close>
  have upto: "executes st st3 = [] \<and> keeps (length (heap st)) st st3"
    if d: "deserialize ?st2 response = (x, st3)" for response x st3
  proof -
    have k02: "keeps (length (heap st)) st ?st2" by (simp add: keeps_def handlesValid_def)
    have k23: "keeps (length (heap ?st2)) ?st2 st3" using deserialize_keeps[of ?st2 response] d by simp
    have e02: "executes st ?st2 = []"
      by (simp add: executes_def API_SERVER_METHOD_CALL_FUNCTION_def)
    have e23: "executes ?st2 st3 = []" using deserialize_executes[of ?st2 response] d by simp
    from executes_keeps[OF k02 k23] e02 e23 keeps_step2[OF k02 k23] show ?thesis by simp
  qed
  have from3: "executes st st' = executes st3 st'
               \<and> (\<forall>fn \<in> set (map snd ?cbs). fn < length (heap st3) \<and> scriptObjectIdMap st3 fn \<noteq> None)"
    if d: "deserialize ?st2 response = (x, st3)"
      and reg: "registerCallbacks st3 apiRootObject (Object_entries (globalCallbacksMap st3)) = (res, st')"
    for response x st3 apiRootObject res
  proof -
    from upto[OF d] have e03: "executes st st3 = []" and k03: "keeps (length (heap st)) st st3" by simp_all
    have k3: "keeps (length (heap st3)) st3 st'"
      using registerCallbacks_keeps[of st3 apiRootObject "Object_entries (globalCallbacksMap st3)"] reg by simp
    from executes_keeps[OF k03 k3] e03 have "executes st st' = executes st3 st'" by simp
    moreover from registered k03
    have "\<forall>fn \<in> set (map snd ?cbs). fn < length (heap st3) \<and> scriptObjectIdMap st3 fn \<noteq> None"
      unfolding keeps_def using Object_entries_set[of "globalCallbacksMap st"] by fastforce
    ultimately show ?thesis by simp
  qed
  \<comment> \<open>the registrations on a root object that was decoded from the handle \<open>root\<close>\<close>
  have onRoot: "\<exists>k \<le> length ?cbs.
                  list_all2 (registers root st') (take k ?cbs) (executes st st')
                  \<and> (res = None \<longrightarrow> k = length ?cbs)
                  \<and> (\<forall>P M. root \<noteq> API_VALUE_INVALID_SCRIPT_OBJECT
                          \<and> remote st (Suc (Suc (Suc (length (sent st))))) (Request ''listProperties'' [SScriptObject root]) = Names P
                          \<and> remote st (Suc (Suc (Suc (Suc (length (sent st)))))) (Request ''listMethods'' [SScriptObject root]) = Names M
                          \<and> distinct (P @ M) \<and> ''registerCallback'' \<in> set M
                          \<and> globalCallbacksMap st \<noteq> [] \<longrightarrow> 0 < k)"
    if d: "deserialize ?st2 (SScriptObject root) = (Inr apiRootObject, st3)"
      and reg: "registerCallbacks st3 apiRootObject (Object_entries (globalCallbacksMap st3)) = (res, st')"
    for root apiRootObject st3 res
  proof -
    from upto[OF d] have k03: "keeps (length (heap st)) st st3" by simp
    then have cbs3: "globalCallbacksMap st3 = globalCallbacksMap st" by (simp add: keeps_def)
    from from3[OF d reg] have e: "executes st st' = executes st3 st'"
      and live: "\<forall>fn \<in> set (map snd ?cbs). fn < length (heap st3) \<and> scriptObjectIdMap st3 fn \<noteq> None"
      by simp_all
    show ?thesis
    proof (cases "root = API_VALUE_INVALID_SCRIPT_OBJECT")
      case True
      with d have "apiRootObject = VNull" by (simp add: deserialize_def)
      with registerCallbacks_scalar[OF _ reg] cbs3 have "executes st3 st' = []" "res = None \<longrightarrow> ?cbs = []"
        by simp_all
      with e True show ?thesis by (intro exI[of _ 0]) auto
    next
      case False
      from deserialize_scriptObject[OF False d]
      obtain P M where it: "iterate (remote ?st2 (Suc (length (sent ?st2))) (Request ''listProperties'' [SScriptObject root])) = Inr P"
          "iterate (remote ?st2 (Suc (Suc (length (sent ?st2)))) (Request ''listMethods'' [SScriptObject root])) = Inr M"
        and dist: "distinct (P @ M)"
        and p: "apiRootObject = VObject (length (heap st))"
        and st3: "heap st3 = heap st @ [Object (proxyMembers root P M) True]"
        by auto
      from st3 have obj: "lookupObject st3 (length (heap st)) = Some (Object (proxyMembers root P M) True)"
        by (simp add: lookupObject_def)
      from registerCallbacks_executes[OF obj dist live reg[unfolded cbs3 p]]
      obtain k where k: "k \<le> length ?cbs" "list_all2 (registers root st') (take k ?cbs) (executes st3 st')"
        "res = None \<longrightarrow> k = length ?cbs" "''registerCallback'' \<in> set M \<and> ?cbs \<noteq> [] \<longrightarrow> 0 < k"
        by blast
      have "0 < k"
        if "remote st (Suc (Suc (Suc (length (sent st))))) (Request ''listProperties'' [SScriptObject root]) = Names P'"
          "remote st (Suc (Suc (Suc (Suc (length (sent st)))))) (Request ''listMethods'' [SScriptObject root]) = Names M'"
          "''registerCallback'' \<in> set M'" "globalCallbacksMap st \<noteq> []" for P' M'
      proof -
        from it(2) that(2) have "M = M'" by (simp add: iterate_def)
        with k(4) that(3,4) empty show ?thesis by simp
      qed
      with k e show ?thesis by (intro exI[of _ k]) auto
    qed
  qed
  \<comment> \<open>the registrations on a root value that is not an object\<close>
  have offRoot: "executes st st' = [] \<and> (res = None \<longrightarrow> globalCallbacksMap st = [])"
    if d: "deserialize ?st2 response = (Inr apiRootObject, st3)"
      and reg: "registerCallbacks st3 apiRootObject (Object_entries (globalCallbacksMap st3)) = (res, st')"
      and no: "\<forall>root. response \<noteq> SScriptObject root"
    for response apiRootObject st3 res
  proof -
    from upto[OF d] have "globalCallbacksMap st3 = globalCallbacksMap st" by (simp add: keeps_def)
    moreover from d no have "\<forall>p. apiRootObject \<noteq> VObject p"
      using deserialize_object[of ?st2 response _ st3] by blast
    ultimately show ?thesis
      using registerCallbacks_scalar[OF _ reg] from3[OF d reg] empty by simp
  qed
  have A: "\<exists>k \<le> length ?cbs.
              list_all2 (registers root st') (take k ?cbs) (executes st st')
              \<and> ((\<exists>x. r = Inr x) \<longrightarrow> k = length ?cbs)
              \<and> (\<forall>P M. (\<forall>e. ?reply1 \<noteq> Failure e)
                      \<and> root \<noteq> API_VALUE_INVALID_SCRIPT_OBJECT
                      \<and> remote st (Suc (Suc (Suc (length (sent st))))) (Request ''listProperties'' [SScriptObject root]) = Names P
                      \<and> remote st (Suc (Suc (Suc (Suc (length (sent st)))))) (Request ''listMethods'' [SScriptObject root]) = Names M
                      \<and> distinct (P @ M) \<and> ''registerCallback'' \<in> set M
                      \<and> globalCallbacksMap st \<noteq> [] \<longrightarrow> 0 < k)"
    if root: "?reply2 = Result (SScriptObject root)" for root
  proof (cases rule: initialize_cases[of st token])
    case (refused e)
    with assms(2) have "st' = st\<lparr>sent := sent st @ [Request ''authenticate'' [SStr token]]\<rparr>" "r = Inl (RemoteError e)"
      by simp_all
    then have "executes st st' = []" by (simp add: executes_def API_SERVER_METHOD_CALL_FUNCTION_def)
    with refused(1) \<open>r = Inl (RemoteError e)\<close> show ?thesis by (intro exI[of _ 0]) simp
  next
    case (rootless e)
    with root show ?thesis by (simp add: awaitValue_def)
  next
    case (undecoded response e st3)
    with root have response: "response = SScriptObject root" by (simp add: awaitValue_def)
    from undecoded assms(2) have r: "r = Inl e" "st' = st3" by simp_all
    from upto[OF undecoded(3)] r have e0: "executes st st' = []" by simp
    have "False"
      if "root \<noteq> API_VALUE_INVALID_SCRIPT_OBJECT"
        "remote st (Suc (Suc (Suc (length (sent st))))) (Request ''listProperties'' [SScriptObject root]) = Names P"
        "remote st (Suc (Suc (Suc (Suc (length (sent st)))))) (Request ''listMethods'' [SScriptObject root]) = Names M"
        "distinct (P @ M)" for P M
      using deserialize_proxy[of root ?st2 P M] that undecoded(3) response by simp
    with e0 r show ?thesis by (intro exI[of _ 0]) auto
  next
    case (unregistered response apiRootObject st3 e st4)
    with root have response: "response = SScriptObject root" by (simp add: awaitValue_def)
    from unregistered assms(2) have r: "r = Inl e" "st' = st4" by simp_all
    from onRoot[OF unregistered(3)[unfolded response] unregistered(4)[unfolded r(2)[symmetric]]] r
    show ?thesis by auto
  next
    case (initialized response apiRootObject st3 st4)
    with root have response: "response = SScriptObject root" by (simp add: awaitValue_def)
    from initialized assms(2) have r: "r = Inr apiRootObject" "st' = st4" by simp_all
    from onRoot[OF initialized(3)[unfolded response] initialized(4)[unfolded r(2)[symmetric]]] r
    show ?thesis by auto
  qed
  have B: "executes st st' = [] \<and> ((\<exists>x. r = Inr x) \<longrightarrow> globalCallbacksMap st = [])"
    if no: "\<forall>root. ?reply2 \<noteq> Result (SScriptObject root)"
  proof (cases rule: initialize_cases[of st token])
    case (refused e)
    with assms(2) have "st' = st\<lparr>sent := sent st @ [Request ''authenticate'' [SStr token]]\<rparr>" "r = Inl (RemoteError e)"
      by simp_all
    then show ?thesis by (simp add: executes_def API_SERVER_METHOD_CALL_FUNCTION_def)
  next
    case (rootless e)
    with assms(2) have "st' = ?st2" "r = Inl e" by simp_all
    then show ?thesis by (simp add: executes_def API_SERVER_METHOD_CALL_FUNCTION_def)
  next
    case (undecoded response e st3)
    with assms(2) have r: "r = Inl e" "st' = st3" by simp_all
    with upto[OF undecoded(3)] show ?thesis by simp
  next
    case (unregistered response apiRootObject st3 e st4)
    from unregistered(2) no have "\<forall>root. response \<noteq> SScriptObject root"
      by (cases ?reply2) (auto simp: awaitValue_def)
    moreover from unregistered assms(2) have r: "r = Inl e" "st' = st4" by simp_all
    ultimately show ?thesis
      using offRoot[OF unregistered(3) unregistered(4)[unfolded r(2)[symmetric]]] by simp
  next
    case (initialized response apiRootObject st3 st4)
    from initialized(2) no have "\<forall>root. response \<noteq> SScriptObject root"
      by (cases ?reply2) (auto simp: awaitValue_def)
    moreover from initialized assms(2) have r: "r = Inr apiRootObject" "st' = st4" by simp_all
    ultimately show ?thesis
      using offRoot[OF initialized(3) initialized(4)[unfolded r(2)[symmetric]]] by simp
  qed
  have C: "answered st' n" if "length (sent st) \<le> n \<and> Suc n < length (sent st')" for n
    using that initialize_inOrder[OF assms(2)] by (simp add: inOrder_def)
  have D: "answered st' n" if "(\<exists>x. r = Inr x) \<and> length (sent st) \<le> n \<and> n < length (sent st')" for n
    using that initialize_inOrder[OF assms(2)] by (simp add: inOrder_def)
  have E: "Object_entries (globalCallbacksMap st) = globalCallbacksMap st"
    if "\<forall>name \<in> set (map fst (globalCallbacksMap st)). arrayIndex name = None"
    using that by (rule Object_entries_names)
  have F: "\<exists>indexed. Object_entries (globalCallbacksMap st)
                         = indexed @ filter (\<lambda>property. arrayIndex (fst property) = None) (globalCallbacksMap st)
               \<and> sorted (map indexOf indexed)
               \<and> set indexed = set (filter (\<lambda>property. arrayIndex (fst property) \<noteq> None) (globalCallbacksMap st))"
    using Object_entries_order[of "globalCallbacksMap st"] by blast
  show ?thesis
    apply (intro conjI allI impI)
    subgoal for root using A[of root] by blast
    subgoal using B by blast
    subgoal using B by blast
    subgoal for n using C[of n] by blast
    subgoal for n using D[of n] by blast
    subgoal using E by blast
    subgoal using F by blast
    done
qed

theorem initialize_registers_in_order_witness:
  "fst (initialize exampleManager ''token'') = Inr (VObject 3)
   \<and> executes exampleManager (snd (initialize exampleManager ''token''))
       = [Request ''execute'' [SScriptObject 123, SStr ''registerCallback'', SStr ''a'', SScriptObject 1],
          Request ''execute'' [SScriptObject 123, SStr ''registerCallback'', SStr ''b'', SScriptObject 2]]
   \<and> answered (snd (initialize exampleManager ''token'')) 4"
proof -
  let ?st' = "snd (initialize exampleManager ''token'')"
  have cbs: "globalCallbacksMap exampleManager = [(''a'', 0), (''b'', 1)]"
    and h: "length (heap exampleManager) = 3"
    and s0: "sent exampleManager = []"
    and rem: "remote exampleManager = examplePeer"
    by (simp_all add: exampleManager_def constructor_fields exampleStore_def)
  have entries: "Object_entries (globalCallbacksMap exampleManager) = [(''a'', 0), (''b'', 1)]"
    unfolding cbs by (rule Object_entries_names) (simp add: arrayIndex_def isDigit_def)
  have r: "fst (initialize exampleManager ''token'') = Inr (VObject 3)"
    and ids: "scriptObjectIdMap ?st' 0 = Some 1" "scriptObjectIdMap ?st' 1 = Some 2"
    and len: "length (sent ?st') = 6"
    by (simp_all add: example_defs initialize_def API_SERVER_METHOD_AUTHENTICATE_def
        API_SERVER_METHOD_GET_ROOT_OBJECT_def describeScriptObject_begin_def
        describeScriptObject_variables_def describeScriptObject_functions_def iterate_def defineMembers_def
        defineProperty_def API_SERVER_METHOD_DESCRIBE_VARIABLES_def
        API_SERVER_METHOD_DESCRIBE_FUNCTIONS_def registerCallback_def createMethod_def ownProperty_def)
  then have i: "initialize exampleManager ''token'' = (Inr (VObject 3), ?st')"
    by (metis prod.collapse)
  have root: "remote exampleManager (Suc (Suc (length (sent exampleManager)))) (Request ''getRootObject'' [])
              = Result (SScriptObject 123)"
    by (simp add: rem)
  from initialize_registers_in_order [OF reachable_exampleManager i] root
  obtain k where "k = length (Object_entries (globalCallbacksMap exampleManager))"
    and l: "list_all2 (registers 123 ?st') (take k (Object_entries (globalCallbacksMap exampleManager)))
              (executes exampleManager ?st')"
    and n: "\<forall>n. length (sent exampleManager) \<le> n \<and> Suc n < length (sent ?st') \<longrightarrow> answered ?st' n"
    by blast
  then have l: "list_all2 (registers 123 ?st') [(''a'', 0), (''b'', 1)] (executes exampleManager ?st')"
    by (simp add: entries)
  then obtain x y where "executes exampleManager ?st' = [x, y]"
    "registers 123 ?st' (''a'', 0) x" "registers 123 ?st' (''b'', 1) y"
    by (auto simp: list_all2_Cons1)
  with ids have "executes exampleManager ?st'
       = [Request ''execute'' [SScriptObject 123, SStr ''registerCallback'', SStr ''a'', SScriptObject 1],
          Request ''execute'' [SScriptObject 123, SStr ''registerCallback'', SStr ''b'', SScriptObject 2]]"
    by simp
  moreover from n s0 len have "answered ?st' 4" by simp
  ultimately show ?thesis using r by simp
qed

end
